(* ===== verification/Prelude.thy ===== *)
theory Prelude
  imports Main "HOL-Library.Word"
begin

text \<open>
  Shared vocabulary of the development: Rust's machine integers and byte vectors, the
  result type, the effect type of a fallible handler that threads a state, the
  little-endian codecs of \<^verbatim>\<open>to_le_bytes\<close>/\<^verbatim>\<open>from_le_bytes\<close> and the generic lemmas on
  lists and results that the components use.

  A Rust \<^verbatim>\<open>usize\<close> that counts bytes or elements of a vector is a \<^typ>\<open>nat\<close>; integers
  whose width the program relies on (\<^verbatim>\<open>u8\<close>, \<^verbatim>\<open>u16\<close>, \<^verbatim>\<open>u32\<close>, \<^verbatim>\<open>u64\<close>) are words.  A
  \<^verbatim>\<open>&str\<close> or \<^verbatim>\<open>String\<close> is the list of its UTF-8 bytes, which is what every string
  operation of the program works on (\<^verbatim>\<open>len\<close>, \<^verbatim>\<open>split\<close> at an ASCII separator, comparison).
\<close>

section \<open>Types\<close>

type_synonym u8 = "8 word"
type_synonym u16 = "16 word"
type_synonym u32 = "32 word"
type_synonym u64 = "64 word"
type_synonym bytes = "u8 list"
type_synonym str = bytes
type_synonym duration = nat \<comment> \<open>nanoseconds\<close>
type_synonym instant = nat \<comment> \<open>nanoseconds of the monotonic clock\<close>

named_theorems codec "round trips of the byte codecs"
named_theorems io_simps "evaluation of the effect type"
named_theorems frame_simps "fields an operation leaves alone"

section \<open>String literals and number formatting\<close>

definition lit :: "string \<Rightarrow> str" where
  "lit s = map of_char s"

fun show_digits :: "nat \<Rightarrow> nat \<Rightarrow> str" where
  "show_digits base n =
     (let d = (\<lambda>k. if k < 10 then word_of_nat (48 + k) else word_of_nat (87 + k))
      in if base < 2 \<or> n < base then [d n] else show_digits base (n div base) @ [d (n mod base)])"

definition show_dec :: "nat \<Rightarrow> str" where
  "show_dec n = show_digits 10 n"

definition show_hex :: "nat \<Rightarrow> str" where
  "show_hex n = show_digits 16 n"

section \<open>Results and fallible stateful code\<close>

definition res_bind :: "'e + 'a \<Rightarrow> ('a \<Rightarrow> 'e + 'b) \<Rightarrow> 'e + 'b" where
  "res_bind r f = (case r of Inl e \<Rightarrow> Inl e | Inr x \<Rightarrow> f x)"

definition map_err :: "('e \<Rightarrow> 'd) \<Rightarrow> 'e + 'a \<Rightarrow> 'd + 'a" where
  "map_err h r = (case r of Inl e \<Rightarrow> Inl (h e) | Inr x \<Rightarrow> Inr x)"

definition ok_or :: "'e \<Rightarrow> 'a option \<Rightarrow> 'e + 'a" where
  "ok_or e v = (case v of None \<Rightarrow> Inl e | Some x \<Rightarrow> Inr x)"

text \<open>
  An \<^verbatim>\<open>async fn\<close> that works on a state \<^typ>\<open>'s\<close> and may return early with \<^verbatim>\<open>?\<close>: the state
  changes made before the early return stay.
\<close>

type_synonym ('s, 'e, 'a) io = "'s \<Rightarrow> ('e + 'a) \<times> 's"

definition io_return :: "'a \<Rightarrow> ('s, 'e, 'a) io" where
  "io_return x = (\<lambda>s. (Inr x, s))"

definition io_throw :: "'e \<Rightarrow> ('s, 'e, 'a) io" where
  "io_throw e = (\<lambda>s. (Inl e, s))"

definition io_bind :: "('s, 'e, 'a) io \<Rightarrow> ('a \<Rightarrow> ('s, 'e, 'b) io) \<Rightarrow> ('s, 'e, 'b) io" where
  "io_bind m f = (\<lambda>s. case m s of (Inl e, t) \<Rightarrow> (Inl e, t) | (Inr x, t) \<Rightarrow> f x t)"

definition io_lift :: "'e + 'a \<Rightarrow> ('s, 'e, 'a) io" where
  "io_lift r = (\<lambda>s. (r, s))"

definition io_get :: "('s \<Rightarrow> 'a) \<Rightarrow> ('s, 'e, 'a) io" where
  "io_get f = (\<lambda>s. (Inr (f s), s))"

definition io_modify :: "('s \<Rightarrow> 's) \<Rightarrow> ('s, 'e, unit) io" where
  "io_modify f = (\<lambda>s. (Inr (), f s))"

text \<open>Code that may panic: \<^verbatim>\<open>expect\<close> and \<^verbatim>\<open>unwrap\<close> panic on an error.\<close>

datatype 'a outcome = Panics str | Returns 'a

definition expect :: "str \<Rightarrow> 'e + 'a \<Rightarrow> ('a \<Rightarrow> 'b outcome) \<Rightarrow> 'b outcome" where
  "expect text r k = (case r of Inl _ \<Rightarrow> Panics text | Inr x \<Rightarrow> k x)"

definition unwrap :: "'e + 'a \<Rightarrow> ('a \<Rightarrow> 'b outcome) \<Rightarrow> 'b outcome" where
  "unwrap r k = expect (lit ''called Result::unwrap() on an Err value'') r k"

fun out_bind :: "'a outcome \<Rightarrow> ('a \<Rightarrow> 'b outcome) \<Rightarrow> 'b outcome" where
  "out_bind (Panics e) k = Panics e"
| "out_bind (Returns x) k = k x"

section \<open>Little-endian integers\<close>

fun to_le :: "nat \<Rightarrow> nat \<Rightarrow> bytes" where
  "to_le 0 k = []"
| "to_le (Suc n) k = word_of_nat k # to_le n (k div 256)"

fun from_le :: "bytes \<Rightarrow> nat" where
  "from_le [] = 0"
| "from_le (b # bs) = unat b + 256 * from_le bs"

definition u16_to_le_bytes :: "u16 \<Rightarrow> bytes" where
  "u16_to_le_bytes w = to_le 2 (unat w)"

definition u32_to_le_bytes :: "u32 \<Rightarrow> bytes" where
  "u32_to_le_bytes w = to_le 4 (unat w)"

definition u64_to_le_bytes :: "u64 \<Rightarrow> bytes" where
  "u64_to_le_bytes w = to_le 8 (unat w)"

definition u16_from_le_bytes :: "bytes \<Rightarrow> u16" where
  "u16_from_le_bytes bs = word_of_nat (from_le bs)"

definition u32_from_le_bytes :: "bytes \<Rightarrow> u32" where
  "u32_from_le_bytes bs = word_of_nat (from_le bs)"

definition u64_from_le_bytes :: "bytes \<Rightarrow> u64" where
  "u64_from_le_bytes bs = word_of_nat (from_le bs)"

section \<open>Lemmas\<close>

subsection \<open>Results and effects\<close>

lemma res_bind_simps [simp]:
  "res_bind (Inl e) f = Inl e"
  "res_bind (Inr x) f = f x"
  by (simp_all add: res_bind_def)

lemma res_bind_Inr_iff:
  "res_bind r f = Inr y \<longleftrightarrow> (\<exists>x. r = Inr x \<and> f x = Inr y)"
  by (cases r) auto

lemma map_err_simps [simp]:
  "map_err h (Inl e) = Inl (h e)"
  "map_err h (Inr x) = Inr x"
  by (simp_all add: map_err_def)

lemma ok_or_simps [simp]:
  "ok_or e None = Inl e"
  "ok_or e (Some x) = Inr x"
  by (simp_all add: ok_or_def)

lemma map_err_Inr_iff [simp]: "map_err h r = Inr x \<longleftrightarrow> r = Inr x"
  by (cases r) auto

lemma ok_or_Inr_iff [simp]: "ok_or e v = Inr x \<longleftrightarrow> v = Some x"
  by (cases v) auto

lemma io_eval [io_simps, simp]:
  "io_return x s = (Inr x, s)"
  "io_throw e s = (Inl e, s)"
  "io_lift r s = (r, s)"
  "io_get g s = (Inr (g s), s)"
  "io_modify h s = (Inr (), h s)"
  by (simp_all add: io_return_def io_throw_def io_lift_def io_get_def io_modify_def)

lemma io_bind_Inr [io_simps]: "m s = (Inr x, t) \<Longrightarrow> io_bind m f s = f x t"
  by (simp add: io_bind_def)

lemma io_bind_Inl [io_simps]: "m s = (Inl e, t) \<Longrightarrow> io_bind m f s = (Inl e, t)"
  by (simp add: io_bind_def)

lemma io_bind_eval [simp]:
  "io_bind (io_return x) f s = f x s"
  "io_bind (io_throw e) f s = (Inl e, s)"
  "io_bind (io_get g) k s = k (g s) s"
  "io_bind (io_modify h) c s = c () (h s)"
  "io_bind (io_lift (Inr x)) f s = f x s"
  "io_bind (io_lift (Inl e)) f s = (Inl e, s)"
  by (simp_all add: io_bind_def)

lemma io_bind_Inr_cases:
  assumes "io_bind m f s = (Inr y, u)"
  obtains x t where "m s = (Inr x, t)" and "f x t = (Inr y, u)"
  using assms by (auto simp: io_bind_def split: prod.splits sum.splits)

lemma io_bind_cases:
  assumes "io_bind m f s = (r, u)"
  obtains (err) e where "m s = (Inl e, u)" and "r = Inl e"
  | (val) x t where "m s = (Inr x, t)" and "f x t = (r, u)"
  using assms by (auto simp: io_bind_def split: prod.splits sum.splits)

lemma out_bind_Returns: "out_bind r k = Returns y \<longleftrightarrow> (\<exists>x. r = Returns x \<and> k x = Returns y)"
  by (cases r) auto

lemma expect_Returns: "expect text r k = Returns y \<longleftrightarrow> (\<exists>x. r = Inr x \<and> k x = Returns y)"
  by (cases r) (auto simp: expect_def)

lemma unwrap_Returns: "unwrap r k = Returns y \<longleftrightarrow> (\<exists>x. r = Inr x \<and> k x = Returns y)"
  by (simp add: unwrap_def expect_Returns)

lemmas outcome_simps = out_bind_Returns expect_Returns unwrap_Returns

text \<open>
  A relation between the states before and after that is reflexive and transitive lifts
  through the effect type, whatever the outcome: the way invariants and clock bounds are
  carried through a handler.
\<close>

definition io_keeps :: "('s \<Rightarrow> 's \<Rightarrow> bool) \<Rightarrow> ('s, 'e, 'a) io \<Rightarrow> bool" where
  "io_keeps R m \<longleftrightarrow> (\<forall>s. R s (snd (m s)))"

lemma io_keepsI: "(\<And>s. R s (snd (m s))) \<Longrightarrow> io_keeps R m"
  by (simp add: io_keeps_def)

lemma io_keepsD: "io_keeps R m \<Longrightarrow> R s (snd (m s))"
  by (simp add: io_keeps_def)

lemma io_keeps_pure:
  assumes "reflp R"
  shows "io_keeps R (io_return x)" and "io_keeps R (io_throw e)"
    and "io_keeps R (io_lift r)" and "io_keeps R (io_get g)"
  using assms by (auto simp: io_keeps_def reflp_def)

lemma io_keeps_bind:
  assumes "transp R" and "io_keeps R m" and "\<And>x. io_keeps R (f x)"
  shows "io_keeps R (io_bind m f)"
proof (rule io_keepsI)
  fix s
  obtain r t where m: "m s = (r, t)" by (cases "m s")
  have st: "R s t" using io_keepsD [OF assms(2), of s] m by simp
  show "R s (snd (io_bind m f s))"
  proof (cases r)
    case (Inl e)
    then show ?thesis using st m by (simp add: io_bind_def)
  next
    case (Inr x)
    have "R t (snd (f x t))" by (rule io_keepsD [OF assms(3)])
    with st have "R s (snd (f x t))" using assms(1) by (blast dest: transpD)
    then show ?thesis using Inr m by (simp add: io_bind_def)
  qed
qed

text \<open>After a lifted result or a read of the state, what is known of the value can be used.\<close>

lemma io_keeps_bind_lift:
  assumes "reflp R" and "\<And>x. r = Inr x \<Longrightarrow> io_keeps R (f x)"
  shows "io_keeps R (io_bind (io_lift r) f)"
  using assms by (cases r) (auto simp: io_keeps_def reflp_def)

lemma io_keeps_bind_get:
  assumes "\<And>s. io_keeps R (f (g s))"
  shows "io_keeps R (io_bind (io_get g) f)"
  using assms by (auto simp: io_keeps_def)

subsection \<open>Little-endian integers\<close>

lemma unat_bound: "unat (w :: 'a::len word) < 2 ^ LENGTH('a)"
  by (rule unsigned_less)

lemma length_to_le [simp]: "length (to_le n k) = n"
  by (induction n arbitrary: k) auto

lemma from_to_le [codec]: "from_le (to_le n k) = k mod 256 ^ n"
proof (induction n arbitrary: k)
  case 0
  then show ?case by simp
next
  case (Suc n)
  have "from_le (to_le (Suc n) k) = k mod 256 + 256 * (k div 256 mod 256 ^ n)"
    using Suc.IH [of "k div 256"] by (simp add: unat_of_nat)
  also have "\<dots> = k mod 256 ^ Suc n"
    by (simp add: mod_mult2_eq add.commute)
  finally show ?case .
qed

lemma from_le_less: "from_le bs < 256 ^ length bs"
proof (induction bs)
  case Nil
  then show ?case by simp
next
  case (Cons b bs)
  have "unat b < 256" using unat_bound [of b] by simp
  with Cons show ?case by simp
qed

lemma to_from_le [codec]: "to_le (length bs) (from_le bs) = bs"
proof (induction bs)
  case Nil
  then show ?case by simp
next
  case (Cons b bs)
  have b: "unat b < 256" using unat_bound [of b] by simp
  have "(unat b + 256 * from_le bs) div 256 = from_le bs" using b by simp
  moreover have "word_of_nat (unat b + 256 * from_le bs) = b"
  proof -
    have "(word_of_nat (256 * from_le bs) :: u8) = 256 * word_of_nat (from_le bs)"
      by simp
    also have "(256 :: u8) = 0" by simp
    finally show ?thesis by simp
  qed
  ultimately show ?case using Cons by simp
qed

lemma length_to_le_bytes [simp]:
  "length (u16_to_le_bytes a) = 2"
  "length (u32_to_le_bytes b) = 4"
  "length (u64_to_le_bytes c) = 8"
  by (simp_all add: u16_to_le_bytes_def u32_to_le_bytes_def u64_to_le_bytes_def)

lemma u16_le_roundtrip [simp, codec]: "u16_from_le_bytes (u16_to_le_bytes w) = w"
  using unat_bound [of w]
  by (simp add: u16_from_le_bytes_def u16_to_le_bytes_def from_to_le)

lemma u32_le_roundtrip [simp, codec]: "u32_from_le_bytes (u32_to_le_bytes w) = w"
  using unat_bound [of w]
  by (simp add: u32_from_le_bytes_def u32_to_le_bytes_def from_to_le)

lemma u64_le_roundtrip [simp, codec]: "u64_from_le_bytes (u64_to_le_bytes w) = w"
  using unat_bound [of w]
  by (simp add: u64_from_le_bytes_def u64_to_le_bytes_def from_to_le)

lemma u32_of_len [simp]:
  "n < 2 ^ 32 \<Longrightarrow> unat (word_of_nat n :: u32) = n"
  by (simp add: unat_of_nat)

subsection \<open>Lists\<close>

lemma take_append_length [simp]: "take (length xs) (xs @ ys) = xs"
  by simp

lemma fold_max_ge: "(a :: nat) \<le> fold max xs a"
proof (induction xs arbitrary: a)
  case Nil
  then show ?case by simp
next
  case (Cons x xs)
  have "a \<le> max x a" by simp
  also have "\<dots> \<le> fold max xs (max x a)" by (rule Cons.IH)
  finally show ?case by simp
qed

lemma fold_max_all_le: "(\<And>x. x \<in> set xs \<Longrightarrow> x \<le> a) \<Longrightarrow> fold max xs (a :: nat) = a"
proof (induction xs)
  case Nil
  then show ?case by simp
next
  case (Cons x xs)
  then have "max x a = a" by simp
  with Cons show ?case by simp
qed

end
