(* ===== verification/Rust_Str.thy ===== *)
theory Rust_Str
  imports Prelude "HOL-Library.Sublist"
begin

text \<open>
  The parts of Rust's standard library that the program calls on slices and strings:
  \<^verbatim>\<open>split\<close>, \<^verbatim>\<open>splitn(2, _)\<close>, \<^verbatim>\<open>position\<close>, \<^verbatim>\<open>contains\<close>, \<^verbatim>\<open>replace\<close>, \<^verbatim>\<open>starts_with\<close>,
  \<^verbatim>\<open>ends_with\<close>, \<^verbatim>\<open>trim\<close>, \<^verbatim>\<open>lines\<close> and the validation behind \<^verbatim>\<open>std::str::from_utf8\<close>.
  Strings are the lists of their UTF-8 bytes.  The second half proves that cutting a valid
  string at an ASCII byte gives valid strings, which is what makes the program's byte-level
  parsing safe.
\<close>

section \<open>Slices\<close>

definition position :: "('a \<Rightarrow> bool) \<Rightarrow> 'a list \<Rightarrow> nat option" where
  "position p xs = (let n = length (takeWhile (\<lambda>x. \<not> p x) xs) in if n < length xs then Some n else None)"

fun split_on :: "'a \<Rightarrow> 'a list \<Rightarrow> 'a list list" where
  "split_on c [] = [[]]"
| "split_on c (x # xs) =
     (if x = c then [] # split_on c xs
      else case split_on c xs of [] \<Rightarrow> [[x]] | y # ys \<Rightarrow> (x # y) # ys)"

definition splitn2 :: "'a \<Rightarrow> 'a list \<Rightarrow> 'a list list" where
  "splitn2 c xs =
     (case position (\<lambda>x. x = c) xs of
        None \<Rightarrow> [xs]
      | Some n \<Rightarrow> [take n xs, drop (Suc n) xs])"

fun join_with :: "'a \<Rightarrow> 'a list list \<Rightarrow> 'a list" where
  "join_with c [] = []"
| "join_with c [x] = x"
| "join_with c (x # y # ys) = x @ c # join_with c (y # ys)"

section \<open>Strings\<close>

definition str_starts_with :: "str \<Rightarrow> str \<Rightarrow> bool" where
  "str_starts_with pat s \<longleftrightarrow> prefix pat s"

definition str_ends_with :: "str \<Rightarrow> str \<Rightarrow> bool" where
  "str_ends_with pat s \<longleftrightarrow> suffix pat s"

fun str_contains :: "str \<Rightarrow> str \<Rightarrow> bool" where
  "str_contains pat [] \<longleftrightarrow> pat = []"
| "str_contains pat (c # s) \<longleftrightarrow> prefix pat (c # s) \<or> str_contains pat s"

text \<open>\<^verbatim>\<open>str::replace\<close> for a non-empty pattern: non-overlapping matches from the left.\<close>

fun str_replace :: "str \<Rightarrow> str \<Rightarrow> str \<Rightarrow> str" where
  "str_replace pat by [] = []"
| "str_replace pat by (c # s) =
     (if prefix pat (c # s) then by @ str_replace pat by (drop (length pat - 1) s)
      else c # str_replace pat by s)"

text \<open>
  \<^verbatim>\<open>str::trim\<close> removes the characters with Unicode property \<^verbatim>\<open>White_Space\<close>, given here by
  their UTF-8 encodings.
\<close>

definition white_space :: "str list" where
  "white_space =
     map (\<lambda>b. [b]) [9, 10, 11, 12, 13, 32] @
     [[0xC2, 0x85], [0xC2, 0xA0], [0xE1, 0x9A, 0x80]] @
     map (\<lambda>b. [0xE2, 0x80, b])
       [0x80, 0x81, 0x82, 0x83, 0x84, 0x85, 0x86, 0x87, 0x88, 0x89, 0x8A, 0xA8, 0xA9, 0xAF] @
     [[0xE2, 0x81, 0x9F], [0xE3, 0x80, 0x80]]"

fun strip_front :: "str list \<Rightarrow> str \<Rightarrow> str" where
  "strip_front seqs [] = []"
| "strip_front seqs (c # s) =
     (case find (\<lambda>w. prefix w (c # s)) seqs of
        None \<Rightarrow> c # s
      | Some w \<Rightarrow> strip_front seqs (drop (length w - 1) s))"

definition str_trim :: "str \<Rightarrow> str" where
  "str_trim s = rev (strip_front (map rev white_space) (rev (strip_front white_space s)))"

text \<open>\<^verbatim>\<open>str::lines\<close>: cut at line feeds, drop one trailing carriage return of each line, and no
  empty line after a final line feed.\<close>

definition strip_cr :: "str \<Rightarrow> str" where
  "strip_cr l = (if l \<noteq> [] \<and> last l = 13 then butlast l else l)"

definition str_lines :: "str \<Rightarrow> str list" where
  "str_lines s =
     (let ls = split_on 10 s
      in map strip_cr (butlast ls) @ (if last ls = [] then [] else [last ls]))"

section \<open>UTF-8 validation\<close>

record utf8_error =
  valid_up_to :: nat
  error_len :: "nat option"

definition utf8_cont :: "u8 \<Rightarrow> bool" where
  "utf8_cont b \<longleftrightarrow> 0x80 \<le> b \<and> b \<le> 0xBF"

definition utf8_second3 :: "u8 \<Rightarrow> u8 \<Rightarrow> bool" where
  "utf8_second3 b0 b1 \<longleftrightarrow>
     (if b0 = 0xE0 then 0xA0 \<le> b1 \<and> b1 \<le> 0xBF
      else if b0 = 0xED then 0x80 \<le> b1 \<and> b1 \<le> 0x9F
      else 0x80 \<le> b1 \<and> b1 \<le> 0xBF)"

definition utf8_second4 :: "u8 \<Rightarrow> u8 \<Rightarrow> bool" where
  "utf8_second4 b0 b1 \<longleftrightarrow>
     (if b0 = 0xF0 then 0x90 \<le> b1 \<and> b1 \<le> 0xBF
      else if b0 = 0xF4 then 0x80 \<le> b1 \<and> b1 \<le> 0x8F
      else 0x80 \<le> b1 \<and> b1 \<le> 0xBF)"

text \<open>The continuation bytes a lead byte asks for: each has its own test, and a failed test
  after \<open>k\<close> good bytes is an error of length \<open>k\<close>.\<close>

definition utf8_tail :: "u8 \<Rightarrow> (u8 \<Rightarrow> bool) list option" where
  "utf8_tail b0 =
     (if b0 < 0x80 then Some []
      else if 0xC2 \<le> b0 \<and> b0 \<le> 0xDF then Some [utf8_cont]
      else if 0xE0 \<le> b0 \<and> b0 \<le> 0xEF then Some [utf8_second3 b0, utf8_cont]
      else if 0xF0 \<le> b0 \<and> b0 \<le> 0xF4 then Some [utf8_second4 b0, utf8_cont, utf8_cont]
      else None)"

datatype tail_check = Tail_Ok bytes | Tail_Bad nat | Tail_Short

fun utf8_take :: "nat \<Rightarrow> (u8 \<Rightarrow> bool) list \<Rightarrow> bytes \<Rightarrow> tail_check" where
  "utf8_take k [] bs = Tail_Ok bs"
| "utf8_take k (t # ts) [] = Tail_Short"
| "utf8_take k (t # ts) (b # bs) = (if t b then utf8_take (Suc k) ts bs else Tail_Bad k)"

lemma utf8_take_shorter: "utf8_take k ts bs = Tail_Ok r \<Longrightarrow> length r \<le> length bs"
  by (induction k ts bs rule: utf8_take.induct) (auto split: if_splits)

function utf8_run :: "nat \<Rightarrow> bytes \<Rightarrow> utf8_error option" where
  "utf8_run i [] = None"
| "utf8_run i (b # bs) =
     (case utf8_tail b of
        None \<Rightarrow> Some \<lparr>valid_up_to = i, error_len = Some 1\<rparr>
      | Some ts \<Rightarrow>
          (case utf8_take 1 ts bs of
             Tail_Short \<Rightarrow> Some \<lparr>valid_up_to = i, error_len = None\<rparr>
           | Tail_Bad k \<Rightarrow> Some \<lparr>valid_up_to = i, error_len = Some k\<rparr>
           | Tail_Ok r \<Rightarrow> utf8_run (i + Suc (length ts)) r))"
  by pat_completeness auto
termination
  by (relation "measure (\<lambda>(i, bs). length bs)") (auto dest!: utf8_take_shorter)

definition from_utf8 :: "bytes \<Rightarrow> utf8_error + str" where
  "from_utf8 bs = (case utf8_run 0 bs of None \<Rightarrow> Inr bs | Some e \<Rightarrow> Inl e)"

definition utf8_valid :: "bytes \<Rightarrow> bool" where
  "utf8_valid bs \<longleftrightarrow> utf8_run 0 bs = None"

section \<open>Lemmas\<close>

subsection \<open>Positions and splits\<close>

lemma position_append [simp]:
  "(\<And>x. x \<in> set xs \<Longrightarrow> \<not> p x) \<Longrightarrow> p c \<Longrightarrow> position p (xs @ c # ys) = Some (length xs)"
  by (simp add: position_def)

lemma position_None_iff: "position p xs = None \<longleftrightarrow> (\<forall>x \<in> set xs. \<not> p x)"
proof -
  have "takeWhile (\<lambda>x. \<not> p x) xs = xs \<longleftrightarrow> (\<forall>x \<in> set xs. \<not> p x)"
    by (simp add: takeWhile_eq_all_conv)
  moreover have "length (takeWhile (\<lambda>x. \<not> p x) xs) < length xs \<longleftrightarrow> takeWhile (\<lambda>x. \<not> p x) xs \<noteq> xs"
    by (metis length_takeWhile_le nat_less_le takeWhile_eq_take take_all_iff order_refl)
  ultimately show ?thesis by (auto simp: position_def Let_def)
qed

lemma position_SomeD:
  assumes "position p xs = Some n"
  shows "n < length xs" and "p (xs ! n)" and "\<And>x. x \<in> set (take n xs) \<Longrightarrow> \<not> p x"
proof -
  from assms have n: "n = length (takeWhile (\<lambda>x. \<not> p x) xs)" and l: "n < length xs"
    by (auto simp: position_def Let_def split: if_splits)
  show "n < length xs" by (rule l)
  show "p (xs ! n)" using n l nth_length_takeWhile by fastforce
  have "take n xs = takeWhile (\<lambda>x. \<not> p x) xs" using n by (metis takeWhile_eq_take)
  then show "\<And>x. x \<in> set (take n xs) \<Longrightarrow> \<not> p x" by (auto dest: set_takeWhileD)
qed

lemma position_Some_decomp:
  assumes "position (\<lambda>x. x = c) xs = Some n"
  shows "xs = take n xs @ c # drop (Suc n) xs"
  using position_SomeD(1,2) [OF assms] by (metis id_take_nth_drop)

lemma split_on_nonempty [simp]: "split_on c xs \<noteq> []"
  by (induction xs) (auto split: list.splits)

lemma join_split_on [codec]: "join_with c (split_on c xs) = xs"
proof (induction xs)
  case Nil
  then show ?case by simp
next
  case (Cons x xs)
  obtain y ys where s: "split_on c xs = y # ys"
    using split_on_nonempty [of c xs] by (meson list.exhaust)
  show ?case using Cons s by (cases ys) auto
qed

lemma split_on_no_sep: "c \<notin> set xs \<Longrightarrow> split_on c xs = [xs]"
  by (induction xs) auto

lemma split_on_append: "c \<notin> set xs \<Longrightarrow> split_on c (xs @ c # ys) = xs # split_on c ys"
  by (induction xs) auto

lemma split_on_join [codec]:
  assumes "xss \<noteq> []" and "\<And>xs. xs \<in> set xss \<Longrightarrow> c \<notin> set xs"
  shows "split_on c (join_with c xss) = xss"
  using assms by (induction c xss rule: join_with.induct)
    (auto simp: split_on_append split_on_no_sep)

lemma split_on_elem_no_sep: "y \<in> set (split_on c xs) \<Longrightarrow> c \<notin> set y"
proof (induction xs arbitrary: y)
  case Nil
  then show ?case by simp
next
  case (Cons x xs)
  obtain z zs where s: "split_on c xs = z # zs"
    using split_on_nonempty [of c xs] by (meson list.exhaust)
  then show ?case using Cons by (auto split: if_splits)
qed

lemma length_split_on: "length (split_on c xs) = Suc (count_list xs c)"
proof (induction xs)
  case Nil
  then show ?case by simp
next
  case (Cons x xs)
  then show ?case by (auto split: list.splits)
qed

lemma splitn2_append [simp]: "c \<notin> set xs \<Longrightarrow> splitn2 c (xs @ c # ys) = [xs, ys]"
proof -
  assume "c \<notin> set xs"
  then have "position (\<lambda>x. x = c) (xs @ c # ys) = Some (length xs)"
    by (intro position_append) auto
  then show ?thesis by (simp add: splitn2_def)
qed

lemma splitn2_no_sep: "c \<notin> set xs \<Longrightarrow> splitn2 c xs = [xs]"
proof -
  assume "c \<notin> set xs"
  then have "position (\<lambda>x. x = c) xs = None" by (auto simp: position_None_iff)
  then show ?thesis by (simp add: splitn2_def)
qed

lemma splitn2_cases:
  obtains (one) "c \<notin> set xs" and "splitn2 c xs = [xs]"
  | (two) ys zs where "xs = ys @ c # zs" and "c \<notin> set ys" and "splitn2 c xs = [ys, zs]"
proof (cases "position (\<lambda>x. x = c) xs")
  case None
  then have "\<forall>x \<in> set xs. x \<noteq> c" by (rule position_None_iff [THEN iffD1])
  then have "c \<notin> set xs" by blast
  then show thesis by (intro one splitn2_no_sep)
next
  case (Some n)
  have "xs = take n xs @ c # drop (Suc n) xs" by (rule position_Some_decomp [OF Some])
  moreover have "c \<notin> set (take n xs)" using position_SomeD(3) [OF Some] by blast
  ultimately show thesis using two Some by (simp add: splitn2_def)
qed

subsection \<open>UTF-8\<close>

lemma from_utf8_Inr_iff [simp]: "from_utf8 bs = Inr s \<longleftrightarrow> utf8_valid bs \<and> s = bs"
  by (auto simp: from_utf8_def utf8_valid_def split: option.splits)

lemma from_utf8_valid: "utf8_valid bs \<Longrightarrow> from_utf8 bs = Inr bs"
  by simp

lemma utf8_run_None_offset:
  assumes "utf8_run i bs = None"
  shows "utf8_run j bs = None"
  using assms
proof (induction i bs arbitrary: j rule: utf8_run.induct)
  case (1 i)
  then show ?case by simp
next
  case (2 i b bs)
  from "2.prems" obtain ts where ts: "utf8_tail b = Some ts"
    by (auto split: option.splits)
  from "2.prems" ts obtain r where r: "utf8_take 1 ts bs = Tail_Ok r"
    and v: "utf8_run (i + Suc (length ts)) r = None"
    by (auto split: tail_check.splits)
  from "2.IH" [OF ts r v, of "j + Suc (length ts)"] ts r show ?case by simp
qed

lemma utf8_valid_Nil [simp]: "utf8_valid []"
  by (simp add: utf8_valid_def)

lemma utf8_valid_Cons:
  "utf8_valid (b # bs) \<longleftrightarrow>
     (\<exists>ts r. utf8_tail b = Some ts \<and> utf8_take 1 ts bs = Tail_Ok r \<and> utf8_valid r)"
  unfolding utf8_valid_def
  by (auto split: option.splits tail_check.splits intro: utf8_run_None_offset)

lemma utf8_valid_ascii_Cons [simp]: "b < 0x80 \<Longrightarrow> utf8_valid (b # bs) \<longleftrightarrow> utf8_valid bs"
  by (simp add: utf8_valid_Cons utf8_tail_def)

lemma utf8_tail_rejects_ascii:
  assumes "utf8_tail b = Some ts" and "t \<in> set ts" and "c < 0x80"
  shows "\<not> t c"
proof -
  have c: "\<not> 0x80 \<le> c" "\<not> 0x90 \<le> c" "\<not> 0xA0 \<le> c"
    using assms(3) by unat_arith+
  show ?thesis
    using assms(1,2) c
    by (auto simp: utf8_tail_def utf8_cont_def utf8_second3_def utf8_second4_def split: if_splits)
qed

lemma utf8_take_append_ascii:
  assumes "\<And>t. t \<in> set ts \<Longrightarrow> \<not> t c"
  shows "utf8_take k ts (bs @ c # ys) = Tail_Ok r \<longleftrightarrow>
    (\<exists>r'. utf8_take k ts bs = Tail_Ok r' \<and> r = r' @ c # ys)"
  using assms by (induction k ts bs rule: utf8_take.induct) auto

text \<open>Cutting at an ASCII byte: both parts are valid strings exactly if the whole is.\<close>

lemma utf8_valid_ascii_cut:
  assumes c: "c < 0x80"
  shows "utf8_valid (xs @ c # ys) \<longleftrightarrow> utf8_valid xs \<and> utf8_valid ys"
proof (induction xs rule: length_induct)
  case (1 xs)
  show ?case
  proof (cases xs)
    case Nil
    then show ?thesis using c by simp
  next
    case (Cons b bs)
    have step: "utf8_valid (r' @ c # ys) \<longleftrightarrow> utf8_valid r' \<and> utf8_valid ys"
      if "utf8_take 1 ts bs = Tail_Ok r'" for ts r'
      using "1" utf8_take_shorter [OF that] Cons by auto
    have "utf8_valid (b # bs @ c # ys) \<longleftrightarrow>
      (\<exists>ts r'. utf8_tail b = Some ts \<and> utf8_take 1 ts bs = Tail_Ok r' \<and> utf8_valid (r' @ c # ys))"
      using utf8_take_append_ascii utf8_tail_rejects_ascii [OF _ _ c]
      unfolding utf8_valid_Cons [of b "bs @ c # ys"] by (metis (no_types, opaque_lifting))
    also have "\<dots> \<longleftrightarrow> utf8_valid (b # bs) \<and> utf8_valid ys"
      unfolding utf8_valid_Cons [of b bs] using step by blast
    finally show ?thesis using Cons by simp
  qed
qed

lemma utf8_valid_take_position:
  assumes "utf8_valid xs" and "position (\<lambda>x. x = c) xs = Some n" and "c < 0x80"
  shows "utf8_valid (take n xs)" and "utf8_valid (drop (Suc n) xs)"
  using assms(1) position_Some_decomp [OF assms(2)] utf8_valid_ascii_cut [OF assms(3)]
  by metis+

lemma utf8_valid_splitn2:
  assumes "utf8_valid xs" and "c < 0x80" and "y \<in> set (splitn2 c xs)"
  shows "utf8_valid y"
  by (rule splitn2_cases [of c xs]) (use assms in \<open>auto simp: utf8_valid_ascii_cut\<close>)

lemma utf8_valid_split_on:
  assumes "utf8_valid xs" and "c < 0x80" and "y \<in> set (split_on c xs)"
  shows "utf8_valid y"
  using assms(1,3)
proof (induction "length xs" arbitrary: xs rule: less_induct)
  case less
  show ?case
  proof (rule splitn2_cases [of c xs])
    assume "c \<notin> set xs"
    then show ?thesis using less.prems by (simp add: split_on_no_sep)
  next
    fix ys zs assume xs: "xs = ys @ c # zs" and ys: "c \<notin> set ys"
    then have "utf8_valid ys" and "utf8_valid zs" and "y = ys \<or> y \<in> set (split_on c zs)"
      using less.prems assms(2) by (auto simp: utf8_valid_ascii_cut split_on_append)
    then show ?thesis using less.hyps [of zs] xs by auto
  qed
qed

lemma utf8_valid_ascii: "(\<And>b. b \<in> set bs \<Longrightarrow> b < 0x80) \<Longrightarrow> utf8_valid bs"
  by (induction bs) auto

end
