(* ===== verification/Psrt_Lib.thy ===== *)
theory Psrt_Lib
  imports Rust_Str
begin

text \<open>
  The crate root, \<^verbatim>\<open>src/src/lib.rs\<close>: the protocol constants, the error type and its
  conversions, \<^verbatim>\<open>reduce_timeout\<close>, \<^verbatim>\<open>is_unix_socket\<close> and the message a client receives
  (\<^verbatim>\<open>Message::from_buf\<close>).
\<close>

section \<open>Protocol constants\<close>

definition DEFAULT_PRIORITY :: u8 where "DEFAULT_PRIORITY = 0x7F"

definition CONTROL_HEADER :: bytes where "CONTROL_HEADER = [0xEE, 0xAA]"
definition DATA_HEADER :: bytes where "DATA_HEADER = [0xEE, 0xAB]"

definition PROTOCOL_VERSION :: u16 where "PROTOCOL_VERSION = 1"

definition OP_NOP :: u8 where "OP_NOP = 0x00"
definition RESPONSE_OK :: u8 where "RESPONSE_OK = 0x01"
definition RESPONSE_OK_WAITING :: u8 where "RESPONSE_OK_WAITING = 0x02"
definition RESPONSE_NOT_REQUIRED :: u8 where "RESPONSE_NOT_REQUIRED = 0xE0"
definition RESPONSE_ERR :: u8 where "RESPONSE_ERR = 0xFF"
definition RESPONSE_ERR_ACCESS :: u8 where "RESPONSE_ERR_ACCESS = 0xFE"

definition OP_PUBLISH :: u8 where "OP_PUBLISH = 0x01"
definition OP_PUBLISH_REPL :: u8 where "OP_PUBLISH_REPL = 0x11"
definition OP_PUBLISH_NO_ACK :: u8 where "OP_PUBLISH_NO_ACK = 0x21"
definition OP_SUBSCRIBE :: u8 where "OP_SUBSCRIBE = 0x02"
definition OP_UNSUBSCRIBE :: u8 where "OP_UNSUBSCRIBE = 0x03"
definition OP_BYE :: u8 where "OP_BYE = 0xFF"

definition COMM_INSECURE :: u8 where "COMM_INSECURE = 0x00"
definition COMM_TLS :: u8 where "COMM_TLS = 0x01"

definition AUTH_LOGIN_PASS :: u8 where "AUTH_LOGIN_PASS = 0x00"
definition AUTH_KEY_AES128_GCM :: u8 where "AUTH_KEY_AES128_GCM = 0x02"
definition AUTH_KEY_AES256_GCM :: u8 where "AUTH_KEY_AES256_GCM = 0x03"

lemmas op_consts =
  OP_NOP_def OP_PUBLISH_def OP_PUBLISH_REPL_def OP_PUBLISH_NO_ACK_def OP_SUBSCRIBE_def
  OP_UNSUBSCRIBE_def OP_BYE_def

lemmas response_consts =
  RESPONSE_OK_def RESPONSE_OK_WAITING_def RESPONSE_NOT_REQUIRED_def RESPONSE_ERR_def
  RESPONSE_ERR_ACCESS_def

lemmas auth_consts =
  AUTH_LOGIN_PASS_def AUTH_KEY_AES128_GCM_def AUTH_KEY_AES256_GCM_def

section \<open>Errors\<close>

datatype ErrorKind = AccessDenied | InvalidData | Io | Eof | Timeout | Internal | TryLater

fun ErrorKind_fmt :: "ErrorKind \<Rightarrow> str" where
  "ErrorKind_fmt AccessDenied = lit ''Access denied''"
| "ErrorKind_fmt InvalidData = lit ''Invalid data''"
| "ErrorKind_fmt Io = lit ''I/O error''"
| "ErrorKind_fmt Eof = lit ''EOF''"
| "ErrorKind_fmt Internal = lit ''Internal error''"
| "ErrorKind_fmt Timeout = lit ''Timeout''"
| "ErrorKind_fmt TryLater = lit ''Will try later''"

record Error =
  err_kind :: ErrorKind
  err_message :: "str option"

type_synonym 'a result = "Error + 'a"

definition Error_access :: "str \<Rightarrow> Error" where
  "Error_access m = \<lparr>err_kind = AccessDenied, err_message = Some m\<rparr>"

definition Error_io :: "str \<Rightarrow> Error" where
  "Error_io m = \<lparr>err_kind = Io, err_message = Some m\<rparr>"

definition Error_eof :: "str \<Rightarrow> Error" where
  "Error_eof m = \<lparr>err_kind = Eof, err_message = Some m\<rparr>"

definition Error_invalid_data :: "str \<Rightarrow> Error" where
  "Error_invalid_data m = \<lparr>err_kind = InvalidData, err_message = Some m\<rparr>"

definition Error_internal :: "str \<Rightarrow> Error" where
  "Error_internal m = \<lparr>err_kind = Internal, err_message = Some m\<rparr>"

definition Error_later :: Error where
  "Error_later = \<lparr>err_kind = TryLater, err_message = None\<rparr>"

definition Error_timeout :: "str \<Rightarrow> Error" where
  "Error_timeout m = \<lparr>err_kind = Timeout, err_message = Some m\<rparr>"

definition Error_fmt :: "Error \<Rightarrow> str" where
  "Error_fmt e =
     (case err_message e of
        Some m \<Rightarrow> ErrorKind_fmt (err_kind e) @ lit '': '' @ m
      | None \<Rightarrow> ErrorKind_fmt (err_kind e))"

text \<open>A \<^verbatim>\<open>std::io::Error\<close> is its kind and its text; the kinds no code distinguishes are one.\<close>

datatype io_error_kind = UnexpectedEof | BrokenPipe | NotFound | OtherIo

record io_error =
  io_kind :: io_error_kind
  io_text :: str

definition Error_from_io :: "io_error \<Rightarrow> Error" where
  "Error_from_io e =
     (if io_kind e = UnexpectedEof \<or> io_kind e = BrokenPipe then Error_eof (io_text e)
      else Error_io (io_text e))"

definition Utf8Error_fmt :: "utf8_error \<Rightarrow> str" where
  "Utf8Error_fmt e =
     (case error_len e of
        Some n \<Rightarrow> lit ''invalid utf-8 sequence of '' @ show_dec n @ lit '' bytes from index '' @
                  show_dec (valid_up_to e)
      | None \<Rightarrow> lit ''incomplete utf-8 byte sequence from index '' @ show_dec (valid_up_to e))"

definition Error_from_utf8 :: "utf8_error \<Rightarrow> Error" where
  "Error_from_utf8 e = Error_invalid_data (Utf8Error_fmt e)"

text \<open>The errors of the TLS, OpenSSL and hexadecimal libraries, given by their texts.\<close>

definition Error_from_tls :: "str \<Rightarrow> Error" where
  [simp]: "Error_from_tls = Error_io"

definition Error_from_openssl :: "str \<Rightarrow> Error" where
  [simp]: "Error_from_openssl = Error_io"

definition Error_from_hex :: "str \<Rightarrow> Error" where
  [simp]: "Error_from_hex = Error_invalid_data"

definition Error_from_elapsed :: Error where
  "Error_from_elapsed = Error_timeout (lit ''deadline has elapsed'')"

definition Error_from_slice :: Error where
  "Error_from_slice = Error_invalid_data (lit ''could not convert slice to array'')"

text \<open>\<^verbatim>\<open>std::str::from_utf8(bs)?\<close> in a function that returns the crate's error.\<close>

definition utf8 :: "bytes \<Rightarrow> str result" where
  "utf8 bs = map_err Error_from_utf8 (from_utf8 bs)"

section \<open>Timeouts and paths\<close>

text \<open>The clock reading \<open>now\<close> is the one \<^verbatim>\<open>op_start.elapsed()\<close> takes.\<close>

definition reduce_timeout :: "duration \<Rightarrow> instant \<Rightarrow> instant \<Rightarrow> duration" where
  "reduce_timeout timeout op_start now =
     (let spent = now - op_start in if spent > timeout then 0 else timeout - spent)"

definition is_unix_socket :: "str \<Rightarrow> bool" where
  "is_unix_socket path \<longleftrightarrow>
     str_ends_with (lit ''.sock'') path \<or> str_ends_with (lit ''.socket'') path"

section \<open>Messages\<close>

record Message =
  msg_priority :: u8
  msg_topic :: str
  msg_data :: bytes

definition Message_data_as_str :: "Message \<Rightarrow> utf8_error + str" where
  "Message_data_as_str m = from_utf8 (msg_data m)"

definition Message_from_buf :: "bytes \<Rightarrow> u8 \<Rightarrow> Message result" where
  "Message_from_buf buf priority =
     res_bind (ok_or (Error_invalid_data (lit ''Invalid msg frame'')) (position (\<lambda>n. n = 0) buf)) (\<lambda>npos.
     let data = drop (npos + 1) buf; buf = take (npos + 1) buf in
     res_bind (utf8 (take (length buf - 1) buf)) (\<lambda>topic.
     Inr \<lparr>msg_priority = priority, msg_topic = topic, msg_data = data\<rparr>))"

section \<open>Lemmas\<close>

lemma err_kind_simps [simp]:
  "err_kind (Error_access m) = AccessDenied"
  "err_kind (Error_io m) = Io"
  "err_kind (Error_eof m) = Eof"
  "err_kind (Error_invalid_data m) = InvalidData"
  "err_kind (Error_internal m) = Internal"
  "err_kind Error_later = TryLater"
  "err_kind (Error_timeout m) = Timeout"
  "err_kind Error_from_elapsed = Timeout"
  "err_kind (Error_from_utf8 u) = InvalidData"
  by (simp_all add: Error_access_def Error_io_def Error_eof_def Error_invalid_data_def
      Error_internal_def Error_later_def Error_timeout_def Error_from_elapsed_def
      Error_from_utf8_def)

lemma utf8_Inr_iff [simp]: "utf8 bs = Inr s \<longleftrightarrow> utf8_valid bs \<and> s = bs"
  by (simp add: utf8_def)

lemma utf8_valid_Inr: "utf8_valid bs \<Longrightarrow> utf8 bs = Inr bs"
  by simp

lemma utf8_Inl_kind: "utf8 bs = Inl e \<Longrightarrow> err_kind e = InvalidData"
  by (cases "from_utf8 bs") (auto simp: utf8_def)

lemma reduce_timeout_spent:
  "op_start \<le> now \<Longrightarrow> now + reduce_timeout timeout op_start now = max now (op_start + timeout)"
  by (simp add: reduce_timeout_def Let_def)

lemma reduce_timeout_le: "reduce_timeout timeout op_start now \<le> timeout"
  by (simp add: reduce_timeout_def Let_def)

lemma Message_from_buf_append:
  assumes "0 \<notin> set topic" and "utf8_valid topic"
  shows "Message_from_buf (topic @ 0 # data) p =
    Inr \<lparr>msg_priority = p, msg_topic = topic, msg_data = data\<rparr>"
proof -
  have "position (\<lambda>n. n = 0) (topic @ 0 # data) = Some (length topic)"
    using assms(1) by (intro position_append) auto
  then show ?thesis using assms(2) by (simp add: Message_from_buf_def Let_def utf8_valid_Inr)
qed

lemma Message_from_buf_Inr_iff:
  "Message_from_buf buf p = Inr m \<longleftrightarrow>
     buf = msg_topic m @ 0 # msg_data m \<and> 0 \<notin> set (msg_topic m) \<and> utf8_valid (msg_topic m) \<and>
     msg_priority m = p"
proof
  assume *: "Message_from_buf buf p = Inr m"
  then obtain n where n: "position (\<lambda>x. x = 0) buf = Some n"
    by (auto simp: Message_from_buf_def res_bind_Inr_iff)
  have l: "n < length buf" by (rule position_SomeD [OF n])
  have z: "0 \<notin> set (take n buf)" using position_SomeD(3) [OF n] by blast
  from * n l have "m = \<lparr>msg_priority = p, msg_topic = take n buf, msg_data = drop (n + 1) buf\<rparr>"
    and "utf8_valid (take n buf)"
    by (auto simp: Message_from_buf_def res_bind_Inr_iff Let_def min_absorb2 Suc_le_eq)
  then show "buf = msg_topic m @ 0 # msg_data m \<and> 0 \<notin> set (msg_topic m) \<and> utf8_valid (msg_topic m) \<and>
     msg_priority m = p"
    using z position_Some_decomp [OF n] by simp
next
  assume "buf = msg_topic m @ 0 # msg_data m \<and> 0 \<notin> set (msg_topic m) \<and> utf8_valid (msg_topic m) \<and>
     msg_priority m = p"
  then show "Message_from_buf buf p = Inr m"
    by (simp add: Message_from_buf_append)
qed

end
