(* ===== verification/Comm.thy ===== *)
theory Comm
  imports Psrt_Lib
begin

text \<open>
  The socket wrapper, \<^verbatim>\<open>src/src/comm.rs\<close>.  A connected stream is what the peer sends (each
  byte with the time it arrives), how and when the peer ends the connection, what has been
  written so far, and the clock.  \<^verbatim>\<open>read_exact\<close> under \<^verbatim>\<open>time::timeout\<close> waits for the bytes
  it asks for and returns at the later of the current time and the arrival of the last of
  them, or fails when the deadline or the end of the connection comes first.  A write
  completes at once unless it is the write call that the environment makes fail.
\<close>

section \<open>Streams\<close>

datatype write_fault = Write_Elapsed | Write_Io io_error

record SStream =
  s_timeout :: duration
  s_now :: instant
  s_in :: "(instant \<times> u8) list"
  s_closing :: "(instant \<times> io_error) option"
  s_out :: bytes
  s_wfault :: "(nat \<times> write_fault) option"

type_synonym 'a stream_io = "(SStream, Error, 'a) io"

text \<open>A new wrapper around a socket with the given traffic.\<close>

definition SStream_new ::
  "(instant \<times> u8) list \<Rightarrow> (instant \<times> io_error) option \<Rightarrow> instant \<Rightarrow> duration \<Rightarrow> SStream" where
  "SStream_new inp closing now timeout =
     \<lparr>s_timeout = timeout, s_now = now, s_in = inp, s_closing = closing, s_out = [],
      s_wfault = None\<rparr>"

fun Error_from_write_fault :: "write_fault \<Rightarrow> Error" where
  "Error_from_write_fault Write_Elapsed = Error_from_elapsed"
| "Error_from_write_fault (Write_Io e) = Error_from_io e"

definition write_with_timeout :: "bytes \<Rightarrow> duration \<Rightarrow> unit stream_io" where
  "write_with_timeout buf timeout s =
     (case s_wfault s of
        Some (0, f) \<Rightarrow> (Inl (Error_from_write_fault f), s)
      | Some (Suc n, f) \<Rightarrow> (Inr (), s\<lparr>s_out := s_out s @ buf, s_wfault := Some (n, f)\<rparr>)
      | None \<Rightarrow> (Inr (), s\<lparr>s_out := s_out s @ buf\<rparr>))"

definition stream_write :: "bytes \<Rightarrow> unit stream_io" where
  "stream_write buf s = write_with_timeout buf (s_timeout s) s"

text \<open>When the first \<open>n\<close> bytes of the input are all there.\<close>

definition arrival :: "nat \<Rightarrow> SStream \<Rightarrow> instant" where
  "arrival n s = fold max (map fst (take n (s_in s))) (s_now s)"

definition read_with_timeout :: "nat \<Rightarrow> duration \<Rightarrow> bytes stream_io" where
  "read_with_timeout n timeout s =
     (let deadline = s_now s + timeout in
      if n \<le> length (s_in s) \<and> arrival n s \<le> deadline then
        (Inr (map snd (take n (s_in s))), s\<lparr>s_now := arrival n s, s_in := drop n (s_in s)\<rparr>)
      else
        (case s_closing s of
           Some (t, e) \<Rightarrow>
             if length (s_in s) < n \<and> max t (arrival n s) \<le> deadline then
               (Inl (Error_from_io e), s\<lparr>s_now := max t (arrival n s), s_in := []\<rparr>)
             else
               (Inl Error_from_elapsed,
                s\<lparr>s_now := deadline, s_in := dropWhile (\<lambda>x. fst x \<le> deadline) (s_in s)\<rparr>)
         | None \<Rightarrow>
             (Inl Error_from_elapsed,
              s\<lparr>s_now := deadline, s_in := dropWhile (\<lambda>x. fst x \<le> deadline) (s_in s)\<rparr>)))"

definition stream_read :: "nat \<Rightarrow> bytes stream_io" where
  "stream_read n s = read_with_timeout n (s_timeout s) s"

definition read_frame_with_timeout :: "nat option \<Rightarrow> duration \<Rightarrow> bytes stream_io" where
  "read_frame_with_timeout max_length timeout =
     io_bind (io_get s_now) (\<lambda>op_start.
     io_bind (read_with_timeout 4 timeout) (\<lambda>len_buf.
     let len = u32_from_le_bytes len_buf in
     if (case max_length of Some max_len \<Rightarrow> unat len > max_len | None \<Rightarrow> False) then
       io_throw (Error_invalid_data (lit ''Frame too long ('' @ show_dec (unat len) @ lit '')''))
     else
       io_bind (io_get s_now) (\<lambda>now.
       read_with_timeout (unat len) (reduce_timeout timeout op_start now))))"

definition read_frame :: "nat option \<Rightarrow> bytes stream_io" where
  "read_frame max_length s = read_frame_with_timeout max_length (s_timeout s) s"

definition get_timeout :: "SStream \<Rightarrow> duration" where
  "get_timeout s = s_timeout s"

section \<open>Lemmas\<close>

text \<open>The bytes still to be read, and that all of them have arrived.\<close>

definition pending :: "SStream \<Rightarrow> bytes" where
  "pending s = map snd (s_in s)"

definition all_arrived :: "SStream \<Rightarrow> bool" where
  "all_arrived s \<longleftrightarrow> (\<forall>x \<in> set (s_in s). fst x \<le> s_now s)"

lemma arrival_ge: "s_now s \<le> arrival n s"
  by (simp add: arrival_def fold_max_ge)

lemma arrival_all_arrived: "all_arrived s \<Longrightarrow> arrival n s = s_now s"
  unfolding arrival_def all_arrived_def
  by (rule fold_max_all_le) (auto dest: in_set_takeD)

subsection \<open>Frames of the state\<close>

lemma write_with_timeout_frame [frame_simps, simp]:
  "s_timeout (snd (write_with_timeout buf t s)) = s_timeout s"
  "s_now (snd (write_with_timeout buf t s)) = s_now s"
  "s_in (snd (write_with_timeout buf t s)) = s_in s"
  "s_closing (snd (write_with_timeout buf t s)) = s_closing s"
  by (simp_all add: write_with_timeout_def split: option.split nat.split)

lemma read_with_timeout_frame [frame_simps, simp]:
  "s_timeout (snd (read_with_timeout n t s)) = s_timeout s"
  "s_closing (snd (read_with_timeout n t s)) = s_closing s"
  "s_out (snd (read_with_timeout n t s)) = s_out s"
  "s_wfault (snd (read_with_timeout n t s)) = s_wfault s"
  by (simp_all add: read_with_timeout_def Let_def split: option.split)

lemma write_ok:
  "s_wfault s = None \<Longrightarrow> write_with_timeout buf t s = (Inr (), s\<lparr>s_out := s_out s @ buf\<rparr>)"
  by (simp add: write_with_timeout_def)

lemma write_now_ok:
  "s_wfault s = None \<Longrightarrow> stream_write buf s = (Inr (), s\<lparr>s_out := s_out s @ buf\<rparr>)"
  by (simp add: stream_write_def write_ok)

subsection \<open>Time\<close>

lemma read_with_timeout_now:
  "s_now s \<le> s_now (snd (read_with_timeout n t s))"
  "s_now (snd (read_with_timeout n t s)) \<le> s_now s + t"
  using arrival_ge [of s n]
  by (auto simp: read_with_timeout_def Let_def le_max_iff_disj split: option.split)

lemma read_length_le:
  "read_with_timeout n t s = (Inr bs, s') \<Longrightarrow>
     length bs = n \<and> pending s = bs @ pending s'"
  by (auto simp: read_with_timeout_def pending_def Let_def simp flip: map_append
      split: if_splits option.splits)

lemma read_with_timeout_arrived:
  assumes "all_arrived s" and "n \<le> length (s_in s)"
  shows "read_with_timeout n t s = (Inr (take n (pending s)), s\<lparr>s_in := drop n (s_in s)\<rparr>)"
  using assms by (simp add: read_with_timeout_def arrival_all_arrived pending_def take_map)

lemma all_arrived_drop: "all_arrived s \<Longrightarrow> all_arrived (s\<lparr>s_in := drop n (s_in s)\<rparr>)"
  by (auto simp: all_arrived_def dest: in_set_dropD)

lemma pending_drop [simp]: "pending (s\<lparr>s_in := drop n (s_in s)\<rparr>) = drop n (pending s)"
  by (simp add: pending_def drop_map)

lemma length_pending [simp]: "length (pending s) = length (s_in s)"
  by (simp add: pending_def)

text \<open>Reading a prefix of what has already arrived.\<close>

lemma read_prefix:
  assumes "all_arrived s" and "pending s = bs @ rest" and "length bs = n"
  shows "read_with_timeout n t s = (Inr bs, s\<lparr>s_in := drop n (s_in s)\<rparr>)"
proof -
  have "length (s_in s) = length (bs @ rest)" using assms(2) length_pending by metis
  then show ?thesis using assms by (simp add: read_with_timeout_arrived)
qed

lemma read_frame_prefix:
  assumes arr: "all_arrived s" and p: "pending s = u32_to_le_bytes len @ buf @ rest"
    and l: "unat len = length buf"
    and m: "case max_length of Some k \<Rightarrow> length buf \<le> k | None \<Rightarrow> True"
  shows "read_frame_with_timeout max_length t s =
    (Inr buf, s\<lparr>s_in := drop (4 + length buf) (s_in s)\<rparr>)"
proof -
  let ?s1 = "s\<lparr>s_in := drop 4 (s_in s)\<rparr>"
  have 1: "read_with_timeout 4 t s = (Inr (u32_to_le_bytes len), ?s1)"
    by (rule read_prefix [OF arr p]) simp
  have arr1: "all_arrived ?s1" by (rule all_arrived_drop [OF arr])
  have p1: "pending ?s1 = buf @ rest" using p by simp
  have 2: "read_with_timeout (length buf) t' ?s1 =
      (Inr buf, s\<lparr>s_in := drop (4 + length buf) (s_in s)\<rparr>)" for t'
    using read_prefix [OF arr1 p1 refl] by (simp add: add.commute)
  show ?thesis
    using m l 1 2
    by (simp add: read_frame_with_timeout_def io_bind_def Let_def not_less split: option.splits)
qed

text \<open>What a successful frame read says about the wire.\<close>

lemma read_frame_Inr:
  assumes "read_frame_with_timeout max_length t s = (Inr buf, s')"
  shows "pending s = u32_to_le_bytes (word_of_nat (length buf)) @ buf @ pending s'"
    and "length buf < 2 ^ 32"
    and "max_length = Some k \<Longrightarrow> length buf \<le> k"
proof -
  from assms obtain lb s1 where 1: "read_with_timeout 4 t s = (Inr lb, s1)"
    and 2: "read_with_timeout (unat (u32_from_le_bytes lb))
              (reduce_timeout t (s_now s) (s_now s1)) s1 = (Inr buf, s')"
    and 3: "\<not> (case max_length of Some max_len \<Rightarrow> unat (u32_from_le_bytes lb) > max_len | None \<Rightarrow> False)"
    by (auto simp: read_frame_with_timeout_def Let_def elim!: io_bind_Inr_cases split: if_splits)
  have lb: "length lb = 4" and p: "pending s = lb @ pending s1"
    using read_length_le [OF 1] by auto
  have buf: "length buf = unat (u32_from_le_bytes lb)" and p': "pending s1 = buf @ pending s'"
    using read_length_le [OF 2] by auto
  have "from_le lb < 2 ^ 32" using from_le_less [of lb] lb by simp
  then have n: "length buf = from_le lb"
    using buf by (simp add: u32_from_le_bytes_def)
  show "length buf < 2 ^ 32" using \<open>from_le lb < 2 ^ 32\<close> n by simp
  have "u32_to_le_bytes (word_of_nat (length buf)) = lb"
    using to_from_le [of lb] \<open>from_le lb < 2 ^ 32\<close> n lb by (simp add: u32_to_le_bytes_def)
  then show "pending s = u32_to_le_bytes (word_of_nat (length buf)) @ buf @ pending s'"
    using p p' by simp
  show "max_length = Some k \<Longrightarrow> length buf \<le> k" using 3 buf by simp
qed

lemma read_frame_now:
  "s_now s \<le> s_now (snd (read_frame_with_timeout m t s))"
  "s_now (snd (read_frame_with_timeout m t s)) \<le> s_now s + t"
proof -
  obtain r1 s1 where 1: "read_with_timeout 4 t s = (r1, s1)" by (cases "read_with_timeout 4 t s")
  have a: "s_now s \<le> s_now s1" "s_now s1 \<le> s_now s + t"
    using read_with_timeout_now [where s = s and n = 4 and t = t] 1 by simp_all
  have b: "s_now s1 \<le> s_now (snd (read_with_timeout n (reduce_timeout t (s_now s) (s_now s1)) s1))"
    "s_now (snd (read_with_timeout n (reduce_timeout t (s_now s) (s_now s1)) s1)) \<le> s_now s + t" for n
    using read_with_timeout_now [where s = s1 and n = n and t = "reduce_timeout t (s_now s) (s_now s1)"]
      reduce_timeout_spent [OF a(1), of t] a(2) by auto
  show "s_now s \<le> s_now (snd (read_frame_with_timeout m t s))"
    "s_now (snd (read_frame_with_timeout m t s)) \<le> s_now s + t"
    using a b order_trans [OF a(1) b(1)] 1
    by (auto simp: read_frame_with_timeout_def io_bind_def Let_def split: sum.splits)
qed

lemma read_frame_frame [frame_simps, simp]:
  "s_timeout (snd (read_frame_with_timeout m t s)) = s_timeout s"
  "s_closing (snd (read_frame_with_timeout m t s)) = s_closing s"
  "s_out (snd (read_frame_with_timeout m t s)) = s_out s"
  "s_wfault (snd (read_frame_with_timeout m t s)) = s_wfault s"
proof -
  have *: "f (snd (read_frame_with_timeout m t s)) = f s"
    if f: "\<And>n t s. f (snd (read_with_timeout n t s)) = f s" for f :: "SStream \<Rightarrow> 'x"
    using f [of 4 t s] f
    by (auto simp: read_frame_with_timeout_def io_bind_def Let_def split: prod.splits sum.splits)
      (metis snd_conv)+
  show "s_timeout (snd (read_frame_with_timeout m t s)) = s_timeout s"
    "s_closing (snd (read_frame_with_timeout m t s)) = s_closing s"
    "s_out (snd (read_frame_with_timeout m t s)) = s_out s"
    "s_wfault (snd (read_frame_with_timeout m t s)) = s_wfault s"
    by (rule *, simp)+
qed

subsection \<open>Reading never adds input\<close>

lemma read_with_timeout_shorter:
  "length (s_in (snd (read_with_timeout n t s))) \<le> length (s_in s)"
  by (auto simp: read_with_timeout_def Let_def length_dropWhile_le split: option.splits)

lemma read_frame_shorter:
  "length (s_in (snd (read_frame_with_timeout m t s))) \<le> length (s_in s)"
proof -
  let ?R = "\<lambda>s s'. length (s_in s') \<le> length (s_in s)"
  have R: "reflp ?R" "transp ?R" by (auto simp: reflp_def transp_def)
  have "io_keeps ?R (read_with_timeout n t)" for n t
    by (simp add: io_keeps_def read_with_timeout_shorter)
  then have "io_keeps ?R (read_frame_with_timeout m t)"
    unfolding read_frame_with_timeout_def Let_def
    by (auto intro!: io_keeps_bind [OF R(2)] io_keeps_pure [OF R(1)])
  then show ?thesis by (rule io_keepsD)
qed

section \<open>Properties\<close>

text \<open>
  C33: a frame read returns a buffer exactly when the wire holds its 32-bit little-endian length
  followed by its bytes, and it consumes no more than that; the buffer is never longer than
  the given limit.
\<close>

theorem read_frame_wire:
  assumes "read_frame_with_timeout max_length t s = (Inr buf, s')"
  shows "pending s = u32_to_le_bytes (word_of_nat (length buf)) @ buf @ pending s' \<and>
    unat (word_of_nat (length buf) :: u32) = length buf \<and>
    (\<forall>k. max_length = Some k \<longrightarrow> length buf \<le> k) \<and> s_out s' = s_out s"
  using read_frame_Inr [OF assms] read_frame_frame(3) [of max_length t s] assms by auto

theorem read_frame_wire_witness:
  "pending (SStream_new [(0, 2), (1, 0), (1, 0), (3, 0), (3, 7), (5, 8), (6, 9)] None 0 10) =
     u32_to_le_bytes (word_of_nat (length [7, 8 :: u8])) @ [7, 8] @ [9]"
proof -
  let ?s = "SStream_new [(0, 2), (1, 0), (1, 0), (3, 0), (3, 7), (5, 8), (6, 9)] None 0 10"
  have "read_frame_with_timeout (Some 2) 10 ?s = (Inr [7, 8], ?s\<lparr>s_now := 5, s_in := [(6, 9)]\<rparr>)"
    by code_simp
  from read_frame_wire [OF this] show ?thesis by (simp add: pending_def)
qed

end
