(* ===== verification/Token.thy ===== *)
theory Token
  imports Psrt_Lib
begin

text \<open>
  Session tokens, \<^verbatim>\<open>src/src/token.rs\<close>: 32 random bytes, printed and parsed as hexadecimal.
  The \<^verbatim>\<open>hex\<close> crate and the random generator are not part of the repository: they are the
  parameters \<open>hex_encode\<close>, \<open>hex_decode\<close> and the outcome of one draw.
\<close>

section \<open>Tokens\<close>

datatype Token = Token (token_bytes: bytes)

definition token_wf :: "Token \<Rightarrow> bool" where
  "token_wf t \<longleftrightarrow> length (token_bytes t) = 32"

definition Token_fmt :: "(bytes \<Rightarrow> str) \<Rightarrow> Token \<Rightarrow> str" where
  "Token_fmt hex_encode t = hex_encode (token_bytes t)"

definition Token_from :: "bytes \<Rightarrow> Token" where
  "Token_from buf = Token buf"

definition Token_as_bytes :: "Token \<Rightarrow> bytes" where
  "Token_as_bytes t = token_bytes t"

text \<open>One draw of \<^verbatim>\<open>rand_bytes\<close> is an OpenSSL error (its text) or the filled buffer.\<close>

definition Token_create :: "str + bytes \<Rightarrow> Token result" where
  "Token_create draw = res_bind (map_err Error_from_openssl draw) (\<lambda>buf. Inr (Token buf))"

text \<open>\<^verbatim>\<open>hex::decode(s)?.as_slice().try_into()?\<close>: the slice must have exactly 32 bytes.\<close>

definition Token_from_str :: "(str \<Rightarrow> str + bytes) \<Rightarrow> str \<Rightarrow> Token result" where
  "Token_from_str hex_decode s =
     res_bind (map_err Error_from_hex (hex_decode s)) (\<lambda>bs.
     if length bs = 32 then Inr (Token bs) else Inl Error_from_slice)"

section \<open>The hexadecimal codec\<close>

text \<open>
  What the program relies on of the \<^verbatim>\<open>hex\<close> crate: decoding inverts encoding, and a decoded
  string has two digits for each byte.
\<close>

locale hex_codec =
  fixes hex_encode :: "bytes \<Rightarrow> str" and hex_decode :: "str \<Rightarrow> str + bytes"
  assumes decode_encode: "hex_decode (hex_encode bs) = Inr bs"
    and decode_length: "hex_decode s = Inr bs \<Longrightarrow> length s = 2 * length bs"
begin

lemma token_roundtrip: "token_wf t \<Longrightarrow> Token_from_str hex_decode (Token_fmt hex_encode t) = Inr t"
  by (cases t) (simp add: Token_from_str_def Token_fmt_def decode_encode token_wf_def)

lemma token_from_str_wf: "Token_from_str hex_decode s = Inr t \<Longrightarrow> token_wf t \<and> length s = 64"
  by (auto simp: Token_from_str_def token_wf_def res_bind_Inr_iff dest!: decode_length
      split: if_splits)

end

text \<open>A hexadecimal codec with lower-case output that accepts both cases, digit by digit.\<close>

definition hex_digit :: "nat \<Rightarrow> u8" where
  "hex_digit n = (if n < 10 then word_of_nat (48 + n) else word_of_nat (87 + n))"

definition hex_val :: "u8 \<Rightarrow> nat option" where
  "hex_val b =
     (let n = unat b in
      if 48 \<le> n \<and> n \<le> 57 then Some (n - 48)
      else if 97 \<le> n \<and> n \<le> 102 then Some (n - 87)
      else if 65 \<le> n \<and> n \<le> 70 then Some (n - 55)
      else None)"

fun lower_hex :: "bytes \<Rightarrow> str" where
  "lower_hex [] = []"
| "lower_hex (b # bs) = hex_digit (unat b div 16) # hex_digit (unat b mod 16) # lower_hex bs"

fun unhex :: "str \<Rightarrow> str + bytes" where
  "unhex [] = Inr []"
| "unhex [c] = Inl (lit ''Odd number of digits'')"
| "unhex (c # d # s) =
     (case (hex_val c, hex_val d) of
        (Some h, Some l) \<Rightarrow> res_bind (unhex s) (\<lambda>bs. Inr (word_of_nat (16 * h + l) # bs))
      | _ \<Rightarrow> Inl (lit ''Invalid character''))"

lemma unat_hex_digit: "n < 16 \<Longrightarrow> unat (hex_digit n) = (if n < 10 then 48 + n else 87 + n)"
  using unat_of_nat [of "48 + n", where ?'a = 8] unat_of_nat [of "87 + n", where ?'a = 8]
  by (simp add: hex_digit_def)

lemma hex_val_digit: "n < 16 \<Longrightarrow> hex_val (hex_digit n) = Some n"
  by (auto simp: hex_val_def unat_hex_digit Let_def)

lemma unhex_lower_hex: "unhex (lower_hex bs) = Inr bs"
proof (induction bs)
  case Nil
  then show ?case by simp
next
  case (Cons b bs)
  have b: "unat b < 256" using unat_bound [of b] by simp
  then have "hex_val (hex_digit (unat b div 16)) = Some (unat b div 16)"
    and "hex_val (hex_digit (unat b mod 16)) = Some (unat b mod 16)"
    by (auto intro!: hex_val_digit)
  moreover have "16 * (unat b div 16) + unat b mod 16 = unat b" by simp
  ultimately show ?case using Cons by (simp add: mult.commute)
qed

lemma unhex_length: "unhex s = Inr bs \<Longrightarrow> length s = 2 * length bs"
  by (induction s arbitrary: bs rule: unhex.induct)
    (auto simp: res_bind_Inr_iff split: option.splits)

interpretation hexi: hex_codec lower_hex unhex
  by unfold_locales (simp_all add: unhex_lower_hex unhex_length)

section \<open>Properties\<close>



end
