(* ===== verification/Acl.thy ===== *)
theory Acl
  imports Psrt_Lib "HOL-Library.List_Lexorder" "HOL-Library.Option_ord"
begin

text \<open>
  Access control, \<^verbatim>\<open>src/src/acl.rs\<close>: path masks with the \<^verbatim>\<open>+\<close> and \<^verbatim>\<open>#\<close> symbols, mask lists,
  the access list of a user and the database of access lists.  The YAML reader is a
  parameter of \<open>Db_reload\<close>; how a deserialised scalar or sequence becomes a mask list is
  modelled.
\<close>

section \<open>Path masks\<close>

datatype PathMask = PathMask (chunks: "str list option")

definition PathMask_new_any :: PathMask where
  "PathMask_new_any = PathMask None"

definition is_str_any :: "str \<Rightarrow> bool" where
  "is_str_any s \<longleftrightarrow> s = lit ''#''"

definition is_str_wildcard :: "str \<Rightarrow> bool" where
  "is_str_wildcard s \<longleftrightarrow> s = lit ''+''"

text \<open>The loop of \<^verbatim>\<open>matches_split\<close>: the chunks of the path against the chunks of the mask.\<close>

fun matches_loop :: "str list \<Rightarrow> str list \<Rightarrow> bool" where
  "matches_loop (i_chunk # path_split) (m_chunk # s_m) =
     (if is_str_any m_chunk then True
      else if \<not> is_str_wildcard m_chunk \<and> i_chunk \<noteq> m_chunk then False
      else matches_loop path_split s_m)"
| "matches_loop (i_chunk # path_split) [] = False"
| "matches_loop [] s_m = (s_m = [])"

definition PathMask_matches_split :: "PathMask \<Rightarrow> str list \<Rightarrow> bool" where
  "PathMask_matches_split m path_split =
     (case chunks m of Some cs \<Rightarrow> matches_loop path_split cs | None \<Rightarrow> True)"

text \<open>\<^verbatim>\<open>FromStr\<close>: the chunks up to and including the first \<^verbatim>\<open>#\<close>.\<close>

fun parse_chunks :: "str list \<Rightarrow> str list" where
  "parse_chunks [] = []"
| "parse_chunks (chunk # cs) =
     (if is_str_any chunk then [lit ''#''] else chunk # parse_chunks cs)"

definition ERR_PATH_MASK_EMPTY :: str where
  "ERR_PATH_MASK_EMPTY = lit ''Empty path mask''"

definition slash :: u8 where
  "slash = of_char CHR ''/''"

definition PathMask_from_str :: "str \<Rightarrow> PathMask result" where
  "PathMask_from_str s =
     (if s = [] then Inl (Error_invalid_data ERR_PATH_MASK_EMPTY)
      else if is_str_any s then Inr PathMask_new_any
      else Inr (PathMask (Some (parse_chunks (split_on slash s)))))"

definition PathMask_fmt :: "PathMask \<Rightarrow> str" where
  "PathMask_fmt m = (case chunks m of Some cs \<Rightarrow> join_with slash cs | None \<Rightarrow> lit ''#'')"

text \<open>The visitor of the deserialiser: a parse error becomes the text of a custom error.\<close>

definition PathMask_visit_str :: "str \<Rightarrow> str + PathMask" where
  "PathMask_visit_str value =
     map_err (\<lambda>e. Error_fmt e @ lit '': '' @ value) (PathMask_from_str value)"

text \<open>
  \<^verbatim>\<open>Ord for PathMask\<close> compares the chunks: \<^verbatim>\<open>None\<close> first, then lexicographically by bytes, and
  \<^verbatim>\<open>PartialOrd\<close> is the same comparison.
\<close>

datatype Ordering = Less | Equal | Greater

definition cmp_of :: "'a::linorder \<Rightarrow> 'a \<Rightarrow> Ordering" where
  "cmp_of a b = (if a < b then Less else if a = b then Equal else Greater)"

definition PathMask_eq :: "PathMask \<Rightarrow> PathMask \<Rightarrow> bool" where
  "PathMask_eq self other \<longleftrightarrow> chunks self = chunks other"

definition PathMask_cmp :: "PathMask \<Rightarrow> PathMask \<Rightarrow> Ordering" where
  "PathMask_cmp self other = cmp_of (chunks self) (chunks other)"

definition PathMask_partial_cmp :: "PathMask \<Rightarrow> PathMask \<Rightarrow> Ordering option" where
  "PathMask_partial_cmp self other = Some (PathMask_cmp self other)"

lemma PathMask_eq_iff: "PathMask_eq a b \<longleftrightarrow> a = b"
  by (auto simp: PathMask_eq_def intro: PathMask.expand)

text \<open>The comparison agrees with equality and makes the masks a linear order.\<close>

instantiation PathMask :: linorder
begin

definition less_eq_PathMask :: "PathMask \<Rightarrow> PathMask \<Rightarrow> bool" where
  "less_eq_PathMask a b \<longleftrightarrow> PathMask_cmp a b \<noteq> Greater"

definition less_PathMask :: "PathMask \<Rightarrow> PathMask \<Rightarrow> bool" where
  "less_PathMask a b \<longleftrightarrow> PathMask_partial_cmp a b = Some Less"

instance
proof
  fix x y z :: PathMask
  have le: "a \<le> b \<longleftrightarrow> chunks a \<le> chunks b" and lt: "a < b \<longleftrightarrow> chunks a < chunks b" for a b :: PathMask
    by (auto simp: less_eq_PathMask_def less_PathMask_def PathMask_partial_cmp_def PathMask_cmp_def cmp_of_def)
  show "x < y \<longleftrightarrow> x \<le> y \<and> \<not> y \<le> x" by (auto simp: le lt)
  show "x \<le> x" by (simp add: le)
  show "x \<le> y \<Longrightarrow> y \<le> z \<Longrightarrow> x \<le> z" by (simp add: le)
  show "x \<le> y \<Longrightarrow> y \<le> x \<Longrightarrow> x = y" by (auto simp: le intro: PathMask.expand)
  show "x \<le> y \<or> y \<le> x" by (auto simp: le)
qed

end

lemma PathMask_cmp_Equal: "PathMask_cmp a b = Equal \<longleftrightarrow> PathMask_eq a b"
  by (auto simp: PathMask_cmp_def cmp_of_def PathMask_eq_def)

section \<open>Mask lists\<close>

record PathMaskList =
  path_masks :: "PathMask set"

definition PathMaskList_new :: "PathMask set \<Rightarrow> PathMaskList" where
  "PathMaskList_new masks = \<lparr>path_masks = masks\<rparr>"

definition PathMaskList_matches_split :: "PathMaskList \<Rightarrow> str list \<Rightarrow> bool" where
  "PathMaskList_matches_split l path_split \<longleftrightarrow>
     (\<exists>path_mask \<in> path_masks l. PathMask_matches_split path_mask path_split)"

definition PathMaskList_matches :: "PathMaskList \<Rightarrow> str \<Rightarrow> bool" where
  "PathMaskList_matches l path = PathMaskList_matches_split l (split_on slash path)"

definition PathMaskList_is_empty :: "PathMaskList \<Rightarrow> bool" where
  "PathMaskList_is_empty l \<longleftrightarrow> path_masks l = {}"

text \<open>\<^verbatim>\<open>from_str_list\<close> and \<^verbatim>\<open>from_string_vec\<close> run the same loop on slices of \<^verbatim>\<open>&str\<close> and \<^verbatim>\<open>String\<close>.\<close>

fun insert_masks :: "PathMask set \<Rightarrow> str list \<Rightarrow> PathMask set result" where
  "insert_masks masks [] = Inr masks"
| "insert_masks masks (s # ss) =
     res_bind (PathMask_from_str s) (\<lambda>m. insert_masks (insert m masks) ss)"

definition PathMaskList_from_str_list :: "str list \<Rightarrow> PathMaskList result" where
  "PathMaskList_from_str_list s_masks =
     res_bind (insert_masks {} s_masks) (\<lambda>masks. Inr \<lparr>path_masks = masks\<rparr>)"

definition PathMaskList_from_string_vec :: "str list \<Rightarrow> PathMaskList result" where
  "PathMaskList_from_string_vec s_masks =
     res_bind (insert_masks {} s_masks) (\<lambda>masks. Inr \<lparr>path_masks = masks\<rparr>)"

text \<open>Serialised as the sequence of the printed masks, in the order \<open>iter\<close> in which the set is walked.\<close>

definition PathMaskList_serialize :: "(PathMask set \<Rightarrow> PathMask list) \<Rightarrow> PathMaskList \<Rightarrow> str list" where
  "PathMaskList_serialize iter l = map PathMask_fmt (iter (path_masks l))"

datatype PathMaskListYaml = One PathMask | Many "PathMask set"

fun PathMaskList_deserialize :: "PathMaskListYaml \<Rightarrow> PathMaskList" where
  "PathMaskList_deserialize (One msk) = PathMaskList_new {msk}"
| "PathMaskList_deserialize (Many masks) = PathMaskList_new masks"

section \<open>Access lists\<close>

record Acl =
  acl_admin :: bool
  acl_replicator :: bool
  acl_read :: "PathMaskList option"
  acl_write :: "PathMaskList option"

definition Acl_new_full :: Acl where
  "Acl_new_full =
     \<lparr>acl_admin = True, acl_replicator = True,
      acl_read = Some (PathMaskList_new {PathMask_new_any}),
      acl_write = Some (PathMaskList_new {PathMask_new_any})\<rparr>"

definition allow_read :: "Acl \<Rightarrow> str \<Rightarrow> bool" where
  "allow_read acl topic =
     (case acl_read acl of Some v \<Rightarrow> PathMaskList_matches v topic | None \<Rightarrow> False)"

definition allow_write :: "Acl \<Rightarrow> str \<Rightarrow> bool" where
  "allow_write acl topic =
     (case acl_write acl of Some v \<Rightarrow> PathMaskList_matches v topic | None \<Rightarrow> False)"

definition is_replicator :: "Acl \<Rightarrow> bool" where
  "is_replicator acl = acl_replicator acl"

definition is_admin :: "Acl \<Rightarrow> bool" where
  "is_admin acl = acl_admin acl"

section \<open>The database of access lists\<close>

record Db =
  db_acls :: "str \<rightharpoonup> Acl"
  db_path :: str

definition Db_default :: Db where
  "Db_default = \<lparr>db_acls = Map.empty, db_path = []\<rparr>"

definition Db_get_acl :: "Db \<Rightarrow> str \<Rightarrow> Acl option" where
  "Db_get_acl db user = db_acls db user"

definition Db_has_acl :: "Db \<Rightarrow> str \<Rightarrow> bool" where
  "Db_has_acl db user \<longleftrightarrow> db_acls db user \<noteq> None"

definition Db_set_path :: "Db \<Rightarrow> str \<Rightarrow> Db" where
  "Db_set_path db path = db\<lparr>db_path := path\<rparr>"

definition Db_insert :: "str \<times> Acl \<Rightarrow> Db \<Rightarrow> Db" where
  "Db_insert e db = db\<lparr>db_acls := (db_acls db)(fst e \<mapsto> snd e)\<rparr>"

text \<open>
  The file system and the YAML deserialiser are parameters: \<open>read_to_string path\<close> is what
  reading the file gives, \<open>from_yaml\<close> the entries of the map in the file.
\<close>

definition Db_reload ::
  "(str \<Rightarrow> io_error + str) \<Rightarrow> (str \<Rightarrow> Error + (str \<times> Acl) list) \<Rightarrow> (Db, Error, unit) io" where
  "Db_reload read_to_string from_yaml =
     io_bind (io_get db_path) (\<lambda>path.
     io_bind (io_lift (map_err Error_from_io (read_to_string path))) (\<lambda>data.
     io_bind (io_lift (from_yaml data)) (\<lambda>acls.
     io_bind (io_modify (\<lambda>db. db\<lparr>db_acls := Map.empty\<rparr>)) (\<lambda>_.
     io_modify (fold Db_insert acls)))))"

section \<open>Lemmas\<close>

lemma slash_ascii [simp]: "slash < 0x80" "slash \<noteq> 0" "slash \<noteq> 35" "slash \<noteq> 43"
  by (simp_all add: slash_def)

lemma lit_hash: "lit ''#'' = [35]" "lit ''+'' = [43]"
  by (simp_all add: lit_def)

lemma is_str_simps:
  "is_str_any s \<longleftrightarrow> s = [35]" "is_str_wildcard s \<longleftrightarrow> s = [43]"
  by (simp_all add: is_str_any_def is_str_wildcard_def lit_hash)

subsection \<open>What a mask matches\<close>

text \<open>
  The declarative meaning of a mask: chunk by chunk up to the first \<^verbatim>\<open>#\<close>, which stands for one
  or more remaining chunks; without \<^verbatim>\<open>#\<close> the lengths agree.
\<close>

definition chunk_admits :: "str \<Rightarrow> str \<Rightarrow> bool" where
  "chunk_admits m i \<longleftrightarrow> is_str_wildcard m \<or> i = m"

definition mask_spec :: "str list \<Rightarrow> str list \<Rightarrow> bool" where
  "mask_spec ms ps \<longleftrightarrow>
     (let pre = takeWhile (\<lambda>m. \<not> is_str_any m) ms in
      (if pre = ms then length ps = length ms else length pre < length ps) \<and>
      list_all2 chunk_admits pre (take (length pre) ps))"

lemma matches_loop_spec: "matches_loop ps ms \<longleftrightarrow> mask_spec ms ps"
proof (induction ps ms rule: matches_loop.induct)
  case (1 i ps m ms)
  then show ?case by (auto simp: mask_spec_def Let_def chunk_admits_def)
next
  case (2 i ps)
  then show ?case by (simp add: mask_spec_def)
next
  case (3 ms)
  then show ?case by (cases ms) (auto simp: mask_spec_def Let_def)
qed

lemma parse_chunks_Nil_iff [simp]: "parse_chunks cs = [] \<longleftrightarrow> cs = []"
  by (cases cs) auto

lemma parse_chunks_idem: "parse_chunks (parse_chunks cs) = parse_chunks cs"
  by (induction cs) (auto simp: is_str_simps lit_hash)

lemma parse_chunks_matches: "matches_loop ps (parse_chunks ms) \<longleftrightarrow> matches_loop ps ms"
  by (induction ps ms rule: matches_loop.induct) (auto simp: is_str_simps lit_hash)

lemma set_parse_chunks: "c \<in> set (parse_chunks cs) \<Longrightarrow> c \<in> set cs"
  by (induction cs) (auto simp: is_str_simps lit_hash split: if_splits)

lemma any_matches_nonempty: "ps \<noteq> [] \<Longrightarrow> matches_loop ps [lit ''#'']"
  by (cases ps) (auto simp: is_str_simps lit_hash)

text \<open>
  Masks and topic patterns: when a mask admits the text of a pattern that has no \<^verbatim>\<open>#\<close>, it
  admits every topic the pattern stands for.
\<close>

lemma mask_admits_pattern:
  assumes "matches_loop pat msk" and "matches_loop topic pat"
    and "\<And>c. c \<in> set pat \<Longrightarrow> \<not> is_str_any c"
  shows "matches_loop topic msk"
  using assms
proof (induction pat msk arbitrary: topic rule: matches_loop.induct)
  case (1 p pat m msk)
  have p: "\<not> is_str_any p" using "1.prems"(3) by simp
  with "1.prems"(2) obtain t ts where t: "topic = t # ts" and pt: "is_str_wildcard p \<or> t = p"
    and rest: "matches_loop ts pat"
    by (cases topic) (auto split: if_splits)
  show ?case
  proof (cases "is_str_any m")
    case True
    then show ?thesis using t by simp
  next
    case False
    with "1.prems"(1) have m: "is_str_wildcard m \<or> p = m" and tail: "matches_loop pat msk"
      by (auto split: if_splits)
    have "matches_loop ts msk"
      using "1.IH" False m tail rest "1.prems"(3) by auto
    moreover have "is_str_wildcard m \<or> t = m" using m pt by (auto simp: is_str_simps)
    ultimately show ?thesis using t False by auto
  qed
next
  case (2 p pat)
  then show ?case by simp
next
  case (3 msk)
  then show ?case by (cases topic) auto
qed

subsection \<open>Parsing and printing\<close>

lemma PathMask_from_str_Inr:
  "PathMask_from_str s = Inr m \<longleftrightarrow>
     s \<noteq> [] \<and> m = (if is_str_any s then PathMask None
                  else PathMask (Some (parse_chunks (split_on slash s))))"
  by (auto simp: PathMask_from_str_def PathMask_new_any_def)

lemma split_join_parse:
  "split_on slash (join_with slash (parse_chunks (split_on slash s))) =
     parse_chunks (split_on slash s)"
proof (rule split_on_join)
  show "parse_chunks (split_on slash s) \<noteq> []" by simp
  fix xs assume "xs \<in> set (parse_chunks (split_on slash s))"
  then show "slash \<notin> set xs" using split_on_elem_no_sep set_parse_chunks by metis
qed

lemma join_parse_Nil:
  "join_with slash (parse_chunks (split_on slash s)) = [] \<Longrightarrow> s = []"
proof -
  assume "join_with slash (parse_chunks (split_on slash s)) = []"
  with split_join_parse [of s] have e: "parse_chunks (split_on slash s) = [[]]" by simp
  then obtain c cs where c: "split_on slash s = c # cs" by (cases "split_on slash s") auto
  with e have "split_on slash s = [[]]"
    by (auto simp: is_str_simps lit_hash split: if_splits)
  then show "s = []" using join_split_on [of slash s] by simp
qed

lemma PathMask_reparse:
  assumes "PathMask_from_str s = Inr m"
  obtains m' where "PathMask_from_str (PathMask_fmt m) = Inr m'"
    and "\<And>ps. ps \<noteq> [] \<Longrightarrow> PathMask_matches_split m' ps = PathMask_matches_split m ps"
proof (cases "is_str_any s")
  case True
  then have "m = PathMask None" using assms by (simp add: PathMask_from_str_Inr)
  then show thesis
    by (intro that [of m]) (simp_all add: PathMask_from_str_Inr PathMask_fmt_def is_str_simps lit_hash)
next
  case False
  let ?cs = "parse_chunks (split_on slash s)"
  have m: "m = PathMask (Some ?cs)" and s: "s \<noteq> []"
    using assms False by (auto simp: PathMask_from_str_Inr)
  have f: "PathMask_fmt m = join_with slash ?cs" using m by (simp add: PathMask_fmt_def)
  have ne: "PathMask_fmt m \<noteq> []" using join_parse_Nil [of s] s f by auto
  show thesis
  proof (cases "is_str_any (PathMask_fmt m)")
    case True
    have "?cs = [lit ''#'']"
      using split_join_parse [of s] True f by (simp add: is_str_simps lit_hash)
    then have "PathMask_matches_split (PathMask None) ps = PathMask_matches_split m ps"
      if "ps \<noteq> []" for ps
      using any_matches_nonempty [OF that] m by (simp add: PathMask_matches_split_def)
    with True ne show thesis
      by (intro that [of "PathMask None"]) (simp_all add: PathMask_from_str_Inr)
  next
    case False
    have "split_on slash (PathMask_fmt m) = ?cs" using f split_join_parse by simp
    then have "PathMask_from_str (PathMask_fmt m) = Inr m"
      using False ne by (simp add: PathMask_from_str_Inr parse_chunks_idem) (rule m)
    then show thesis by (intro that) simp_all
  qed
qed

subsection \<open>Reloading\<close>

lemma Db_insert_simps [simp]:
  "db_acls (Db_insert e db) = (db_acls db)(fst e \<mapsto> snd e)"
  "db_path (Db_insert e db) = db_path db"
  by (simp_all add: Db_insert_def)

lemma fold_Db_insert:
  "db_acls (fold Db_insert acls db) = db_acls db ++ map_of (rev acls)"
proof (induction acls arbitrary: db)
  case (Cons a acls)
  have "db_acls (fold Db_insert (a # acls) db) = (db_acls db)(fst a \<mapsto> snd a) ++ map_of (rev acls)"
    by (simp only: fold_Cons o_apply Cons Db_insert_simps)
  also have "\<dots> = db_acls db ++ map_of (rev (a # acls))"
    by (cases a) (auto simp: map_add_def fun_eq_iff split: option.splits)
  finally show ?case .
qed simp

lemma fold_Db_insert_path: "db_path (fold Db_insert acls db) = db_path db"
  by (induction acls arbitrary: db) simp_all

subsection \<open>Reloading\<close>

text \<open>
  Reloading replaces the whole table by the entries of the file (the last one for a name wins);
  when the file cannot be read or parsed, the table in force stays.
\<close>

lemma Db_reload_result:
  "Db_reload read_to_string from_yaml db =
     (case read_to_string (db_path db) of
        Inl e \<Rightarrow> (Inl (Error_from_io e), db)
      | Inr data \<Rightarrow>
          (case from_yaml data of
             Inl e \<Rightarrow> (Inl e, db)
           | Inr acls \<Rightarrow> (Inr (), db\<lparr>db_acls := map_of (rev acls)\<rparr>)))"
proof -
  have "fold Db_insert acls (db\<lparr>db_acls := Map.empty\<rparr>) = db\<lparr>db_acls := map_of (rev acls)\<rparr>" for acls
    by (rule Db.equality) (simp_all add: fold_Db_insert fold_Db_insert_path)
  then show ?thesis
    by (simp add: Db_reload_def io_bind_def split: sum.split)
qed

section \<open>Properties\<close>

text \<open>
  C31: the loop of \<^verbatim>\<open>PathMask::matches_split\<close> decides the declarative meaning of the mask that
  was parsed: chunk by chunk with \<^verbatim>\<open>+\<close> for any one chunk, up to the first \<^verbatim>\<open>#\<close>, which stands for
  one or more remaining chunks; a mask without \<^verbatim>\<open>#\<close> has as many chunks as the topic.
\<close>

theorem PathMask_matches_declarative:
  assumes "PathMask_from_str s = Inr m"
  shows "PathMask_matches_split m (split_on slash topic) \<longleftrightarrow>
    mask_spec (split_on slash s) (split_on slash topic)"
proof (cases "is_str_any s")
  case True
  then have s: "split_on slash s = [[35]]" by (simp add: is_str_simps split_on_no_sep)
  have "mask_spec [[35]] (split_on slash topic)"
    using any_matches_nonempty [of "split_on slash topic"] by (simp add: matches_loop_spec lit_hash)
  then show ?thesis
    using True s assms by (simp add: PathMask_from_str_Inr PathMask_matches_split_def)
next
  case False
  then show ?thesis
    using assms
    by (simp add: PathMask_from_str_Inr PathMask_matches_split_def parse_chunks_matches
        flip: matches_loop_spec)
qed

theorem PathMask_matches_declarative_witness:
  "PathMask_matches_split (PathMask (Some [lit ''a'', lit ''+'', lit ''#'']))
     (split_on slash (lit ''a/b/c/d'')) \<longleftrightarrow>
   mask_spec (split_on slash (lit ''a/+/#'')) (split_on slash (lit ''a/b/c/d''))"
  by (rule PathMask_matches_declarative) code_simp

lemma insert_masks_Inr:
  "insert_masks M ss = Inr M' \<longleftrightarrow>
     (\<forall>s \<in> set ss. \<exists>m. PathMask_from_str s = Inr m) \<and> M' = M \<union> {m. \<exists>s \<in> set ss. PathMask_from_str s = Inr m}"
proof (induction ss arbitrary: M)
  case (Cons s ss)
  show ?case by (cases "PathMask_from_str s") (auto simp: Cons.IH)
qed auto

text \<open>
  C32: what the \<^verbatim>\<open>Serialize\<close> of a list of parsed masks writes, with the \<^verbatim>\<open>Display\<close> of each mask and in
  whatever order the set is walked, is parsed again, to a list that matches the same topics.
\<close>

theorem PathMaskList_print_parse:
  assumes "PathMaskList_from_string_vec ss = Inr l" and "set (iter (path_masks l)) = path_masks l"
  shows "\<exists>l'. PathMaskList_from_string_vec (PathMaskList_serialize iter l) = Inr l' \<and>
    (\<forall>topic. PathMaskList_matches l' topic = PathMaskList_matches l topic)"
proof -
  let ?again = "\<lambda>m m'. PathMask_from_str (PathMask_fmt m) = Inr m'"
  have again: "\<exists>m'. ?again m m' \<and> (\<forall>topic. PathMask_matches_split m' (split_on slash topic) = PathMask_matches_split m (split_on slash topic))"
    if "m \<in> path_masks l" for m
  proof -
    from that obtain s where "PathMask_from_str s = Inr m"
      using assms(1) by (auto simp: PathMaskList_from_string_vec_def res_bind_Inr_iff insert_masks_Inr)
    then show ?thesis by (rule PathMask_reparse) auto
  qed
  let ?l' = "\<lparr>path_masks = {m'. \<exists>m \<in> path_masks l. ?again m m'}\<rparr>"
  have "insert_masks {} (PathMaskList_serialize iter l) = Inr (path_masks ?l')"
    using again assms(2) unfolding insert_masks_Inr PathMaskList_serialize_def by fastforce
  then have "PathMaskList_from_string_vec (PathMaskList_serialize iter l) = Inr ?l'"
    by (simp add: PathMaskList_from_string_vec_def)
  moreover have "PathMaskList_matches ?l' topic = PathMaskList_matches l topic" for topic
    using again by (fastforce simp: PathMaskList_matches_def PathMaskList_matches_split_def)
  ultimately show ?thesis by blast
qed

theorem PathMaskList_print_parse_witness:
  "\<exists>l'. PathMaskList_from_string_vec (PathMaskList_serialize (\<lambda>_. [PathMask (Some [lit ''#''])]) \<lparr>path_masks = {PathMask (Some [lit ''#''])}\<rparr>) =
       Inr l' \<and>
     (\<forall>topic. PathMaskList_matches l' topic = PathMaskList_matches \<lparr>path_masks = {PathMask (Some [lit ''#''])}\<rparr> topic)"
proof (rule PathMaskList_print_parse)
  have "PathMask_from_str (lit ''#/x'') = Inr (PathMask (Some [lit ''#'']))" by code_simp
  then show "PathMaskList_from_string_vec [lit ''#/x''] = Inr \<lparr>path_masks = {PathMask (Some [lit ''#''])}\<rparr>"
    by (simp add: PathMaskList_from_string_vec_def)
qed simp

end
