(* ===== verification/Keys.thy ===== *)
theory Keys
  imports Token Acl
begin

text \<open>
  UDP encryption keys, \<^verbatim>\<open>src/src/keys.rs\<close>: the key database and the authenticated
  decryption of a packet's block.  OpenSSL's \<^verbatim>\<open>symm::decrypt_aead\<close>, the YAML reader, the file
  system and the \<^verbatim>\<open>hex\<close> crate are parameters.  A Rust panic is an outcome of its own.
\<close>

section \<open>Encryption types\<close>

datatype EncryptionType = No | Aes128Gcm | Aes256Gcm

definition EncryptionType_from_byte :: "u8 \<Rightarrow> EncryptionType result" where
  "EncryptionType_from_byte b =
     (if b = AUTH_LOGIN_PASS then Inr No
      else if b = AUTH_KEY_AES128_GCM then Inr Aes128Gcm
      else if b = AUTH_KEY_AES256_GCM then Inr Aes256Gcm
      else Inl (Error_invalid_data (lit ''unsupported encryption type'')))"

definition need_decrypt :: "EncryptionType \<Rightarrow> bool" where
  "need_decrypt tp \<longleftrightarrow> tp \<noteq> No"

section \<open>Decryption\<close>

datatype cipher = aes_128_gcm | aes_256_gcm

text \<open>Arguments of \<^verbatim>\<open>symm::decrypt_aead\<close>: cipher, key, IV, additional data, data, tag.\<close>

type_synonym aead = "cipher \<Rightarrow> bytes \<Rightarrow> bytes \<Rightarrow> bytes \<Rightarrow> bytes \<Rightarrow> bytes \<Rightarrow> str + bytes"

definition decrypt :: "aead \<Rightarrow> cipher \<Rightarrow> bytes \<Rightarrow> bytes \<Rightarrow> bytes \<Rightarrow> bytes result outcome" where
  "decrypt decrypt_aead c key iv data =
     (if length data < 16 then Panics (lit ''range end index out of range for slice'')
      else
        let digest_pos = length data - 16 in
        Returns (map_err Error_from_openssl
          (decrypt_aead c key iv [] (take digest_pos data) (drop digest_pos data))))"

section \<open>The database\<close>

record Key =
  cipher_aes_128 :: bytes
  cipher_aes_256 :: bytes

record Keys =
  key_file :: "str option"
  key_map :: "(str \<rightharpoonup> Key) option"

definition Keys_default :: Keys where
  "Keys_default = \<lparr>key_file = None, key_map = None\<rparr>"

definition set_key_file :: "str \<Rightarrow> Keys \<Rightarrow> Keys" where
  "set_key_file path k = k\<lparr>key_file := Some path\<rparr>"

definition load_key ::
  "(str \<Rightarrow> str + bytes) \<Rightarrow> Db \<Rightarrow> (str \<rightharpoonup> Key) \<Rightarrow> str \<times> str \<Rightarrow> (str \<rightharpoonup> Key)" where
  "load_key hex_decode acl_db m e =
     (case Token_from_str hex_decode (snd e) of
        Inr token \<Rightarrow>
          if Db_has_acl acl_db (fst e) then
            m(fst e \<mapsto> \<lparr>cipher_aes_128 = take 16 (Token_as_bytes token),
                        cipher_aes_256 = Token_as_bytes token\<rparr>)
          else m
      | Inl _ \<Rightarrow> m)"

definition Keys_reload ::
  "(str \<Rightarrow> io_error + str) \<Rightarrow> (str \<Rightarrow> Error + (str \<times> str) list) \<Rightarrow> (str \<Rightarrow> str + bytes) \<Rightarrow> Db \<Rightarrow>
     (Keys, Error, unit) io" where
  "Keys_reload read_to_string from_yaml hex_decode acl_db =
     io_bind (io_get key_file) (\<lambda>file.
     case file of
       Some path \<Rightarrow>
         io_bind (io_lift (map_err Error_from_io (read_to_string path))) (\<lambda>data.
         io_bind (io_lift (from_yaml data)) (\<lambda>keys.
         io_modify (\<lambda>k. k\<lparr>key_map := Some (foldl (load_key hex_decode acl_db) Map.empty keys)\<rparr>)))
     | None \<Rightarrow> io_return ())"

definition auth_and_decr ::
  "aead \<Rightarrow> Keys \<Rightarrow> bytes \<Rightarrow> str \<Rightarrow> EncryptionType \<Rightarrow> bytes result outcome" where
  "auth_and_decr decrypt_aead ks block key_id tp =
     (case Option.bind (key_map ks) (\<lambda>m. m key_id) of
        Some key \<Rightarrow>
          if length block < 29 then
            Returns (Inl (Error_invalid_data (lit ''Invalid encrypted data'')))
          else
            (case tp of
               Aes128Gcm \<Rightarrow> decrypt decrypt_aead aes_128_gcm (cipher_aes_128 key) (take 12 block) (drop 12 block)
             | Aes256Gcm \<Rightarrow> decrypt decrypt_aead aes_256_gcm (cipher_aes_256 key) (take 12 block) (drop 12 block)
             | No \<Rightarrow> Panics (lit ''Attempt to decrypt unencrypted''))
      | None \<Rightarrow> Returns (Inl (Error_access (lit ''no such key id: '' @ key_id))))"

section \<open>Authenticated encryption\<close>

text \<open>Arguments of \<^verbatim>\<open>symm::encrypt_aead\<close>: cipher, key, IV, additional data, data; the encrypted data and the tag.\<close>

type_synonym seal = "cipher \<Rightarrow> bytes \<Rightarrow> bytes \<Rightarrow> bytes \<Rightarrow> bytes \<Rightarrow> str + bytes \<times> bytes"

text \<open>
  What the program relies on of OpenSSL: opening inverts sealing under the same key, nonce and
  additional data; the encrypted data is as long as the data, the tag has the 16 bytes of the
  buffer it is written to.
\<close>

locale aead_scheme =
  fixes seal :: seal and unseal :: aead
  assumes unseal_seal: "seal c key iv aad d = Inr (enc, tag) \<Longrightarrow> unseal c key iv aad enc tag = Inr d"
    and seal_length: "seal c key iv aad d = Inr (enc, tag) \<Longrightarrow> length enc = length d \<and> length tag = 16"
begin

lemma auth_and_decr_sealed:
  assumes "Option.bind (key_map ks) (\<lambda>m. m key_id) = Some key" and "length nonce = 12" and "d \<noteq> []"
    and "seal aes_256_gcm (cipher_aes_256 key) nonce [] d = Inr (enc, tag)"
  shows "auth_and_decr unseal ks (nonce @ enc @ tag) key_id Aes256Gcm = Returns (Inr d)"
proof -
  have l: "length enc = length d" "length tag = 16" using seal_length [OF assms(4)] by simp_all
  have "0 < length d" using assms(3) by simp
  then show ?thesis
    using assms(1,2) l unseal_seal [OF assms(4)] by (simp add: auth_and_decr_def decrypt_def Let_def)
qed

end

text \<open>A scheme with a checksum for a tag, to evaluate with.\<close>

definition checksum :: "bytes \<Rightarrow> bytes \<Rightarrow> bytes \<Rightarrow> bytes" where
  "checksum key iv d = replicate 16 (sum_list key + sum_list iv + sum_list d)"

definition sum_seal :: seal where
  "sum_seal c key iv aad d = Inr (d, checksum key iv d)"

definition sum_unseal :: aead where
  "sum_unseal c key iv aad d tag =
     (if tag = checksum key iv d then Inr d else Inl (lit ''tag mismatch''))"

interpretation aei: aead_scheme sum_seal sum_unseal
  by unfold_locales (auto simp: sum_seal_def sum_unseal_def checksum_def)

section \<open>Lemmas\<close>

lemma auth_and_decr_no_panic: "need_decrypt tp \<Longrightarrow> \<exists>r. auth_and_decr dec ks block key_id tp = Returns r"
  by (cases tp) (auto simp: auth_and_decr_def need_decrypt_def decrypt_def Let_def split: option.splits)

lemma EncryptionType_from_byte_cases:
  assumes "EncryptionType_from_byte b = Inr tp"
  shows "need_decrypt tp \<longleftrightarrow> b = AUTH_KEY_AES128_GCM \<or> b = AUTH_KEY_AES256_GCM"
  using assms
  by (auto simp: EncryptionType_from_byte_def need_decrypt_def auth_consts split: if_splits)

lemma decrypt_returns:
  assumes "16 \<le> length data"
  shows "decrypt d c key iv data =
    Returns (map_err Error_from_openssl
      (d c key iv [] (take (length data - 16) data) (drop (length data - 16) data)))"
  using assms by (simp add: decrypt_def Let_def)

text \<open>The keys of a loaded database: one for each entry with a valid token and an access list.\<close>

lemma load_key_wf:
  assumes "\<And>l k. m l = Some k \<Longrightarrow>
      Db_has_acl acl_db l \<and> length (cipher_aes_256 k) = 32 \<and>
      cipher_aes_128 k = take 16 (cipher_aes_256 k)"
    and "load_key hex_decode acl_db m e l = Some k"
  shows "Db_has_acl acl_db l \<and> length (cipher_aes_256 k) = 32 \<and>
    cipher_aes_128 k = take 16 (cipher_aes_256 k)"
  using assms
  by (auto simp: load_key_def Token_from_str_def Token_as_bytes_def res_bind_Inr_iff
      split: sum.splits if_splits)

lemma load_keys_wf:
  assumes "\<And>l k. m l = Some k \<Longrightarrow>
      Db_has_acl acl_db l \<and> length (cipher_aes_256 k) = 32 \<and>
      cipher_aes_128 k = take 16 (cipher_aes_256 k)"
    and "foldl (load_key hex_decode acl_db) m es l = Some k"
  shows "Db_has_acl acl_db l \<and> length (cipher_aes_256 k) = 32 \<and>
    cipher_aes_128 k = take 16 (cipher_aes_256 k)"
  using assms
proof (induction es arbitrary: m)
  case Nil
  then show ?case by simp
next
  case (Cons e es)
  show ?case
  proof (rule Cons.IH [of "load_key hex_decode acl_db m e"])
    fix l k assume "load_key hex_decode acl_db m e l = Some k"
    with Cons.prems(1) show "Db_has_acl acl_db l \<and> length (cipher_aes_256 k) = 32 \<and>
      cipher_aes_128 k = take 16 (cipher_aes_256 k)"
      by (rule load_key_wf)
  next
    show "foldl (load_key hex_decode acl_db) (load_key hex_decode acl_db m e) es l = Some k"
      using Cons.prems(2) by simp
  qed
qed

section \<open>Properties\<close>

text \<open>
  After a successful reload from a key file, every key belongs to a name that has an access
  list, its 256-bit key is the whole 32-byte token of the file and its 128-bit key the first
  16 bytes of it; a file that cannot be read or parsed leaves the keys in force.
\<close>

lemma Keys_reload_keys:
  assumes "key_file ks = Some path"
    and "Keys_reload read_to_string from_yaml hex_decode acl_db ks = (r, ks')"
  shows "(case r of
      Inl _ \<Rightarrow> ks' = ks
    | Inr _ \<Rightarrow> \<exists>m. key_map ks' = Some m \<and>
        (\<forall>l k. m l = Some k \<longrightarrow> Db_has_acl acl_db l \<and> length (cipher_aes_256 k) = 32 \<and>
           cipher_aes_128 k = take 16 (cipher_aes_256 k)))"
  using assms load_keys_wf [where m = Map.empty and hex_decode = hex_decode and acl_db = acl_db]
  by (auto simp: Keys_reload_def io_bind_def split: sum.splits)

text \<open>
  C35: for a block of an encrypted packet (an encryption type other than none) \<^verbatim>\<open>auth_and_decr\<close>
  never panics: an unknown key name is an access error, a block too short for the 12-byte
  nonce, one byte of data and the 16-byte tag is invalid data, and otherwise the nonce, the
  data and the tag are cut at 12 bytes from the start and 16 bytes from the end and opened with
  the key of the requested size.
\<close>

theorem auth_and_decr_cuts:
  assumes "need_decrypt tp"
  shows "auth_and_decr dec ks block key_id tp =
    Returns (case Option.bind (key_map ks) (\<lambda>m. m key_id) of
        None \<Rightarrow> Inl (Error_access (lit ''no such key id: '' @ key_id))
      | Some key \<Rightarrow>
          if length block < 12 + 1 + 16 then Inl (Error_invalid_data (lit ''Invalid encrypted data''))
          else map_err Error_from_openssl
            ((if tp = Aes128Gcm then dec aes_128_gcm (cipher_aes_128 key)
              else dec aes_256_gcm (cipher_aes_256 key))
             (take 12 block) [] (take (length block - 28) (drop 12 block)) (drop (length block - 16) block)))"
  using assms
  by (cases tp) (auto simp: auth_and_decr_def need_decrypt_def decrypt_returns split: option.splits)

theorem auth_and_decr_cuts_witness:
  "auth_and_decr (\<lambda>_ _ iv _ d tag. Inr (iv @ d @ tag))
     \<lparr>key_file = None, key_map = Some [[] \<mapsto> \<lparr>cipher_aes_128 = [], cipher_aes_256 = []\<rparr>]\<rparr>
     (replicate 12 1 @ [2] @ replicate 16 3) [] Aes256Gcm = Returns (Inr (replicate 12 1 @ [2] @ replicate 16 3))"
  by (subst auth_and_decr_cuts) (simp_all add: need_decrypt_def)

end
