(* ===== verification/Rust_Time.thy ===== *)
theory Rust_Time
  imports Prelude
begin

text \<open>
  \<^verbatim>\<open>Duration::from_secs_f64\<close> of Rust's standard library, which turns the timeouts of the configuration
  files and of the command line into durations.  An \<^verbatim>\<open>f64\<close> is its bit pattern.
\<close>

unbundle bit_operations_syntax

section \<open>The conversion\<close>

text \<open>The unbiased exponent and the mantissa with its implicit bit.\<close>

definition f64_exp :: "u64 \<Rightarrow> int" where
  "f64_exp b = int (unat (drop_bit 52 b AND 0x7FF)) - 1023"

definition f64_mant :: "u64 \<Rightarrow> nat" where
  "f64_mant b = unat (b AND 0xFFFFFFFFFFFFF) + 2 ^ 52"

definition f64_nan :: "u64 \<Rightarrow> bool" where
  "f64_nan b \<longleftrightarrow> drop_bit 52 b AND 0x7FF = 0x7FF \<and> b AND 0xFFFFFFFFFFFFF \<noteq> 0"

definition f64_negative :: "u64 \<Rightarrow> bool" where
  "f64_negative b \<longleftrightarrow> bit b 63 \<and> b AND 0x7FFFFFFFFFFFFFFF \<noteq> 0 \<and> \<not> f64_nan b"

text \<open>\<open>n / 2 ^ k\<close> to the nearest integer, ties to the even one.\<close>

definition round_half_even :: "nat \<Rightarrow> nat \<Rightarrow> nat" where
  "round_half_even n k =
     (let q = n div 2 ^ k; r = n mod 2 ^ k in
      if 2 ^ k < 2 * r \<or> (2 ^ k = 2 * r \<and> odd q) then q + 1 else q)"

text \<open>
  Less than \<open>2 ^ -31\<close> seconds is nothing; from \<open>2 ^ 52\<close> seconds on there is no fraction; \<open>2 ^ 64\<close>
  seconds and more, infinity and everything that is not a number do not fit.
\<close>

definition from_secs_f64 :: "u64 \<Rightarrow> duration outcome" where
  "from_secs_f64 b =
     (let e = f64_exp b; m = f64_mant b in
      if f64_negative b then Panics (lit ''cannot convert float seconds to Duration: value is negative'')
      else if e < -31 then Returns 0
      else if e < 52 then Returns (round_half_even (m * 1000000000) (nat (52 - e)))
      else if e < 64 then Returns (m * 2 ^ nat (e - 52) * 1000000000)
      else Panics (lit ''cannot convert float seconds to Duration: value is either too big or NaN''))"

section \<open>Lemmas\<close>

text \<open>The result is within half a nanosecond of the exact number.\<close>

lemma round_half_even_nearest:
  "2 * (round_half_even n k * 2 ^ k) \<le> 2 * n + 2 ^ k" "2 * n \<le> 2 * (round_half_even n k * 2 ^ k) + 2 ^ k"
proof -
  define p a r where "p = (2 ^ k :: nat)" and "a = n div 2 ^ k * 2 ^ k" and "r = n mod 2 ^ k"
  have n: "n = a + r" unfolding a_def r_def by (rule div_mult_mod_eq [symmetric])
  have r: "r < p" unfolding p_def r_def by simp
  have q: "(round_half_even n k * 2 ^ k = a + p \<and> p \<le> 2 * r) \<or> (round_half_even n k * 2 ^ k = a \<and> 2 * r \<le> p)"
    by (auto simp: round_half_even_def p_def a_def r_def Let_def algebra_simps)
  show "2 * (round_half_even n k * 2 ^ k) \<le> 2 * n + 2 ^ k" "2 * n \<le> 2 * (round_half_even n k * 2 ^ k) + 2 ^ k"
    using q r unfolding n p_def [symmetric] by auto
qed

text \<open>A number below \<open>2 ^ -31\<close> would be rounded to zero anyway.\<close>

lemma f64_mant_bounds: "2 ^ 52 \<le> f64_mant b" "f64_mant b < 2 ^ 53"
proof -
  have "b AND 0xFFFFFFFFFFFFF = take_bit 52 b"
    by (simp add: take_bit_eq_mask mask_eq_decr_exp)
  then have "unat (b AND 0xFFFFFFFFFFFFF) = take_bit 52 (unat b)" by (simp add: unsigned_take_bit_eq)
  then have "unat (b AND 0xFFFFFFFFFFFFF) < 2 ^ 52" by (metis take_bit_nat_less_exp)
  then show "2 ^ 52 \<le> f64_mant b" "f64_mant b < 2 ^ 53" by (simp_all add: f64_mant_def)
qed

lemma tiny_rounds_to_zero:
  assumes "84 \<le> k"
  shows "round_half_even (f64_mant b * 1000000000) k = 0"
proof -
  have "2 * (f64_mant b * 1000000000) < 2 * (2 ^ 53 * 1000000000)" using f64_mant_bounds(2) [of b] by simp
  also have "\<dots> < (2 ^ 84 :: nat)" by simp
  also have "\<dots> \<le> 2 ^ k" using assms by (rule power_increasing) simp
  finally show ?thesis by (simp add: round_half_even_def Let_def)
qed

lemma from_secs_f64_nearest:
  assumes "from_secs_f64 b = Returns d" and "f64_exp b < 52"
  defines "k \<equiv> nat (52 - f64_exp b)"
  shows "2 * (d * 2 ^ k) \<le> 2 * (f64_mant b * 1000000000) + 2 ^ k \<and>
    2 * (f64_mant b * 1000000000) \<le> 2 * (d * 2 ^ k) + 2 ^ k"
proof -
  have "d = round_half_even (f64_mant b * 1000000000) k"
    using assms(1,2) tiny_rounds_to_zero [of k b]
    by (auto simp: from_secs_f64_def k_def Let_def split: if_splits)
  then show ?thesis using round_half_even_nearest [of "f64_mant b * 1000000000" k] by simp
qed

text \<open>Whole seconds are exact.\<close>

lemma from_secs_f64_five: "from_secs_f64 0x4014000000000000 = Returns 5000000000"
proof -
  have "f64_exp 0x4014000000000000 = 2" "f64_mant 0x4014000000000000 = 5629499534213120"
    "\<not> f64_negative 0x4014000000000000"
    by (simp_all add: f64_exp_def f64_mant_def f64_negative_def drop_bit_eq_div)
  then show ?thesis by (simp add: from_secs_f64_def round_half_even_def Let_def)
qed

end
