(* ===== verification/Client.thy ===== *)
theory Client
  imports Comm Keys Rust_Time
begin

text \<open>
  The client, \<^verbatim>\<open>src/src/client.rs\<close>: the configuration, the commands and their bytes, connecting
  (the greeting, the login, the data stream), and the two tasks that run on the streams of a
  connected client.  The network, the TLS library and the command queue are parameters.
\<close>

section \<open>Commands\<close>

datatype ControlCommand =
    Nop
  | Subscribe str
  | SubscribeBulk "str list"
  | Unsubscribe str
  | UnsubscribeBulk "str list"
  | Publish u8 str bytes
  | PublishRepl u8 str bytes u64
  | Bye

text \<open>The length of a bulk frame, a wrapping 32-bit sum.\<close>

definition bulk_len :: "str list \<Rightarrow> u32" where
  "bulk_len topics = foldl (\<lambda>len t. len + (word_of_nat (length t) + 1)) 0 topics"

definition bulk_body :: "str list \<Rightarrow> bytes" where
  "bulk_body topics = concat (map (\<lambda>t. t @ [0]) topics)"

fun as_bytes :: "ControlCommand \<Rightarrow> bytes" where
  "as_bytes Nop = [OP_NOP]"
| "as_bytes (Subscribe topic) = OP_SUBSCRIBE # u32_to_le_bytes (word_of_nat (length topic)) @ topic"
| "as_bytes (SubscribeBulk topics) = OP_SUBSCRIBE # u32_to_le_bytes (bulk_len topics) @ bulk_body topics"
| "as_bytes (Unsubscribe topic) = OP_UNSUBSCRIBE # u32_to_le_bytes (word_of_nat (length topic)) @ topic"
| "as_bytes (UnsubscribeBulk topics) = OP_UNSUBSCRIBE # u32_to_le_bytes (bulk_len topics) @ bulk_body topics"
| "as_bytes (Publish priority topic message) =
     OP_PUBLISH # priority #
     u32_to_le_bytes (word_of_nat (length topic) + 1 + word_of_nat (length message)) @ topic @ [0]"
| "as_bytes (PublishRepl priority topic message timestamp) =
     OP_PUBLISH_REPL # u32_to_le_bytes (word_of_nat (length topic)) @ topic"
| "as_bytes Bye = [OP_BYE]"

text \<open>A command in the queue, with the number of the channel that waits for its result, if any.\<close>

record Command =
  control_command :: ControlCommand
  response_channel :: "nat option"

section \<open>Configuration\<close>

definition ERR_COMMUNCATION_LOST :: str where
  "ERR_COMMUNCATION_LOST = lit ''Communication lost''"

definition secs :: "nat \<Rightarrow> duration" where
  "secs n = n * 1000000000"

definition millis :: "nat \<Rightarrow> duration" where
  "millis n = n * 1000000"

definition DEFAULT_TIMEOUT :: duration where
  "DEFAULT_TIMEOUT = secs 5"

definition DEFAULT_QUEUE_SIZE :: nat where
  "DEFAULT_QUEUE_SIZE = 8192"

definition get_default_timeout :: duration where
  "get_default_timeout = DEFAULT_TIMEOUT"

definition get_default_queue_size :: nat where
  "get_default_queue_size = DEFAULT_QUEUE_SIZE"

record Config =
  cf_path :: str
  cf_user :: str
  cf_password :: str
  cf_timeout :: duration
  cf_socket_wait_timeout :: duration
  cf_queue_size :: nat
  cf_tls :: bool
  cf_tls_ca :: "str option"
  cf_need_data_stream :: bool

definition Config_new :: "str \<Rightarrow> Config" where
  "Config_new path =
     \<lparr>cf_path = path, cf_user = [], cf_password = [], cf_timeout = get_default_timeout,
      cf_socket_wait_timeout = get_default_timeout, cf_queue_size = get_default_queue_size,
      cf_tls = False, cf_tls_ca = None, cf_need_data_stream = True\<rparr>"

text \<open>
  The configuration in a file: the fields the reader found, with timeouts as the bit patterns of their
  \<^verbatim>\<open>f64\<close>.  The defaults are those of the \<^verbatim>\<open>serde\<close> attributes; the data stream is off by default here.
\<close>

record ConfigYaml =
  cy_path :: str
  cy_user :: "str option"
  cy_password :: "str option"
  cy_timeout :: "u64 option"
  cy_socket_wait_timeout :: "u64 option"
  cy_queue_size :: "nat option"
  cy_tls :: "bool option"
  cy_tls_ca :: "str option"
  cy_need_data_stream :: "bool option"

definition de_float_as_duration :: "u64 \<Rightarrow> duration outcome" where
  "de_float_as_duration f = from_secs_f64 f"

definition or_default :: "'a \<Rightarrow> 'a option \<Rightarrow> 'a" where
  "or_default d v = (case v of Some x \<Rightarrow> x | None \<Rightarrow> d)"

definition Config_deserialize :: "ConfigYaml \<Rightarrow> Config outcome" where
  "Config_deserialize y =
     (let duration_of = (\<lambda>v. case v of Some f \<Rightarrow> de_float_as_duration f | None \<Rightarrow> Returns get_default_timeout) in
      out_bind (duration_of (cy_timeout y)) (\<lambda>timeout.
      out_bind (duration_of (cy_socket_wait_timeout y)) (\<lambda>socket_wait_timeout.
      Returns \<lparr>cf_path = cy_path y, cf_user = or_default [] (cy_user y), cf_password = or_default [] (cy_password y),
        cf_timeout = timeout, cf_socket_wait_timeout = socket_wait_timeout,
        cf_queue_size = or_default get_default_queue_size (cy_queue_size y), cf_tls = or_default False (cy_tls y),
        cf_tls_ca = cy_tls_ca y, cf_need_data_stream = or_default False (cy_need_data_stream y)\<rparr>)))"

definition set_auth :: "str \<Rightarrow> str \<Rightarrow> Config \<Rightarrow> Config" where
  "set_auth user password c = c\<lparr>cf_user := user, cf_password := password\<rparr>"

definition disable_data_stream :: "Config \<Rightarrow> Config" where
  "disable_data_stream c = c\<lparr>cf_need_data_stream := False\<rparr>"

definition set_timeout :: "duration \<Rightarrow> Config \<Rightarrow> Config" where
  "set_timeout timeout c = c\<lparr>cf_timeout := timeout\<rparr>"

definition set_socket_wait_timeout :: "duration \<Rightarrow> Config \<Rightarrow> Config" where
  "set_socket_wait_timeout timeout c = c\<lparr>cf_socket_wait_timeout := timeout\<rparr>"

definition set_queue_size :: "nat \<Rightarrow> Config \<Rightarrow> Config" where
  "set_queue_size n c = c\<lparr>cf_queue_size := n\<rparr>"

definition set_tls :: "bool \<Rightarrow> Config \<Rightarrow> Config" where
  "set_tls tls c = c\<lparr>cf_tls := tls\<rparr>"

definition set_tls_ca :: "str option \<Rightarrow> Config \<Rightarrow> Config" where
  "set_tls_ca ca c = c\<lparr>cf_tls_ca := ca\<rparr>"

definition update_tls_ca :: "str \<Rightarrow> Config \<Rightarrow> Config" where
  "update_tls_ca ca c = c\<lparr>cf_tls_ca := Some ca\<rparr>"

definition update_path :: "str \<Rightarrow> Config \<Rightarrow> Config" where
  "update_path path c = c\<lparr>cf_path := path\<rparr>"

section \<open>Connecting\<close>

text \<open>
  The network as the client sees it: whether a socket path exists at a time; the outcome of the
  \<open>n\<close>-th connection attempt started at a time, with the time it completes (the stream's clock);
  whether setting the socket option succeeds; parsing a root certificate; building a connector;
  and the TLS handshake for a domain.
\<close>

record Net =
  net_exists :: "str \<Rightarrow> instant \<Rightarrow> bool"
  net_connect :: "nat \<Rightarrow> str \<Rightarrow> instant \<Rightarrow> instant \<times> (io_error + SStream)"
  net_nodelay :: "nat \<Rightarrow> io_error + unit"
  net_from_pem :: "str \<Rightarrow> str + unit"
  net_build :: "str + unit"
  net_tls :: "nat \<Rightarrow> str \<Rightarrow> SStream \<Rightarrow> str + SStream"

text \<open>\<^verbatim>\<open>time::timeout(t, connect(path)).await??\<close>\<close>

definition dial :: "Net \<Rightarrow> nat \<Rightarrow> str \<Rightarrow> duration \<Rightarrow> instant \<Rightarrow> SStream result" where
  "dial net n path t now =
     (case net_connect net n path now of
        (at, r) \<Rightarrow>
          if at > now + t then Inl Error_from_elapsed
          else map_err Error_from_io (map_sum id (\<lambda>s. s\<lparr>s_now := max now at\<rparr>) r))"

text \<open>
  Waiting for the socket file, in steps of 100 ms, as long as \<open>socket_wait_timeout\<close> is not over;
  the result is the time at which the file was seen.
\<close>

definition sleep_step :: duration where
  "sleep_step = millis 100"

function wait_socket :: "(instant \<Rightarrow> bool) \<Rightarrow> instant \<Rightarrow> duration \<Rightarrow> instant \<Rightarrow> instant result" where
  "wait_socket exists_at op_start limit now =
     (if exists_at now then Inr now
      else if now + sleep_step - op_start > limit then Inl (Error_io (lit ''UNIX socket not found''))
      else wait_socket exists_at op_start limit (now + sleep_step))"
  by pat_completeness auto
termination
  by (relation "measure (\<lambda>(_, op_start, limit, now). op_start + limit + sleep_step - now)")
    (auto simp: sleep_step_def millis_def)

declare wait_socket.simps [simp del]

text \<open>\<^verbatim>\<open>path.rsplitn(2, ':').last()\<close>: what is before the last colon, or everything.\<close>

definition path_domain :: "str \<Rightarrow> str" where
  "path_domain path =
     (let colon = of_char CHR '':'' in
      if colon \<in> set path then rev (tl (dropWhile (\<lambda>c. c \<noteq> colon) (rev path))) else path)"

text \<open>
  Opening the control stream (\<open>n = 0\<close>) or the data stream (\<open>n = 1\<close>): connect, send the greeting with
  the communication mode, switch to TLS where required.
\<close>

definition remaining_at :: "duration \<Rightarrow> instant \<Rightarrow> SStream \<Rightarrow> duration" where
  "remaining_at timeout op_start s = reduce_timeout timeout op_start (s_now s)"

definition open_stream ::
  "Net \<Rightarrow> Config \<Rightarrow> nat \<Rightarrow> bytes \<Rightarrow> duration \<Rightarrow> instant \<Rightarrow> instant \<Rightarrow> SStream result" where
  "open_stream net cfg n header connect_timeout op_start now =
     (let timeout = cf_timeout cfg;
          is_unix = is_unix_socket (cf_path cfg);
          greet = (\<lambda>mode s. case write_with_timeout (header @ [mode]) (remaining_at timeout op_start s) s of
                     (Inl e, _) \<Rightarrow> Inl e | (Inr _, s') \<Rightarrow> Inr s');
          wrap = (\<lambda>s. s\<lparr>s_timeout := timeout\<rparr>)
      in res_bind (dial net n (cf_path cfg) connect_timeout now) (\<lambda>s.
         if is_unix then res_bind (greet COMM_INSECURE s) (\<lambda>s. Inr (wrap s))
         else
           res_bind (map_err Error_from_io (net_nodelay net n)) (\<lambda>_.
           if cf_tls cfg then
             res_bind (greet COMM_TLS s) (\<lambda>s.
             res_bind (map_err Error_from_tls (net_build net)) (\<lambda>_.
             res_bind (map_err Error_from_tls (net_tls net n (path_domain (cf_path cfg)) s)) (\<lambda>s. Inr (wrap s))))
           else res_bind (greet COMM_INSECURE s) (\<lambda>s. Inr (wrap s)))))"

text \<open>The reply of the server to a greeting: the header and the protocol version.\<close>

definition read_in :: "nat \<Rightarrow> duration \<Rightarrow> instant \<Rightarrow> bytes stream_io" where
  "read_in n timeout op_start s = read_with_timeout n (remaining_at timeout op_start s) s"

definition write_in :: "bytes \<Rightarrow> duration \<Rightarrow> instant \<Rightarrow> unit stream_io" where
  "write_in buf timeout op_start s = write_with_timeout buf (remaining_at timeout op_start s) s"

definition check_reply :: "bytes \<Rightarrow> str \<Rightarrow> duration \<Rightarrow> instant \<Rightarrow> unit stream_io" where
  "check_reply header invalid timeout op_start =
     io_bind (read_in 2 timeout op_start) (\<lambda>buf.
     if buf \<noteq> header then io_throw (Error_invalid_data invalid)
     else
       io_bind (read_in 2 timeout op_start) (\<lambda>buf.
       if u16_from_le_bytes buf \<noteq> PROTOCOL_VERSION then
         io_throw (Error_invalid_data (lit ''Protocol version unsupported''))
       else io_return ()))"

definition auth_frame :: "str \<Rightarrow> str \<Rightarrow> bytes" where
  "auth_frame user password =
     u32_to_le_bytes (word_of_nat (length user) + word_of_nat (length password) + 1) @ user @ [0] @ password"

text \<open>The login on the control stream gives the token; any failure to read it is a failed login.\<close>

definition control_login :: "Config \<Rightarrow> instant \<Rightarrow> bytes stream_io" where
  "control_login cfg op_start =
     io_bind (check_reply CONTROL_HEADER (lit ''Invalid control header'') (cf_timeout cfg) op_start) (\<lambda>_.
     io_bind (write_in (auth_frame (cf_user cfg) (cf_password cfg)) (cf_timeout cfg) op_start) (\<lambda>_ s.
     case read_in 32 (cf_timeout cfg) op_start s of
       (Inl _, s') \<Rightarrow> (Inl (Error_access (lit ''Login failed'')), s')
     | (Inr token, s') \<Rightarrow> (Inr token, s')))"

definition timeout_secs :: "duration \<Rightarrow> nat" where
  "timeout_secs timeout = min 255 (timeout div 1000000000)"

definition data_login :: "Config \<Rightarrow> bytes \<Rightarrow> instant \<Rightarrow> unit stream_io" where
  "data_login cfg token op_start =
     (let timeout = cf_timeout cfg in
      io_bind (check_reply DATA_HEADER (lit ''Invalid data header'') timeout op_start) (\<lambda>_.
      io_bind (write_in token timeout op_start) (\<lambda>_.
      io_bind (write_in [word_of_nat (timeout_secs timeout)] timeout op_start) (\<lambda>_.
      io_bind (read_in 1 timeout op_start) (\<lambda>response.
      if hd response \<noteq> RESPONSE_OK then io_throw (Error_access (lit ''Data stream authentication failed''))
      else io_return ())))))"

text \<open>
  A connected client: the streams its tasks own, the receiving side of the data channel until it is
  taken (with the messages waiting in it), the beacon interval and whether it is connected.
\<close>

record Client =
  cn_control :: SStream
  cn_data :: "SStream option"
  cn_data_channel :: "Message list option"
  cn_token :: bytes
  cn_beacon_interval :: duration
  cn_connected :: bool
  cn_timeout :: duration
  cn_tasks_running :: bool

definition run_io :: "'a stream_io \<Rightarrow> SStream \<Rightarrow> Error + 'a \<times> SStream" where
  "run_io f s = (case f s of (Inl e, _) \<Rightarrow> Inl e | (Inr x, s') \<Rightarrow> Inr (x, s'))"

definition Client_connect :: "Net \<Rightarrow> Config \<Rightarrow> instant \<Rightarrow> Client result" where
  "Client_connect net cfg now =
     res_bind (case (cf_tls cfg, cf_tls_ca cfg) of
         (True, Some ca) \<Rightarrow> map_err Error_from_tls (net_from_pem net ca)
       | _ \<Rightarrow> Inr ()) (\<lambda>_.
     res_bind (if is_unix_socket (cf_path cfg)
       then wait_socket (net_exists net (cf_path cfg)) now (cf_socket_wait_timeout cfg) now else Inr now) (\<lambda>op_start.
     res_bind (open_stream net cfg 0 CONTROL_HEADER (cf_timeout cfg) op_start op_start) (\<lambda>s.
     res_bind (run_io (control_login cfg op_start) s) (\<lambda>(token, control).
     let beacon_interval = millis (timeout_secs (cf_timeout cfg) * 1000 div 2);
         client = (\<lambda>data now. \<lparr>cn_control = control\<lparr>s_now := now\<rparr>, cn_data = data,
           cn_data_channel = map_option (\<lambda>_. []) data, cn_token = token,
           cn_beacon_interval = beacon_interval, cn_connected = True, cn_timeout = cf_timeout cfg,
           cn_tasks_running = True\<rparr>)
     in if cf_need_data_stream cfg then
          res_bind (open_stream net cfg 1 DATA_HEADER (remaining_at (cf_timeout cfg) op_start control) op_start
            (s_now control)) (\<lambda>s.
          res_bind (run_io (data_login cfg token op_start) s) (\<lambda>(_, data).
          Inr (client (Some data) (s_now data))))
        else Inr (client None (s_now control))))))"

section \<open>The control task\<close>

text \<open>The stream, the start of the last operation and the results sent to the waiting callers.\<close>

record control_task =
  ct_stream :: SStream
  ct_op_start :: instant
  ct_responses :: "(nat \<times> unit result) list"

type_synonym 'a task_io = "(control_task, Error, 'a) io"

definition ct_io :: "'a stream_io \<Rightarrow> 'a task_io" where
  "ct_io f ct = (case f (ct_stream ct) of (r, s) \<Rightarrow> (r, ct\<lparr>ct_stream := s\<rparr>))"

definition ct_read :: "nat \<Rightarrow> duration \<Rightarrow> bytes task_io" where
  "ct_read n timeout ct = ct_io (read_in n timeout (ct_op_start ct)) ct"

definition ct_write :: "bytes \<Rightarrow> duration \<Rightarrow> unit task_io" where
  "ct_write buf timeout ct = ct_io (write_in buf timeout (ct_op_start ct)) ct"

definition respond :: "nat option \<Rightarrow> unit result \<Rightarrow> unit task_io" where
  "respond ch r ct =
     (Inr (), case ch of Some n \<Rightarrow> ct\<lparr>ct_responses := ct_responses ct @ [(n, r)]\<rparr> | None \<Rightarrow> ct)"

text \<open>\<^verbatim>\<open>handle_err!\<close>: a denied operation is reported to the caller, any other code also ends the task.\<close>

definition handle_err :: "nat option \<Rightarrow> u8 \<Rightarrow> unit task_io" where
  "handle_err ch code =
     (let err = (if code = RESPONSE_ERR_ACCESS then Error_access (lit ''Operation access denied'')
                 else Error_io (lit ''Server response error '' @ show_hex (unat code)))
      in io_bind (respond ch (Inl err)) (\<lambda>_.
         if err_kind err = Io then io_throw err else io_return ()))"

definition process_reply :: "duration \<Rightarrow> nat option \<Rightarrow> unit task_io" where
  "process_reply timeout ch =
     io_bind (ct_read 1 timeout) (\<lambda>response_buf.
     let code = hd response_buf in
     if code = RESPONSE_OK then respond ch (Inr ()) else handle_err ch code)"

definition repl_message :: "u8 \<Rightarrow> u64 \<Rightarrow> bytes \<Rightarrow> bytes" where
  "repl_message priority timestamp message =
     priority # u64_to_le_bytes timestamp @ u32_to_le_bytes (word_of_nat (length message))"

text \<open>One command, received at a time; a beacon is skipped when the last operation is recent.\<close>

definition control_command_step ::
  "duration \<Rightarrow> duration \<Rightarrow> instant \<times> Command \<Rightarrow> unit task_io" where
  "control_command_step beacon_interval timeout received =
     (case received of (at, cmd) \<Rightarrow>
      io_bind (io_modify (\<lambda>ct. ct\<lparr>ct_stream := (ct_stream ct)\<lparr>s_now := max at (s_now (ct_stream ct))\<rparr>\<rparr>)) (\<lambda>_ ct.
      if control_command cmd = Nop \<and> s_now (ct_stream ct) - ct_op_start ct < beacon_interval then (Inr (), ct)
      else
        io_bind (io_modify (\<lambda>ct. ct\<lparr>ct_op_start := s_now (ct_stream ct)\<rparr>)) (\<lambda>_.
        io_bind (ct_io (stream_write (as_bytes (control_command cmd)))) (\<lambda>_.
        case control_command cmd of
          Publish _ _ message \<Rightarrow>
            io_bind (ct_write message timeout) (\<lambda>_. process_reply timeout (response_channel cmd))
        | PublishRepl priority topic message timestamp \<Rightarrow>
            io_bind (ct_read 1 timeout) (\<lambda>response_buf.
            let code = hd response_buf in
            if code = RESPONSE_OK_WAITING then
              io_bind (ct_write (repl_message priority timestamp message) timeout) (\<lambda>_.
              io_bind (ct_write message timeout) (\<lambda>_.
              process_reply timeout (response_channel cmd)))
            else if code = RESPONSE_NOT_REQUIRED then respond (response_channel cmd) (Inr ())
            else handle_err (response_channel cmd) code)
        | _ \<Rightarrow> process_reply timeout (response_channel cmd))) ct))"

fun run_control_stream :: "duration \<Rightarrow> duration \<Rightarrow> (instant \<times> Command) list \<Rightarrow> unit task_io" where
  "run_control_stream beacon_interval timeout [] = io_return ()"
| "run_control_stream beacon_interval timeout (c # cs) =
     io_bind (control_command_step beacon_interval timeout c) (\<lambda>_.
     run_control_stream beacon_interval timeout cs)"

section \<open>The data task\<close>

text \<open>The stream, the messages passed on, whether the receiving side is still open, and the commands sent.\<close>

record data_reader =
  dr_stream :: SStream
  dr_messages :: "Message list"
  dr_open :: bool
  dr_commands :: "ControlCommand list"

type_synonym 'a reader_io = "(data_reader, Error, 'a) io"

definition dr_io :: "'a stream_io \<Rightarrow> 'a reader_io" where
  "dr_io f dr = (case f (dr_stream dr) of (r, s) \<Rightarrow> (r, dr\<lparr>dr_stream := s\<rparr>))"

definition dr_frame :: "duration \<Rightarrow> instant \<Rightarrow> bytes stream_io" where
  "dr_frame timeout op_start s = read_frame_with_timeout None (remaining_at timeout op_start s) s"

definition deliver :: "Message \<Rightarrow> unit reader_io" where
  "deliver m dr =
     (if dr_open dr then (Inr (), dr\<lparr>dr_messages := dr_messages dr @ [m]\<rparr>)
      else (Inl (Error_internal ERR_COMMUNCATION_LOST), dr))"

definition data_read_step :: "unit reader_io" where
  "data_read_step =
     io_bind (io_get (\<lambda>dr. get_timeout (dr_stream dr))) (\<lambda>timeout.
     io_bind (io_get (\<lambda>dr. s_now (dr_stream dr))) (\<lambda>op_start.
     io_bind (dr_io (stream_read 1)) (\<lambda>buf.
     if hd buf = OP_NOP then io_return ()
     else if hd buf = RESPONSE_OK then
       io_bind (dr_io (read_in 1 timeout op_start)) (\<lambda>prio.
       io_bind (dr_io (dr_frame timeout op_start)) (\<lambda>frame.
       case Message_from_buf frame (hd prio) of
         Inr v \<Rightarrow> deliver v
       | Inl _ \<Rightarrow> io_return ()))
     else
       io_bind (io_modify (\<lambda>dr. dr\<lparr>dr_commands := dr_commands dr @ [Bye]\<rparr>)) (\<lambda>_.
       io_throw (Error_invalid_data (lit ''Invalid frame from the data channel''))))))"

subsection \<open>Every round consumes input\<close>

lemma stream_read_shrinks:
  "stream_read 1 s = (Inr buf, s') \<Longrightarrow> length (s_in s) = Suc (length (s_in s'))"
  using read_length_le [of 1 "s_timeout s" s buf s'] length_pending [of s] length_pending [of s']
  by (auto simp: stream_read_def)

definition reader_shrinks :: "data_reader \<Rightarrow> data_reader \<Rightarrow> bool" where
  "reader_shrinks dr dr' \<longleftrightarrow> length (s_in (dr_stream dr')) \<le> length (s_in (dr_stream dr))"

lemma reader_shrinks_order: "reflp reader_shrinks" "transp reader_shrinks"
  by (auto simp: reader_shrinks_def reflp_def transp_def)

lemma reader_shrinks_pieces:
  "io_keeps reader_shrinks (dr_io (read_in n t i))" "io_keeps reader_shrinks (dr_io (dr_frame t i))"
  "io_keeps reader_shrinks (deliver m)"
  "io_keeps reader_shrinks (io_modify (\<lambda>dr. dr\<lparr>dr_commands := f dr\<rparr>))"
  using read_with_timeout_shorter read_frame_shorter
  by (auto simp: io_keeps_def reader_shrinks_def dr_io_def read_in_def dr_frame_def deliver_def split: prod.splits)
    (metis snd_conv)+

lemma data_read_step_consumes:
  assumes "data_read_step dr = (Inr u, dr')"
  shows "length (s_in (dr_stream dr')) < length (s_in (dr_stream dr))"
proof -
  let ?rest = "\<lambda>buf. if hd buf = OP_NOP then io_return ()
     else if hd buf = RESPONSE_OK then
       io_bind (dr_io (read_in 1 (get_timeout (dr_stream dr)) (s_now (dr_stream dr)))) (\<lambda>prio.
       io_bind (dr_io (dr_frame (get_timeout (dr_stream dr)) (s_now (dr_stream dr)))) (\<lambda>frame.
       case Message_from_buf frame (hd prio) of Inr v \<Rightarrow> deliver v | Inl _ \<Rightarrow> io_return ()))
     else
       io_bind (io_modify (\<lambda>dr. dr\<lparr>dr_commands := dr_commands dr @ [Bye]\<rparr>)) (\<lambda>_.
       io_throw (Error_invalid_data (lit ''Invalid frame from the data channel'')))"
  have keep: "io_keeps reader_shrinks (?rest buf)" for buf
    by (auto intro!: io_keeps_bind [OF reader_shrinks_order(2)] io_keeps_pure [OF reader_shrinks_order(1)]
        reader_shrinks_pieces split: sum.split)
  obtain buf dr1 where 1: "dr_io (stream_read 1) dr = (Inr buf, dr1)" and 2: "?rest buf dr1 = (Inr u, dr')"
    using assms unfolding data_read_step_def by (auto elim!: io_bind_Inr_cases)
  have "length (s_in (dr_stream dr)) = Suc (length (s_in (dr_stream dr1)))"
    using 1 stream_read_shrinks by (auto simp: dr_io_def split: prod.splits)
  then show ?thesis using io_keepsD [OF keep, of dr1 buf] 2 by (simp add: reader_shrinks_def)
qed

text \<open>The loop ends with an error only; with finite input it always does.\<close>

function run_data_stream :: "data_reader \<Rightarrow> Error \<times> data_reader" where
  "run_data_stream dr =
     (case data_read_step dr of
        (Inl e, dr') \<Rightarrow> (e, dr')
      | (Inr _, dr') \<Rightarrow> run_data_stream dr')"
  by pat_completeness auto
termination
  by (relation "measure (\<lambda>dr. length (s_in (dr_stream dr)))")
    (auto dest!: sym [THEN data_read_step_consumes])

declare run_data_stream.simps [simp del]

section \<open>The calls of a client and its tasks\<close>

text \<open>
  \<^verbatim>\<open>exec_command!\<close>.  The command queue answers a command with whether it could be sent in time
  and, if so, with what came back on the response channel in time: nothing when its sender has
  gone.  \<open>None\<close> is an elapsed timeout.
\<close>

type_synonym queue = "ControlCommand \<Rightarrow> bool option \<times> unit result option option"

definition exec_command :: "queue \<Rightarrow> ControlCommand \<Rightarrow> unit result" where
  "exec_command channel cmd =
     (case channel cmd of (sent, response) \<Rightarrow>
      case sent of
        None \<Rightarrow> Inl Error_from_elapsed
      | Some False \<Rightarrow> Inl (Error_internal ERR_COMMUNCATION_LOST)
      | Some True \<Rightarrow>
          (case response of
             None \<Rightarrow> Inl Error_from_elapsed
           | Some None \<Rightarrow> Inl (Error_internal ERR_COMMUNCATION_LOST)
           | Some (Some r) \<Rightarrow> r))"

definition Client_is_connected :: "Client \<Rightarrow> bool" where
  "Client_is_connected c = cn_connected c"

definition Client_take_data_channel :: "Client \<Rightarrow> Message list option \<times> Client" where
  "Client_take_data_channel c = (cn_data_channel c, c\<lparr>cn_data_channel := None\<rparr>)"

definition Client_subscribe :: "queue \<Rightarrow> str \<Rightarrow> unit result" where
  "Client_subscribe channel topic = exec_command channel (Subscribe topic)"

definition Client_unsubscribe :: "queue \<Rightarrow> str \<Rightarrow> unit result" where
  "Client_unsubscribe channel topic = exec_command channel (Unsubscribe topic)"

definition Client_subscribe_bulk :: "queue \<Rightarrow> str list \<Rightarrow> unit result" where
  "Client_subscribe_bulk channel topics = exec_command channel (SubscribeBulk topics)"

definition Client_unsubscribe_bulk :: "queue \<Rightarrow> str list \<Rightarrow> unit result" where
  "Client_unsubscribe_bulk channel topics = exec_command channel (UnsubscribeBulk topics)"

definition Client_publish :: "queue \<Rightarrow> u8 \<Rightarrow> str \<Rightarrow> bytes \<Rightarrow> unit result" where
  "Client_publish channel priority topic message = exec_command channel (Publish priority topic message)"

definition Client_publish_repl :: "queue \<Rightarrow> u8 \<Rightarrow> str \<Rightarrow> bytes \<Rightarrow> u64 \<Rightarrow> unit result" where
  "Client_publish_repl channel priority topic message timestamp =
     exec_command channel (PublishRepl priority topic message timestamp)"

text \<open>
  What the spawned tasks do around their loops: the end of the control or of the data task marks the
  client as disconnected, and so does a beacon that cannot be queued, which also ends the beacon task.
\<close>

definition task_ended :: "Client \<Rightarrow> Client" where
  "task_ended c = c\<lparr>cn_connected := False\<rparr>"

definition control_task_result :: "(instant \<times> Command) list \<Rightarrow> Client \<Rightarrow> control_task \<times> Client" where
  "control_task_result cmds c =
     (case run_control_stream (cn_beacon_interval c) (cn_timeout c) cmds
        \<lparr>ct_stream = cn_control c, ct_op_start = s_now (cn_control c), ct_responses = []\<rparr> of
        (_, ct) \<Rightarrow> (ct, task_ended c))"

definition data_task_result :: "SStream \<Rightarrow> bool \<Rightarrow> Client \<Rightarrow> data_reader \<times> Client" where
  "data_task_result s receiver_open c =
     (case run_data_stream \<lparr>dr_stream = s, dr_messages = [], dr_open = receiver_open, dr_commands = []\<rparr> of
        (_, dr) \<Rightarrow> (dr, task_ended c))"

definition ping_command :: Command where
  "ping_command = \<lparr>control_command = Nop, response_channel = None\<rparr>"

definition ping_step :: "(Command \<Rightarrow> bool) \<Rightarrow> Client \<Rightarrow> bool \<times> Client" where
  "ping_step send c = (if send ping_command then (True, c) else (False, task_ended c))"

definition Client_shutdown :: "Client \<Rightarrow> Client" where
  "Client_shutdown c = c\<lparr>cn_tasks_running := False\<rparr>"

definition Client_bye :: "queue \<Rightarrow> (Client, Error, unit) io" where
  "Client_bye channel =
     io_bind (io_lift (exec_command channel Bye)) (\<lambda>_.
     io_bind (io_modify (\<lambda>c. c\<lparr>cn_connected := False\<rparr>)) (\<lambda>_.
     io_modify Client_shutdown))"

end
