(* ===== verification/Topic.thy ===== *)
theory Topic
  imports Acl
begin

text \<open>
  Topic preparation, \<^verbatim>\<open>prepare_topic\<close> of \<^verbatim>\<open>src/src/pubsub.rs\<close>: runs of slashes are collapsed
  by repeated replacement, one leading slash is removed, and the number of slashes left is
  compared with the configured depth (the static \<^verbatim>\<open>MAX_TOPIC_DEPTH\<close>, here an argument).  The
  loop terminates because every replacement shortens the topic; its result is described by
  the chunks of the topic.
\<close>

section \<open>Preparing a topic\<close>

definition TOPIC_INVALID_SYMBOLS :: bytes where
  "TOPIC_INVALID_SYMBOLS = [of_char CHR ''#'', of_char CHR ''+'']"

abbreviation two_slashes :: str where
  "two_slashes \<equiv> [slash, slash]"

lemma str_replace_length_le: "length by \<le> length pat \<Longrightarrow> pat \<noteq> [] \<Longrightarrow> length (str_replace pat by s) \<le> length s"
proof (induction pat "by" s rule: str_replace.induct)
  case (1 pat "by")
  then show ?case by simp
next
  case (2 pat "by" c s)
  show ?case
  proof (cases "prefix pat (c # s)")
    case True
    have "length pat \<le> Suc (length s)" using prefix_length_le [OF True] by simp
    moreover have "0 < length pat" using "2.prems" by simp
    moreover have "length (str_replace pat by (drop (length pat - 1) s)) \<le> length s - (length pat - 1)"
      using "2.IH"(1) [OF True] "2.prems" by simp
    ultimately show ?thesis using True "2.prems" by simp
  next
    case False
    then show ?thesis using "2.IH"(2) [OF False] "2.prems" by simp
  qed
qed

lemma squeeze_decreases:
  "str_contains two_slashes s \<Longrightarrow> length (str_replace two_slashes [slash] s) < length s"
proof (induction s)
  case Nil
  then show ?case by simp
next
  case (Cons c s)
  show ?case
  proof (cases "prefix two_slashes (c # s)")
    case True
    then obtain r where "s = slash # r" and "c = slash" by (auto simp: prefix_def)
    then show ?thesis using str_replace_length_le [of "[slash]" two_slashes r] by simp
  next
    case False
    then show ?thesis using Cons by auto
  qed
qed

text \<open>The \<^verbatim>\<open>while\<close> loop.\<close>

function squeeze :: "str \<Rightarrow> str" where
  "squeeze s = (if str_contains two_slashes s then squeeze (str_replace two_slashes [slash] s) else s)"
  by pat_completeness auto
termination
  by (relation "measure length") (auto intro: squeeze_decreases)

declare squeeze.simps [simp del]

definition prepare_topic :: "nat \<Rightarrow> str \<Rightarrow> str result" where
  "prepare_topic max_topic_depth topic =
     (let r1 = squeeze topic;
          r2 = (if str_starts_with [slash] r1 then drop 1 r1 else r1)
      in if count_list r2 slash > max_topic_depth
         then Inl (Error_invalid_data (lit ''the topic is too deep''))
         else Inr r2)"

section \<open>Lemmas\<close>

text \<open>The non-empty chunks of a topic, and the topic in canonical form.\<close>

definition topic_words :: "str \<Rightarrow> str list" where
  "topic_words t = filter (\<lambda>c. c \<noteq> []) (split_on slash t)"

definition canonical_topic :: "str \<Rightarrow> str" where
  "canonical_topic t =
     join_with slash (topic_words t) @
     (if topic_words t \<noteq> [] \<and> last t = slash then [slash] else [])"

lemma split_on_ConsE:
  obtains y ys where "split_on c s = y # ys"
  using split_on_nonempty [of c s] by (meson list.exhaust)

lemma topic_words_slash [simp]: "topic_words (slash # s) = topic_words s"
  by (simp add: topic_words_def)

lemma topic_words_Nil [simp]: "topic_words [] = []"
  by (simp add: topic_words_def)

lemma topic_words_Cons:
  "c \<noteq> slash \<Longrightarrow> topic_words (c # s) =
     (c # hd (split_on slash s)) # (if hd (split_on slash s) = [] then topic_words s else tl (topic_words s))"
  by (rule split_on_ConsE [of slash s]) (auto simp: topic_words_def)

lemma hd_split_Cons:
  "hd (split_on c (x # s)) = (if x = c then [] else x # hd (split_on c s))"
  by (rule split_on_ConsE [of c s]) auto

lemma squeeze_step_chunks:
  "hd (split_on slash (str_replace two_slashes [slash] s)) = hd (split_on slash s) \<and>
   topic_words (str_replace two_slashes [slash] s) = topic_words s \<and>
   (s \<noteq> [] \<longrightarrow> str_replace two_slashes [slash] s \<noteq> [] \<and>
      (last (str_replace two_slashes [slash] s) = slash \<longleftrightarrow> last s = slash))"
proof (induction s rule: length_induct)
  case (1 s)
  show ?case
  proof (cases s)
    case Nil
    then show ?thesis by simp
  next
    case (Cons c s')
    show ?thesis
    proof (cases "prefix two_slashes (c # s')")
      case True
      then obtain r where r: "s' = slash # r" and c: "c = slash" by (auto simp: prefix_def)
      show ?thesis using "1" Cons r c by (cases "r = []") auto
    next
      case False
      define x where "x = str_replace two_slashes [slash] s'"
      have IH: "hd (split_on slash x) = hd (split_on slash s')" "topic_words x = topic_words s'"
        "s' \<noteq> [] \<Longrightarrow> x \<noteq> [] \<and> (last x = slash \<longleftrightarrow> last s' = slash)"
        using "1" Cons by (auto simp: x_def)
      have x: "str_replace two_slashes [slash] s = c # x"
        using False Cons by (auto simp: x_def)
      have "hd (split_on slash (c # x)) = hd (split_on slash (c # s'))"
        by (simp only: hd_split_Cons IH(1))
      moreover have "topic_words (c # x) = topic_words (c # s')"
        using IH by (cases "c = slash") (simp_all add: topic_words_Cons)
      moreover have "last (c # x) = slash \<longleftrightarrow> last (c # s') = slash"
        using IH(3) x_def by (cases "s' = []") auto
      ultimately show ?thesis using x Cons by simp
    qed
  qed
qed

lemma squeeze_chunks:
  "topic_words (squeeze s) = topic_words s \<and> hd (split_on slash (squeeze s)) = hd (split_on slash s) \<and>
   (s \<noteq> [] \<longrightarrow> squeeze s \<noteq> [] \<and> (last (squeeze s) = slash \<longleftrightarrow> last s = slash))"
proof (induction s rule: squeeze.induct)
  case (1 s)
  show ?case
  proof (cases "str_contains two_slashes s")
    case True
    have "squeeze s = squeeze (str_replace two_slashes [slash] s)"
      using True by (subst squeeze.simps) simp
    then show ?thesis using "1" [OF True] squeeze_step_chunks [of s] by auto
  next
    case False
    then have "squeeze s = s" by (subst squeeze.simps) simp
    then show ?thesis by simp
  qed
qed

lemma squeeze_no_two_slashes: "\<not> str_contains two_slashes (squeeze s)"
proof (induction s rule: squeeze.induct)
  case (1 s)
  show ?case
  proof (cases "str_contains two_slashes s")
    case True
    then show ?thesis using "1" by (subst squeeze.simps) simp
  next
    case False
    then show ?thesis by (subst squeeze.simps) simp
  qed
qed

text \<open>Without double slashes only the first and the last chunk can be empty.\<close>

lemma inner_chunks_nonempty:
  assumes "\<not> str_contains two_slashes s" and "x \<in> set (butlast (tl (split_on slash s)))"
  shows "x \<noteq> []"
  using assms
proof (induction s)
  case Nil
  then show ?case by simp
next
  case (Cons c s)
  obtain y ys where y: "split_on slash s = y # ys" by (rule split_on_ConsE)
  show ?case
  proof (cases "c = slash")
    case True
    then have "\<not> prefix [slash] s" using Cons.prems(1) by auto
    then have hd: "y \<noteq> [] \<or> s = []" using y
      by (cases s) (auto split: if_splits list.splits)
    show ?thesis
    proof (cases "x = y")
      case True
      then show ?thesis using hd y Cons.prems(2) \<open>c = slash\<close> by auto
    next
      case False
      then have "x \<in> set (butlast (tl (split_on slash s)))"
        using Cons.prems(2) y \<open>c = slash\<close> by (auto split: if_splits)
      then show ?thesis using Cons.IH Cons.prems(1) by simp
    qed
  next
    case False
    then show ?thesis using Cons y by simp
  qed
qed

lemma last_chunk_empty_iff: "s \<noteq> [] \<Longrightarrow> last (split_on c s) = [] \<longleftrightarrow> last s = c"
proof (induction s)
  case Nil
  then show ?case by simp
next
  case (Cons x s)
  obtain y ys where y: "split_on c s = y # ys" by (rule split_on_ConsE)
  have "s \<noteq> [] \<Longrightarrow> split_on c s \<noteq> [[]]" using join_split_on [of c s] by auto
  then show ?case using Cons y by (cases "s = []") auto
qed

lemma join_with_snoc_Nil: "xs \<noteq> [] \<Longrightarrow> join_with c (xs @ [[]]) = join_with c xs @ [c]"
  by (induction c xs rule: join_with.induct) auto

lemma canonical_of_squeezed:
  assumes ns: "\<not> str_contains two_slashes s" and hd: "\<not> prefix [slash] s"
  shows "canonical_topic s = s"
proof (cases "s = []")
  case True
  then show ?thesis by (simp add: canonical_topic_def)
next
  case False
  obtain y ys where y: "split_on slash s = y # ys" by (rule split_on_ConsE)
  have "y \<noteq> []" using False hd y by (cases s) (auto split: if_splits list.splits)
  then have inner: "x \<noteq> []" if "x \<in> set (butlast (split_on slash s))" for x
    using inner_chunks_nonempty [OF ns] that y by (auto split: if_splits)
  have f: "filter (\<lambda>c. c \<noteq> []) (butlast (split_on slash s)) = butlast (split_on slash s)"
    by (rule filter_True) (use inner in blast)
  have "topic_words s = filter (\<lambda>c. c \<noteq> []) (butlast (split_on slash s) @ [last (split_on slash s)])"
    by (simp only: topic_words_def append_butlast_last_id [OF split_on_nonempty])
  then have w: "topic_words s = butlast (split_on slash s) @ (if last s = slash then [] else [last (split_on slash s)])"
    using last_chunk_empty_iff [OF False, of slash]
    by (simp only: filter_append f) simp
  show ?thesis
  proof (cases "last s = slash")
    case True
    then have l: "last (split_on slash s) = []" using last_chunk_empty_iff [OF False] by simp
    have b: "butlast (split_on slash s) \<noteq> []"
      using \<open>y \<noteq> []\<close> l y by (auto split: if_splits)
    have "s = join_with slash (butlast (split_on slash s) @ [[]])"
      using join_split_on [of slash s] l by (metis append_butlast_last_id split_on_nonempty)
    then show ?thesis using w b True by (simp add: canonical_topic_def join_with_snoc_Nil)
  next
    case l: False
    then have "topic_words s = split_on slash s" using w by simp
    then show ?thesis using l by (simp add: canonical_topic_def join_split_on)
  qed
qed

text \<open>What \<^verbatim>\<open>prepare_topic\<close> computes before the depth check.\<close>

definition normalized :: "str \<Rightarrow> str" where
  "normalized topic =
     (let r = squeeze topic in if str_starts_with [slash] r then drop 1 r else r)"

lemma prepare_topic_normalized:
  "prepare_topic d topic =
     (if count_list (normalized topic) slash > d
      then Inl (Error_invalid_data (lit ''the topic is too deep''))
      else Inr (normalized topic))"
  by (simp add: prepare_topic_def normalized_def Let_def)

lemma normalized_shape:
  "\<not> str_contains two_slashes (normalized t)" "\<not> prefix [slash] (normalized t)"
proof -
  have ns: "\<not> str_contains two_slashes (squeeze t)" by (rule squeeze_no_two_slashes)
  show "\<not> str_contains two_slashes (normalized t)"
    using ns by (cases "squeeze t") (auto simp: normalized_def Let_def)
  show "\<not> prefix [slash] (normalized t)"
    using ns by (cases "squeeze t") (auto simp: normalized_def Let_def str_starts_with_def)
qed

lemma normalized_words: "topic_words (normalized t) = topic_words t"
proof -
  have "topic_words (normalized t) = topic_words (squeeze t)"
    by (cases "squeeze t") (auto simp: normalized_def Let_def str_starts_with_def)
  then show ?thesis using squeeze_chunks by simp
qed

lemma normalized_last:
  assumes "topic_words t \<noteq> []"
  shows "normalized t \<noteq> [] \<and> (last (normalized t) = slash \<longleftrightarrow> last t = slash)"
proof -
  have t: "t \<noteq> []" using assms by auto
  have w: "topic_words (normalized t) \<noteq> []" using assms by (simp add: normalized_words)
  then have n: "normalized t \<noteq> []" by auto
  have "last (normalized t) = last (squeeze t)"
    using n by (cases "squeeze t") (auto simp: normalized_def Let_def)
  then show ?thesis using n squeeze_chunks [of t] t by simp
qed

lemma normalized_canonical: "normalized t = canonical_topic t"
proof -
  have "normalized t = canonical_topic (normalized t)"
    using canonical_of_squeezed [OF normalized_shape] by simp
  also have "\<dots> = canonical_topic t"
  proof (cases "topic_words t = []")
    case True
    then show ?thesis by (simp add: canonical_topic_def normalized_words)
  next
    case False
    then show ?thesis using normalized_last [OF False] by (simp add: canonical_topic_def normalized_words)
  qed
  finally show ?thesis .
qed

lemma normalized_idem: "normalized (normalized t) = normalized t"
  using canonical_of_squeezed [OF normalized_shape] by (simp add: normalized_canonical)

subsection \<open>What preparation keeps\<close>

lemma utf8_valid_join:
  "c < 0x80 \<Longrightarrow> (\<And>x. x \<in> set xs \<Longrightarrow> utf8_valid x) \<Longrightarrow> utf8_valid (join_with c xs)"
  by (induction c xs rule: join_with.induct) (auto simp: utf8_valid_ascii_cut)

lemma utf8_valid_normalized: "utf8_valid t \<Longrightarrow> utf8_valid (normalized t)"
proof -
  assume t: "utf8_valid t"
  have "utf8_valid x" if "x \<in> set (topic_words t)" for x
    using that utf8_valid_split_on [OF t, of slash x] by (simp add: topic_words_def)
  then have "utf8_valid (join_with slash (topic_words t))" by (intro utf8_valid_join) auto
  then show ?thesis
    using utf8_valid_ascii_cut [of slash "join_with slash (topic_words t)" "[]"]
    by (simp add: normalized_canonical canonical_topic_def)
qed

lemma set_join_with: "set (join_with c xs) \<subseteq> insert c (\<Union>(set ` set xs))"
  by (induction c xs rule: join_with.induct) auto

lemma set_split_on: "x \<in> set (split_on c s) \<Longrightarrow> set x \<subseteq> set s"
proof (induction s arbitrary: x)
  case Nil
  then show ?case by simp
next
  case (Cons a s)
  obtain y ys where "split_on c s = y # ys" by (rule split_on_ConsE)
  then show ?case using Cons by (fastforce split: if_splits)
qed

lemma set_normalized: "set (normalized t) \<subseteq> insert slash (set t)"
proof -
  have "\<Union>(set ` set (topic_words t)) \<subseteq> set t"
    using set_split_on [of _ slash t] by (auto simp: topic_words_def)
  then have "set (join_with slash (topic_words t)) \<subseteq> insert slash (set t)"
    using set_join_with [of slash "topic_words t"] by blast
  then show ?thesis by (auto simp: normalized_canonical canonical_topic_def)
qed

lemma length_squeeze: "length (squeeze s) \<le> length s"
proof (induction s rule: squeeze.induct)
  case (1 s)
  then show ?case
    using squeeze_decreases [of s] by (subst squeeze.simps) auto
qed

lemma length_normalized: "length (normalized t) \<le> length t"
  using length_squeeze [of t] by (auto simp: normalized_def Let_def)

lemma prepare_topic_Inr:
  "prepare_topic d topic = Inr t \<longleftrightarrow> t = normalized topic \<and> count_list t slash \<le> d"
  by (auto simp: prepare_topic_normalized)

lemma prepare_topic_utf8: "prepare_topic d topic = Inr t \<Longrightarrow> utf8_valid topic \<Longrightarrow> utf8_valid t"
  by (simp add: prepare_topic_Inr utf8_valid_normalized)

section \<open>Properties\<close>

text \<open>
  C30: \<^verbatim>\<open>prepare_topic\<close> accepts a topic exactly if its canonical form (the non-empty chunks
  joined by single slashes, with a final slash where the topic has one) has at most the
  configured number of slashes, and then returns that form; a deeper topic is refused as
  invalid data.
\<close>

theorem prepare_topic_canonical:
  "prepare_topic d topic =
     (if count_list (canonical_topic topic) slash \<le> d then Inr (canonical_topic topic)
      else Inl (Error_invalid_data (lit ''the topic is too deep'')))"
  by (simp add: prepare_topic_normalized normalized_canonical)

text \<open>
  A prepared topic is a fixed point of \<^verbatim>\<open>prepare_topic\<close>, is no longer than the topic it
  was made from, has no empty chunk before its last one, no byte that the topic did not have
  and is still valid UTF-8.
\<close>

lemma prepare_topic_stable:
  assumes "prepare_topic d topic = Inr t" and "utf8_valid topic"
  shows "prepare_topic d t = Inr t \<and> length t \<le> length topic \<and>
    \<not> str_contains two_slashes t \<and> \<not> str_starts_with [slash] t \<and>
    set t \<subseteq> insert slash (set topic) \<and> utf8_valid t"
proof -
  have t: "t = normalized topic" and d: "count_list t slash \<le> d"
    using assms(1) by (auto simp: prepare_topic_Inr)
  then show ?thesis
    using assms(2) normalized_shape [of topic]
    by (simp add: prepare_topic_Inr normalized_idem length_normalized utf8_valid_normalized
        str_starts_with_def set_normalized)
qed

end
