(* ===== verification/Pubsub.thy ===== *)
theory Pubsub
  imports Topic Token
begin

text \<open>
  The client database of the server, \<^verbatim>\<open>src/src/pubsub.rs\<close>.

  A registered client is an \<^verbatim>\<open>Arc<ServerClientData>\<close>: its immutable fields are the record
  \<open>ServerClient\<close>, and the two fields behind a mutex live in a store at the address \<open>cl_ref\<close> of
  the shared object, so that every holder of the \<^verbatim>\<open>Arc\<close> sees the same cell.

  Two crates the database is built on are not part of the repository: \<^verbatim>\<open>submap\<close> (the
  subscription tree and SHA-256) and \<^verbatim>\<open>async_channel\<close> (the bounded queues).  Their operations are
  the records \<open>submap_ops\<close> and \<open>chan_ops\<close>, arguments of every definition that calls them; what the
  program relies on is stated by the locales \<open>submap_laws\<close> and \<open>bounded_channel\<close>.
\<close>

section \<open>Clients and message frames\<close>

record MessageFrame =
  mf_timestamp :: "u64 option"
  mf_frame :: bytes
  mf_data :: "bytes option"

record ServerClient =
  cl_login :: str
  cl_digest :: bytes
  cl_addr :: str
  cl_token :: Token
  cl_ref :: nat

text \<open>The fields behind a mutex: the registered data channel and the spawned tasks, by number.\<close>

record client_cell =
  data_channel :: "nat option"
  client_tasks :: "nat list"

text \<open>
  The store shared by all tasks of the server: the cells of the clients, the queues, the
  tasks that have been aborted, and the next free number.
\<close>

record 'ch store =
  st_cells :: "nat \<Rightarrow> client_cell"
  st_chans :: "nat \<Rightarrow> 'ch"
  st_aborted :: "nat set"
  st_next :: nat

definition empty_cell :: client_cell where
  "empty_cell = \<lparr>data_channel = None, client_tasks = []\<rparr>"

definition get_data_channel :: "ServerClient \<Rightarrow> 'ch store \<Rightarrow> nat option" where
  "get_data_channel c st = data_channel (st_cells st (cl_ref c))"

definition token_as_bytes :: "ServerClient \<Rightarrow> bytes" where
  "token_as_bytes c = Token_as_bytes (cl_token c)"

definition abort_tasks :: "ServerClient \<Rightarrow> 'ch store \<Rightarrow> 'ch store" where
  "abort_tasks c st =
     (let cell = st_cells st (cl_ref c) in
      st\<lparr>st_aborted := st_aborted st \<union> set (client_tasks cell),
         st_cells := (st_cells st)(cl_ref c := cell\<lparr>client_tasks := []\<rparr>)\<rparr>)"

definition register_task :: "ServerClient \<Rightarrow> nat \<Rightarrow> 'ch store \<Rightarrow> 'ch store" where
  "register_task c task st =
     (let cell = st_cells st (cl_ref c) in
      st\<lparr>st_cells := (st_cells st)(cl_ref c := cell\<lparr>client_tasks := client_tasks cell @ [task]\<rparr>)\<rparr>)"

text \<open>\<^verbatim>\<open>PartialEq\<close> and \<^verbatim>\<open>Ord\<close> of \<^verbatim>\<open>ServerClientData\<close> compare digests.\<close>

definition client_eq :: "ServerClient \<Rightarrow> ServerClient \<Rightarrow> bool" where
  "client_eq a b \<longleftrightarrow> cl_digest a = cl_digest b"

definition client_less :: "ServerClient \<Rightarrow> ServerClient \<Rightarrow> bool" where
  "client_less a b \<longleftrightarrow> cl_digest a < cl_digest b"

section \<open>Operations of the crates\<close>

record 'm submap_ops =
  sm_new :: "str \<Rightarrow> str \<Rightarrow> 'm"
  sm_register_client :: "ServerClient \<Rightarrow> 'm \<Rightarrow> bool \<times> 'm"
  sm_unregister_client :: "ServerClient \<Rightarrow> 'm \<Rightarrow> bool \<times> 'm"
  sm_subscribe :: "str \<Rightarrow> ServerClient \<Rightarrow> 'm \<Rightarrow> bool \<times> 'm"
  sm_unsubscribe :: "str \<Rightarrow> ServerClient \<Rightarrow> 'm \<Rightarrow> bool \<times> 'm"
  sm_get_subscribers :: "str \<Rightarrow> 'm \<Rightarrow> ServerClient list"
  sm_subscription_count :: "'m \<Rightarrow> nat"
  sm_client_count :: "'m \<Rightarrow> nat"

record 'ch chan_ops =
  ch_bounded :: "nat \<Rightarrow> 'ch"
  ch_is_full :: "'ch \<Rightarrow> bool"
  ch_send :: "MessageFrame \<Rightarrow> 'ch \<Rightarrow> bool \<times> 'ch"
  ch_recv :: "'ch \<Rightarrow> MessageFrame option \<times> 'ch"

section \<open>The database\<close>

record 'm ServerClientDB =
  db_submap :: 'm
  db_clients :: "Token \<rightharpoonup> ServerClient"

record ServerClientDBStats =
  subscription_count :: nat
  client_count :: nat

definition ServerClientDB_default :: "'m submap_ops \<Rightarrow> 'm ServerClientDB" where
  "ServerClientDB_default sm =
     \<lparr>db_submap = sm_new sm (lit ''+'') (lit ''#''), db_clients = Map.empty\<rparr>"

text \<open>
  \<^verbatim>\<open>register_data_channel\<close> takes a shared reference to the database: it changes the client's
  cell only.
\<close>

definition register_data_channel ::
  "Token \<Rightarrow> nat \<Rightarrow> 'm ServerClientDB \<Rightarrow> 'ch store \<Rightarrow> (nat \<times> ServerClient) result \<times> 'ch store" where
  "register_data_channel token channel db st =
     (case db_clients db token of
        Some client \<Rightarrow>
          let cell = st_cells st (cl_ref client) in
          if data_channel cell \<noteq> None then
            (Inl (Error_access (lit ''Data channel is already registered'')), st)
          else
            (Inr (channel, client),
             st\<lparr>st_cells := (st_cells st)(cl_ref client := cell\<lparr>data_channel := Some channel\<rparr>)\<rparr>)
      | None \<Rightarrow> (Inl (Error_access (lit ''data channel access denied'')), st))"

definition unregister_data_channel :: "Token \<Rightarrow> 'm ServerClientDB \<Rightarrow> 'ch store \<Rightarrow> 'ch store" where
  "unregister_data_channel token db st =
     (case db_clients db token of
        Some client \<Rightarrow>
          let cell = st_cells st (cl_ref client) in
          st\<lparr>st_cells := (st_cells st)(cl_ref client := cell\<lparr>data_channel := None\<rparr>)\<rparr>
      | None \<Rightarrow> st)"

definition get_stats :: "'m submap_ops \<Rightarrow> 'm ServerClientDB \<Rightarrow> ServerClientDBStats" where
  "get_stats sm db =
     \<lparr>subscription_count = sm_subscription_count sm (db_submap db),
      client_count = sm_client_count sm (db_submap db)\<rparr>"

definition new_client :: "(bytes \<Rightarrow> bytes) \<Rightarrow> str \<Rightarrow> str \<Rightarrow> nat \<Rightarrow> Token \<Rightarrow> ServerClient" where
  "new_client sha256 login addr ref token =
     \<lparr>cl_login = login, cl_digest = sha256 (token_bytes token), cl_addr = addr,
      cl_token = token, cl_ref = ref\<rparr>"

text \<open>
  The loop of \<^verbatim>\<open>register_client\<close> over the outcomes of the random generator: a draw whose digest
  is already registered is dropped and the next one is tried.  \<open>None\<close> says that the loop is
  still drawing when the given outcomes are used up.
\<close>

fun register_client ::
  "'m submap_ops \<Rightarrow> (bytes \<Rightarrow> bytes) \<Rightarrow> str \<Rightarrow> str \<Rightarrow> nat \<Rightarrow> (str + bytes) list \<Rightarrow> 'm ServerClientDB \<Rightarrow>
     (ServerClient result \<times> (str + bytes) list \<times> 'm ServerClientDB) option" where
  "register_client sm sha256 login addr ref [] db = None"
| "register_client sm sha256 login addr ref (d # draws) db =
     (case Token_create d of
        Inl e \<Rightarrow> Some (Inl e, draws, db)
      | Inr token \<Rightarrow>
          let client = new_client sha256 login addr ref token;
              (registered, m) = sm_register_client sm client (db_submap db)
          in if registered then
               Some (Inr client, draws,
                     db\<lparr>db_submap := m, db_clients := (db_clients db)(cl_token client \<mapsto> client)\<rparr>)
             else register_client sm sha256 login addr ref draws (db\<lparr>db_submap := m\<rparr>))"

definition unregister_client ::
  "'m submap_ops \<Rightarrow> ServerClient \<Rightarrow> 'm ServerClientDB \<Rightarrow> 'm ServerClientDB" where
  "unregister_client sm client db =
     db\<lparr>db_submap := snd (sm_unregister_client sm client (db_submap db)),
        db_clients := (db_clients db)(cl_token client := None)\<rparr>"

definition subscribe ::
  "'m submap_ops \<Rightarrow> nat \<Rightarrow> str \<Rightarrow> ServerClient \<Rightarrow> ('m ServerClientDB, Error, unit) io" where
  "subscribe sm max_topic_depth topic client =
     io_bind (io_lift (prepare_topic max_topic_depth topic)) (\<lambda>t.
     io_modify (\<lambda>db. db\<lparr>db_submap := snd (sm_subscribe sm t client (db_submap db))\<rparr>))"

definition unsubscribe ::
  "'m submap_ops \<Rightarrow> nat \<Rightarrow> str \<Rightarrow> ServerClient \<Rightarrow> ('m ServerClientDB, Error, unit) io" where
  "unsubscribe sm max_topic_depth topic client =
     io_bind (io_lift (prepare_topic max_topic_depth topic)) (\<lambda>t.
     io_modify (\<lambda>db. db\<lparr>db_submap := snd (sm_unsubscribe sm t client (db_submap db))\<rparr>))"

definition get_subscribers :: "'m submap_ops \<Rightarrow> str \<Rightarrow> 'm ServerClientDB \<Rightarrow> ServerClient list" where
  "get_subscribers sm topic db = sm_get_subscribers sm topic (db_submap db)"

text \<open>\<^verbatim>\<open>tv_sec() as u64 * 1_000_000_000 + tv_nsec() as u64\<close>, wrapping.\<close>

definition now_ns :: "int \<Rightarrow> int \<Rightarrow> u64" where
  "now_ns tv_sec tv_nsec = word_of_int tv_sec * 1000000000 + word_of_int tv_nsec"

section \<open>What the program relies on of the crates\<close>

text \<open>Subscription topics: \<^verbatim>\<open>+\<close> stands for one chunk, a final \<^verbatim>\<open>#\<close> for all that follow.\<close>

definition wf_pattern :: "str \<Rightarrow> bool" where
  "wf_pattern p \<longleftrightarrow> (\<forall>c \<in> set (butlast (split_on slash p)). \<not> is_str_any c)"

definition topic_matches :: "str \<Rightarrow> str \<Rightarrow> bool" where
  "topic_matches p t = matches_loop (split_on slash t) (split_on slash p)"

definition plain_topic :: "str \<Rightarrow> bool" where
  "plain_topic t \<longleftrightarrow> set t \<inter> set TOPIC_INVALID_SYMBOLS = {}"

text \<open>
  The subscription map: clients are compared by digest; registering refuses a digest that is
  already known; unregistering drops the client's subscriptions; subscriptions are made by
  registered clients only; the subscribers of a topic are the clients with a matching
  subscription, in the order of their digests, each once.
\<close>

locale submap_laws =
  fixes sm :: "'m submap_ops"
    and clients :: "'m \<Rightarrow> ServerClient set"
    and subs :: "'m \<Rightarrow> (str \<times> ServerClient) set"
    and invar :: "'m \<Rightarrow> bool"
  assumes new: "invar (sm_new sm a w)" "clients (sm_new sm a w) = {}" "subs (sm_new sm a w) = {}"
    and invar_ops:
      "invar m \<Longrightarrow> invar (snd (sm_register_client sm c m))"
      "invar m \<Longrightarrow> invar (snd (sm_unregister_client sm c m))"
      "invar m \<Longrightarrow> c \<in> clients m \<Longrightarrow> invar (snd (sm_subscribe sm t c m))"
      "invar m \<Longrightarrow> c \<in> clients m \<Longrightarrow> invar (snd (sm_unsubscribe sm t c m))"
    and register_result:
      "invar m \<Longrightarrow> fst (sm_register_client sm c m) \<longleftrightarrow> cl_digest c \<notin> cl_digest ` clients m"
    and register_clients:
      "invar m \<Longrightarrow> clients (snd (sm_register_client sm c m)) =
         (if cl_digest c \<in> cl_digest ` clients m then clients m else insert c (clients m))"
    and register_subs: "invar m \<Longrightarrow> subs (snd (sm_register_client sm c m)) = subs m"
    and unregister_clients:
      "invar m \<Longrightarrow> clients (snd (sm_unregister_client sm c m)) = {d \<in> clients m. \<not> client_eq d c}"
    and unregister_subs:
      "invar m \<Longrightarrow> subs (snd (sm_unregister_client sm c m)) = {x \<in> subs m. \<not> client_eq (snd x) c}"
    and subscribe_clients:
      "invar m \<Longrightarrow> c \<in> clients m \<Longrightarrow> clients (snd (sm_subscribe sm t c m)) = clients m"
    and subscribe_subs:
      "invar m \<Longrightarrow> c \<in> clients m \<Longrightarrow> wf_pattern t \<Longrightarrow>
         subs (snd (sm_subscribe sm t c m)) = insert (t, c) (subs m)"
    and unsubscribe_clients:
      "invar m \<Longrightarrow> c \<in> clients m \<Longrightarrow> clients (snd (sm_unsubscribe sm t c m)) = clients m"
    and unsubscribe_subs:
      "invar m \<Longrightarrow> c \<in> clients m \<Longrightarrow> wf_pattern t \<Longrightarrow>
         subs (snd (sm_unsubscribe sm t c m)) = subs m - {(t, c)}"
    and digests_inj: "invar m \<Longrightarrow> inj_on cl_digest (clients m)"
    and subs_registered: "invar m \<Longrightarrow> snd ` subs m \<subseteq> clients m"
    and subscribers_registered: "invar m \<Longrightarrow> set (sm_get_subscribers sm t m) \<subseteq> clients m"
    and subscribers_sorted: "invar m \<Longrightarrow> sorted_wrt client_less (sm_get_subscribers sm t m)"
    and subscribers_set:
      "invar m \<Longrightarrow> plain_topic t \<Longrightarrow> (\<And>x. x \<in> subs m \<Longrightarrow> wf_pattern (fst x)) \<Longrightarrow>
         set (sm_get_subscribers sm t m) = {c. \<exists>p. (p, c) \<in> subs m \<and> topic_matches p t}"

text \<open>
  The bounded queue: first in, first out, at most the given number of messages; a send on an
  open queue that is not full appends, a send on a closed queue fails.
\<close>

locale bounded_channel =
  fixes ch :: "'ch chan_ops"
    and queued :: "'ch \<Rightarrow> MessageFrame list"
    and capacity :: "'ch \<Rightarrow> nat"
    and closed :: "'ch \<Rightarrow> bool"
  assumes bounded_new: "queued (ch_bounded ch n) = []" "capacity (ch_bounded ch n) = n"
      "\<not> closed (ch_bounded ch n)"
    and is_full: "ch_is_full ch q \<longleftrightarrow> capacity q \<le> length (queued q)"
    and send_open:
      "\<not> closed q \<Longrightarrow> \<not> ch_is_full ch q \<Longrightarrow>
         fst (ch_send ch f q) \<and> queued (snd (ch_send ch f q)) = queued q @ [f]"
    and send_closed: "closed q \<Longrightarrow> ch_send ch f q = (False, q)"
    and send_frame: "capacity (snd (ch_send ch f q)) = capacity q"
      "closed (snd (ch_send ch f q)) = closed q"
    and recv_message:
      "queued q = f # fs \<Longrightarrow> fst (ch_recv ch q) = Some f \<and> queued (snd (ch_recv ch q)) = fs"
    and recv_Some: "ch_recv ch q = (Some f, q') \<Longrightarrow> queued q = f # queued q'"
    and recv_end: "queued q = [] \<Longrightarrow> closed q \<Longrightarrow> ch_recv ch q = (None, q)"
    and recv_frame: "capacity (snd (ch_recv ch q)) = capacity q"
      "closed (snd (ch_recv ch q)) = closed q"
begin

lemma send_keeps_bound:
  assumes "length (queued q) \<le> capacity q" and "\<not> ch_is_full ch q"
  shows "length (queued (snd (ch_send ch f q))) \<le> capacity (snd (ch_send ch f q))"
  using assms send_closed [of q f] send_open [of q f]
  by (cases "closed q") (auto simp: is_full send_frame)

end

end
