(* ===== verification/Crates.thy ===== *)
theory Crates
  imports Pubsub
begin

text \<open>
  Executable reference instances of the two crates behind the client database.  They discharge
  the laws of \<open>submap_laws\<close> and \<open>bounded_channel\<close>, so that the theorems that assume these laws
  can be evaluated on concrete servers; no theorem about the program is about these instances
  alone.
\<close>

section \<open>A subscription map on lists\<close>

record list_map =
  lm_clients :: "ServerClient list"
  lm_subs :: "(str \<times> ServerClient) list"

definition lm_known :: "ServerClient \<Rightarrow> list_map \<Rightarrow> bool" where
  "lm_known c m \<longleftrightarrow> cl_digest c \<in> set (map cl_digest (lm_clients m))"

definition lm_matching :: "str \<Rightarrow> list_map \<Rightarrow> ServerClient list" where
  "lm_matching t m =
     sort_key cl_digest
       (filter (\<lambda>c. list_ex (\<lambda>x. snd x = c \<and> topic_matches (fst x) t) (lm_subs m)) (lm_clients m))"

definition list_submap :: "list_map submap_ops" where
  "list_submap =
     \<lparr>sm_new = (\<lambda>_ _. \<lparr>lm_clients = [], lm_subs = []\<rparr>),
      sm_register_client = (\<lambda>c m.
        if lm_known c m then (False, m) else (True, m\<lparr>lm_clients := c # lm_clients m\<rparr>)),
      sm_unregister_client = (\<lambda>c m.
        (lm_known c m,
         m\<lparr>lm_clients := filter (\<lambda>d. \<not> client_eq d c) (lm_clients m),
           lm_subs := filter (\<lambda>x. \<not> client_eq (snd x) c) (lm_subs m)\<rparr>)),
      sm_subscribe = (\<lambda>t c m.
        if c \<in> set (lm_clients m) then (True, m\<lparr>lm_subs := List.insert (t, c) (lm_subs m)\<rparr>)
        else (False, m)),
      sm_unsubscribe = (\<lambda>t c m.
        if c \<in> set (lm_clients m) then (True, m\<lparr>lm_subs := removeAll (t, c) (lm_subs m)\<rparr>)
        else (False, m)),
      sm_get_subscribers = lm_matching,
      sm_subscription_count = (\<lambda>m. length (lm_subs m)),
      sm_client_count = (\<lambda>m. length (lm_clients m))\<rparr>"

definition lm_invar :: "list_map \<Rightarrow> bool" where
  "lm_invar m \<longleftrightarrow>
     distinct (map cl_digest (lm_clients m)) \<and> (\<forall>x \<in> set (lm_subs m). snd x \<in> set (lm_clients m))"

abbreviation lm_client_set :: "list_map \<Rightarrow> ServerClient set" where
  "lm_client_set m \<equiv> set (lm_clients m)"

abbreviation lm_sub_set :: "list_map \<Rightarrow> (str \<times> ServerClient) set" where
  "lm_sub_set m \<equiv> set (lm_subs m)"

lemma sorted_matching:
  assumes "lm_invar m"
  shows "sorted_wrt client_less (lm_matching t m)"
proof -
  let ?xs = "filter (\<lambda>c. list_ex (\<lambda>x. snd x = c \<and> topic_matches (fst x) t) (lm_subs m)) (lm_clients m)"
  have "distinct (map cl_digest ?xs)"
    using assms by (simp add: lm_invar_def distinct_map_filter)
  then have "distinct (map cl_digest (sort_key cl_digest ?xs))"
    by (simp add: distinct_map inj_on_def)
  then have "sorted_wrt (<) (map cl_digest (sort_key cl_digest ?xs))"
    by (simp add: strict_sorted_iff)
  then show ?thesis by (simp add: lm_matching_def sorted_wrt_map client_less_def [abs_def])
qed

interpretation smi: submap_laws list_submap lm_client_set lm_sub_set lm_invar
proof
  fix m c t
  assume m: "lm_invar m"
  show "lm_invar (snd (sm_register_client list_submap c m))"
    using m by (auto simp: list_submap_def lm_invar_def lm_known_def)
  show "lm_invar (snd (sm_unregister_client list_submap c m))"
    using m by (auto simp: list_submap_def lm_invar_def distinct_map_filter)
  show "c \<in> lm_client_set m \<Longrightarrow> lm_invar (snd (sm_subscribe list_submap t c m))"
    using m by (auto simp: list_submap_def lm_invar_def)
  show "c \<in> lm_client_set m \<Longrightarrow> lm_invar (snd (sm_unsubscribe list_submap t c m))"
    using m by (auto simp: list_submap_def lm_invar_def)
  show "sorted_wrt client_less (sm_get_subscribers list_submap t m)"
    using sorted_matching [OF m] by (simp add: list_submap_def)
  show "inj_on cl_digest (lm_client_set m)"
    using m by (simp add: lm_invar_def distinct_map)
  show "snd ` lm_sub_set m \<subseteq> lm_client_set m"
    using m by (auto simp: lm_invar_def)
  show "set (sm_get_subscribers list_submap t m) \<subseteq> lm_client_set m"
    by (auto simp: list_submap_def lm_matching_def)
  show "set (sm_get_subscribers list_submap t m) = {c. \<exists>p. (p, c) \<in> lm_sub_set m \<and> topic_matches p t}"
    using m by (force simp: list_submap_def lm_matching_def lm_invar_def list_ex_iff)
qed (auto simp: list_submap_def lm_invar_def lm_known_def)

section \<open>A bounded queue\<close>

record fifo =
  q_list :: "MessageFrame list"
  q_cap :: nat
  q_closed :: bool

definition fifo_ops :: "fifo chan_ops" where
  "fifo_ops =
     \<lparr>ch_bounded = (\<lambda>n. \<lparr>q_list = [], q_cap = n, q_closed = False\<rparr>),
      ch_is_full = (\<lambda>q. q_cap q \<le> length (q_list q)),
      ch_send = (\<lambda>f q. if q_closed q then (False, q) else (True, q\<lparr>q_list := q_list q @ [f]\<rparr>)),
      ch_recv = (\<lambda>q. case q_list q of
          [] \<Rightarrow> (None, q)
        | f # fs \<Rightarrow> (Some f, q\<lparr>q_list := fs\<rparr>))\<rparr>"

interpretation chi: bounded_channel fifo_ops q_list q_cap q_closed
  by unfold_locales (auto simp: fifo_ops_def split: list.splits)

end
