(* ===== verification/Registry.thy ===== *)
theory Registry
  imports Crates
begin

text \<open>
  Correctness of the client database of \<^verbatim>\<open>src/src/pubsub.rs\<close>.  The calls that change it run
  one at a time under the write lock, in any order: \<open>db_step\<close> is one such call, with the guard
  that a session subscribes, unsubscribes and unregisters only the client it has registered.
  The invariant \<open>db_inv\<close> ties the token table to the subscription map; it holds in every
  reachable database.
\<close>

section \<open>The calls under the write lock\<close>

inductive db_step ::
  "'m submap_ops \<Rightarrow> (bytes \<Rightarrow> bytes) \<Rightarrow> nat \<Rightarrow> 'm ServerClientDB \<Rightarrow> 'm ServerClientDB \<Rightarrow> bool"
  for sm :: "'m submap_ops" and sha256 :: "bytes \<Rightarrow> bytes" and depth :: nat where
  step_register:
    "register_client sm sha256 login addr ref draws db = Some (r, draws', db') \<Longrightarrow>
     db_step sm sha256 depth db db'"
| step_unregister:
    "db_clients db (cl_token c) = Some c \<Longrightarrow>
     db_step sm sha256 depth db (unregister_client sm c db)"
| step_subscribe:
    "db_clients db (cl_token c) = Some c \<Longrightarrow>
     db_step sm sha256 depth db (snd (subscribe sm depth topic c db))"
| step_unsubscribe:
    "db_clients db (cl_token c) = Some c \<Longrightarrow>
     db_step sm sha256 depth db (snd (unsubscribe sm depth topic c db))"

inductive db_reachable ::
  "'m submap_ops \<Rightarrow> (bytes \<Rightarrow> bytes) \<Rightarrow> nat \<Rightarrow> 'm ServerClientDB \<Rightarrow> bool"
  for sm :: "'m submap_ops" and sha256 :: "bytes \<Rightarrow> bytes" and depth :: nat where
  reach_start: "db_reachable sm sha256 depth (ServerClientDB_default sm)"
| reach_step: "db_reachable sm sha256 depth db \<Longrightarrow> db_step sm sha256 depth db db' \<Longrightarrow>
     db_reachable sm sha256 depth db'"

definition db_inv ::
  "('m \<Rightarrow> ServerClient set) \<Rightarrow> ('m \<Rightarrow> bool) \<Rightarrow> (bytes \<Rightarrow> bytes) \<Rightarrow> 'm ServerClientDB \<Rightarrow> bool" where
  "db_inv clients invar sha256 db \<longleftrightarrow>
     invar (db_submap db) \<and>
     (\<forall>t c. db_clients db t = Some c \<longrightarrow> cl_token c = t \<and> cl_digest c = sha256 (token_bytes t)) \<and>
     clients (db_submap db) = ran (db_clients db)"

section \<open>Lemmas\<close>

lemma subscribe_db:
  "snd (subscribe sm d topic c db) =
     (case prepare_topic d topic of
        Inl _ \<Rightarrow> db
      | Inr t \<Rightarrow> db\<lparr>db_submap := snd (sm_subscribe sm t c (db_submap db))\<rparr>)"
  by (simp add: subscribe_def io_bind_def split: sum.splits)

lemma unsubscribe_db:
  "snd (unsubscribe sm d topic c db) =
     (case prepare_topic d topic of
        Inl _ \<Rightarrow> db
      | Inr t \<Rightarrow> db\<lparr>db_submap := snd (sm_unsubscribe sm t c (db_submap db))\<rparr>)"
  by (simp add: unsubscribe_def io_bind_def split: sum.splits)

lemma subscribe_result:
  "fst (subscribe sm d topic c db) = map_err id (res_bind (prepare_topic d topic) (\<lambda>_. Inr ()))"
  "fst (unsubscribe sm d topic c db) = map_err id (res_bind (prepare_topic d topic) (\<lambda>_. Inr ()))"
  by (simp_all add: subscribe_def unsubscribe_def io_bind_def split: sum.splits)

lemma new_client_fields [simp]:
  "cl_token (new_client sha login addr ref token) = token"
  "cl_digest (new_client sha login addr ref token) = sha (token_bytes token)"
  "cl_ref (new_client sha login addr ref token) = ref"
  "cl_login (new_client sha login addr ref token) = login"
  "cl_addr (new_client sha login addr ref token) = addr"
  by (simp_all add: new_client_def)

context submap_laws
begin

abbreviation inv_db :: "(bytes \<Rightarrow> bytes) \<Rightarrow> 'm ServerClientDB \<Rightarrow> bool" where
  "inv_db \<equiv> db_inv clients invar"

lemma inv_dbD:
  assumes "inv_db sha db"
  shows "invar (db_submap db)" and "clients (db_submap db) = ran (db_clients db)"
    and "db_clients db t = Some c \<Longrightarrow> cl_token c = t"
    and "db_clients db t = Some c \<Longrightarrow> cl_digest c = sha (token_bytes t)"
    and "db_clients db t = Some c \<Longrightarrow> c \<in> clients (db_submap db)"
  using assms by (auto simp: db_inv_def ran_def)

lemma default_inv: "inv_db sha (ServerClientDB_default sm)"
  by (simp add: db_inv_def ServerClientDB_default_def new)

text \<open>In the table, digests determine tokens.\<close>

lemma digest_token:
  assumes "inv_db sha db" and "db_clients db t = Some c" and "db_clients db u = Some d"
    and "cl_digest c = cl_digest d"
  shows "t = u" and "c = d"
proof -
  show "c = d"
    using assms(4) inv_dbD(5) [OF assms(1,2)] inv_dbD(5) [OF assms(1,3)]
      digests_inj [OF inv_dbD(1) [OF assms(1)]] by (blast dest: inj_onD)
  then show "t = u"
    using inv_dbD(3) [OF assms(1,2)] inv_dbD(3) [OF assms(1,3)] by simp
qed

text \<open>One draw: refused exactly if a registered client has the token's digest.\<close>

lemma register_draw:
  assumes "inv_db sha db"
    and "sm_register_client sm (new_client sha login addr ref token) (db_submap db) = (ok, m)"
  shows "ok \<longleftrightarrow> sha (token_bytes token) \<notin> cl_digest ` clients (db_submap db)"
    and "\<not> ok \<Longrightarrow> inv_db sha (db\<lparr>db_submap := m\<rparr>)"
    and "ok \<Longrightarrow> db_clients db token = None"
    and "ok \<Longrightarrow> inv_db sha (db\<lparr>db_submap := m,
          db_clients := (db_clients db)(token \<mapsto> new_client sha login addr ref token)\<rparr>)"
proof -
  let ?c = "new_client sha login addr ref token"
  note iv = inv_dbD(1) [OF assms(1)]
  show ok: "ok \<longleftrightarrow> sha (token_bytes token) \<notin> cl_digest ` clients (db_submap db)"
    using register_result [OF iv, of ?c] assms(2) by simp
  have iv': "invar m"
    and cs: "clients m = (if ok then insert ?c (clients (db_submap db)) else clients (db_submap db))"
    using register_clients [OF iv, of ?c] invar_ops(1) [OF iv, of ?c] assms(2) ok by auto
  show "\<not> ok \<Longrightarrow> inv_db sha (db\<lparr>db_submap := m\<rparr>)"
    using assms(1) iv' cs by (simp add: db_inv_def)
  show none: "db_clients db token = None" if ok
  proof (rule ccontr)
    assume "db_clients db token \<noteq> None"
    then obtain c where c: "db_clients db token = Some c" by auto
    then have "sha (token_bytes token) \<in> cl_digest ` clients (db_submap db)"
      using inv_dbD(4,5) [OF assms(1) c] by (metis image_eqI)
    then show False using that ok by simp
  qed
  show "inv_db sha (db\<lparr>db_submap := m, db_clients := (db_clients db)(token \<mapsto> ?c)\<rparr>)" if ok
    using that assms(1) iv' cs none [OF that] by (auto simp: db_inv_def)
qed

lemma register_inv:
  assumes "inv_db sha db" and "register_client sm sha login addr ref draws db = Some (r, draws', db')"
  shows "inv_db sha db'"
  using assms
proof (induction draws arbitrary: db)
  case Nil
  then show ?case by simp
next
  case (Cons d draws)
  show ?case
  proof (cases "Token_create d")
    case (Inl e)
    then show ?thesis using Cons.prems by simp
  next
    case (Inr token)
    let ?c = "new_client sha login addr ref token"
    obtain ok m where m: "sm_register_client sm ?c (db_submap db) = (ok, m)"
      by (cases "sm_register_client sm ?c (db_submap db)")
    show ?thesis
      using register_draw [OF Cons.prems(1) m] Cons.IH [of "db\<lparr>db_submap := m\<rparr>"] Cons.prems(2) Inr m
      by (cases ok) (auto simp: Let_def)
  qed
qed

lemma unregister_inv:
  assumes "inv_db sha db" and c: "db_clients db (cl_token c) = Some c"
  shows "inv_db sha (unregister_client sm c db)"
proof -
  note iv = inv_dbD(1) [OF assms(1)]
  have "{d \<in> ran (db_clients db). \<not> client_eq d c} = ran ((db_clients db)(cl_token c := None))"
  proof (intro set_eqI iffI)
    fix d assume "d \<in> {d \<in> ran (db_clients db). \<not> client_eq d c}"
    then obtain t where t: "db_clients db t = Some d" and "cl_digest d \<noteq> cl_digest c"
      by (auto simp: ran_def client_eq_def)
    with c have "t \<noteq> cl_token c" by auto
    with t show "d \<in> ran ((db_clients db)(cl_token c := None))" by (auto simp: ran_def)
  next
    fix d assume "d \<in> ran ((db_clients db)(cl_token c := None))"
    then obtain t where t: "db_clients db t = Some d" and "t \<noteq> cl_token c"
      by (auto simp: ran_def split: if_splits)
    then show "d \<in> {d \<in> ran (db_clients db). \<not> client_eq d c}"
      using digest_token(1) [OF assms(1) t c] by (auto simp: ran_def client_eq_def)
  qed
  then show ?thesis
    using assms(1) unregister_clients [OF iv, of c] invar_ops(2) [OF iv, of c]
    by (auto simp: db_inv_def unregister_client_def)
qed

lemma subscribe_inv:
  assumes "inv_db sha db" and c: "db_clients db (cl_token c) = Some c"
  shows "inv_db sha (snd (subscribe sm d topic c db))"
    and "inv_db sha (snd (unsubscribe sm d topic c db))"
proof -
  note iv = inv_dbD(1) [OF assms(1)] and reg = inv_dbD(5) [OF assms]
  show "inv_db sha (snd (subscribe sm d topic c db))"
    using assms(1) invar_ops(3) [OF iv reg] subscribe_clients [OF iv reg]
    by (auto simp: subscribe_db db_inv_def split: sum.splits)
  show "inv_db sha (snd (unsubscribe sm d topic c db))"
    using assms(1) invar_ops(4) [OF iv reg] unsubscribe_clients [OF iv reg]
    by (auto simp: unsubscribe_db db_inv_def split: sum.splits)
qed

lemma step_inv:
  assumes "db_step sm sha depth db db'" and "inv_db sha db"
  shows "inv_db sha db'"
  using assms
proof (induction rule: db_step.induct)
  case step_register
  then show ?case by (blast intro: register_inv)
next
  case step_unregister
  then show ?case by (blast intro: unregister_inv)
next
  case step_subscribe
  then show ?case by (blast intro: subscribe_inv)
next
  case step_unsubscribe
  then show ?case by (blast intro: subscribe_inv)
qed

text \<open>A successful registration, and that a fresh draw ends the loop.\<close>

lemma register_success:
  assumes "inv_db sha db"
    and "register_client sm sha login addr ref draws db = Some (Inr c, draws', db')"
  shows "db_clients db' = (db_clients db)(cl_token c \<mapsto> c)" and "db_clients db (cl_token c) = None"
    and "c = new_client sha login addr ref (cl_token c)"
    and "subs (db_submap db') = subs (db_submap db)"
    and "Inr (token_bytes (cl_token c)) \<in> set draws"
proof -
  have "db_clients db' = (db_clients db)(cl_token c \<mapsto> c) \<and> db_clients db (cl_token c) = None \<and>
      c = new_client sha login addr ref (cl_token c) \<and> subs (db_submap db') = subs (db_submap db) \<and>
      Inr (token_bytes (cl_token c)) \<in> set draws"
    using assms
  proof (induction draws arbitrary: db)
    case (Cons d draws)
    obtain buf where d: "d = Inr buf" and t: "Token_create d = Inr (Token buf)"
      using Cons.prems(2) by (cases d) (auto simp: Token_create_def)
    let ?c = "new_client sha login addr ref (Token buf)"
    obtain ok m where m: "sm_register_client sm ?c (db_submap db) = (ok, m)"
      by (cases "sm_register_client sm ?c (db_submap db)")
    note draw = register_draw [OF Cons.prems(1) m]
      and sub = register_subs [OF inv_dbD(1) [OF Cons.prems(1)], of ?c]
    show ?case
    proof (cases ok)
      case True
      then have "c = ?c" and "db' = db\<lparr>db_submap := m, db_clients := (db_clients db)(Token buf \<mapsto> ?c)\<rparr>"
        using Cons.prems(2) t m by (auto simp: Let_def)
      then show ?thesis using draw(3) True sub d m by simp
    next
      case False
      then have "register_client sm sha login addr ref draws (db\<lparr>db_submap := m\<rparr>) = Some (Inr c, draws', db')"
        using Cons.prems(2) t m by simp
      from Cons.IH [OF draw(2) [OF False] this] show ?thesis using sub m by simp
    qed
  qed simp
  then show "db_clients db' = (db_clients db)(cl_token c \<mapsto> c)" and "db_clients db (cl_token c) = None"
    and "c = new_client sha login addr ref (cl_token c)"
    and "subs (db_submap db') = subs (db_submap db)"
    and "Inr (token_bytes (cl_token c)) \<in> set draws" by auto
qed

lemma register_failure:
  "inv_db sha db \<Longrightarrow> register_client sm sha login addr ref draws db = Some (Inl e, draws', db') \<Longrightarrow>
     db_clients db' = db_clients db"
proof (induction draws arbitrary: db)
  case (Cons d draws)
  show ?case
  proof (cases "Token_create d")
    case (Inr token)
    obtain ok m where m: "sm_register_client sm (new_client sha login addr ref token) (db_submap db) = (ok, m)"
      by (cases "sm_register_client sm (new_client sha login addr ref token) (db_submap db)")
    have "\<not> ok" and r: "register_client sm sha login addr ref draws (db\<lparr>db_submap := m\<rparr>) = Some (Inl e, draws', db')"
      using Cons.prems(2) Inr m by (auto simp: Let_def split: if_splits)
    then show ?thesis using Cons.IH [OF register_draw(2) [OF Cons.prems(1) m] r] by simp
  qed (use Cons.prems in simp)
qed simp

lemma register_ends:
  assumes "inv_db sha db" and "Inr buf \<in> set draws"
    and "sha buf \<notin> cl_digest ` ran (db_clients db)"
  shows "register_client sm sha login addr ref draws db \<noteq> None"
  using assms
proof (induction draws arbitrary: db)
  case (Cons d draws)
  show ?case
  proof (cases "Token_create d")
    case (Inr token)
    let ?c = "new_client sha login addr ref token"
    obtain ok m where m: "sm_register_client sm ?c (db_submap db) = (ok, m)"
      by (cases "sm_register_client sm ?c (db_submap db)")
    note draw = register_draw [OF Cons.prems(1) m]
    have "d = Inr buf \<Longrightarrow> ok"
      using draw(1) Cons.prems(3) inv_dbD(2) [OF Cons.prems(1)] Inr by (auto simp: Token_create_def)
    then show ?thesis
      using Cons.IH [OF draw(2)] Cons.prems(2,3) Inr m by (cases ok) (auto simp: Let_def)
  qed simp
qed simp

text \<open>Subscriptions and who receives a topic.\<close>

abbreviation all_wf :: "'m ServerClientDB \<Rightarrow> bool" where
  "all_wf db \<equiv> (\<forall>x \<in> subs (db_submap db). wf_pattern (fst x))"

lemma subscribers_exact:
  assumes "inv_db sha db" and "all_wf db" and "plain_topic t"
  shows "set (get_subscribers sm t db) = {c. \<exists>p. (p, c) \<in> subs (db_submap db) \<and> topic_matches p t}"
  using subscribers_set [OF inv_dbD(1) [OF assms(1)] assms(3)] assms(2)
  by (auto simp: get_subscribers_def)

lemma subscribe_exact:
  assumes "inv_db sha db" and c: "db_clients db (cl_token c) = Some c"
    and p: "prepare_topic depth topic = Inr p" and wf: "wf_pattern p"
  shows "subs (db_submap (snd (subscribe sm depth topic c db))) = insert (p, c) (subs (db_submap db))"
    and "subs (db_submap (snd (unsubscribe sm depth topic c db))) = subs (db_submap db) - {(p, c)}"
  using subscribe_subs [OF inv_dbD(1) [OF assms(1)] inv_dbD(5) [OF assms(1) c] wf]
    unsubscribe_subs [OF inv_dbD(1) [OF assms(1)] inv_dbD(5) [OF assms(1) c] wf] p
  by (simp_all add: subscribe_db unsubscribe_db)

lemma subscribe_receives:
  assumes "inv_db sha db" and "all_wf db" and c: "db_clients db (cl_token c) = Some c"
    and p: "prepare_topic depth topic = Inr p" and wf: "wf_pattern p" and t: "plain_topic t"
  shows "set (get_subscribers sm t (snd (subscribe sm depth topic c db))) =
      set (get_subscribers sm t db) \<union> (if topic_matches p t then {c} else {})"
proof -
  let ?db = "snd (subscribe sm depth topic c db)"
  note e = subscribe_exact(1) [OF assms(1) c p wf]
  have "all_wf ?db" using assms(2) wf by (auto simp: e)
  then show ?thesis
    using subscribers_exact [OF subscribe_inv(1) [OF assms(1) c] _ t, of depth topic]
      subscribers_exact [OF assms(1,2) t] e by auto
qed

lemma unregister_forgets:
  assumes "inv_db sha db" and c: "db_clients db (cl_token c) = Some c"
  shows "c \<notin> set (get_subscribers sm t (unregister_client sm c db))"
    and "subs (db_submap (unregister_client sm c db)) = {x \<in> subs (db_submap db). snd x \<noteq> c}"
proof -
  note iv = inv_dbD(1) [OF assms(1)] and iv' = inv_dbD(1,2) [OF unregister_inv [OF assms]]
  have "c \<notin> ran (db_clients (unregister_client sm c db))"
    using inv_dbD(3) [OF assms(1)] by (auto simp: unregister_client_def ran_def)
  then show "c \<notin> set (get_subscribers sm t (unregister_client sm c db))"
    using subscribers_registered [OF iv'(1), of t] iv'(2) by (auto simp: get_subscribers_def)
  have "client_eq (snd x) c \<longleftrightarrow> snd x = c" if "x \<in> subs (db_submap db)" for x
    using that subs_registered [OF iv] inv_dbD(5) [OF assms(1) c] digests_inj [OF iv]
    by (auto simp: client_eq_def dest: inj_onD)
  then show "subs (db_submap (unregister_client sm c db)) = {x \<in> subs (db_submap db). snd x \<noteq> c}"
    using unregister_subs [OF iv, of c] by (auto simp: unregister_client_def)
qed

lemma reachable_inv: "db_reachable sm sha depth db \<Longrightarrow> inv_db sha db"
  by (induction rule: db_reachable.induct) (auto intro: default_inv step_inv)

end

section \<open>Properties\<close>

text \<open>
  In every database that calls of \<^verbatim>\<open>register_client\<close>, \<^verbatim>\<open>unregister_client\<close>, \<^verbatim>\<open>subscribe\<close>
  and \<^verbatim>\<open>unsubscribe\<close> can produce, in any order, the token table and the subscription map agree:
  each client is stored under its own token, its digest is the SHA-256 of the token, no two
  clients share a digest, and the clients of the map are those of the table.
\<close>

lemma reachable_database_consistent:
  assumes "submap_laws sm clients subs invar" and "db_reachable sm sha256 depth db"
  shows "db_inv clients invar sha256 db \<and> inj_on cl_digest (ran (db_clients db)) \<and>
    snd ` subs (db_submap db) \<subseteq> ran (db_clients db)"
proof -
  note inv = submap_laws.reachable_inv [OF assms]
  note iv = submap_laws.inv_dbD(1,2) [OF assms(1) inv]
  show ?thesis
    using inv iv(2) submap_laws.digests_inj [OF assms(1) iv(1)] submap_laws.subs_registered [OF assms(1) iv(1)]
    by simp
qed

text \<open>
  C29: registering ends as soon as a drawn token has a digest that is not in use; a client it
  returns carries a drawn token that was not in the table, is then found under that token, and
  no other entry and no subscription changes.
\<close>

theorem register_client_fresh:
  assumes "submap_laws sm clients subs invar" and "db_inv clients invar sha256 db"
  shows "(Inr buf \<in> set draws \<and> sha256 buf \<notin> cl_digest ` ran (db_clients db) \<longrightarrow>
        register_client sm sha256 login addr ref draws db \<noteq> None) \<and>
     (\<forall>c draws' db'. register_client sm sha256 login addr ref draws db = Some (Inr c, draws', db') \<longrightarrow>
        Inr (token_as_bytes c) \<in> set draws \<and> cl_login c = login \<and> cl_addr c = addr \<and>
        db_clients db (cl_token c) = None \<and> db_clients db' = (db_clients db)(cl_token c \<mapsto> c) \<and>
        subs (db_submap db') = subs (db_submap db) \<and> db_inv clients invar sha256 db')"
proof -
  have "register_client sm sha256 login addr ref draws db \<noteq> None"
    if "Inr buf \<in> set draws" "sha256 buf \<notin> cl_digest ` ran (db_clients db)"
    using submap_laws.register_ends [OF assms that] .
  moreover have "Inr (token_as_bytes c) \<in> set draws \<and> cl_login c = login \<and> cl_addr c = addr \<and>
        db_clients db (cl_token c) = None \<and> db_clients db' = (db_clients db)(cl_token c \<mapsto> c) \<and>
        subs (db_submap db') = subs (db_submap db) \<and> db_inv clients invar sha256 db'"
    if r: "register_client sm sha256 login addr ref draws db = Some (Inr c, draws', db')" for c draws' db'
    using submap_laws.register_success [OF assms r] submap_laws.register_inv [OF assms r]
      new_client_fields(4,5) [of sha256 login addr ref "cl_token c"]
    by (simp add: token_as_bytes_def Token_as_bytes_def)
  ultimately show ?thesis by blast
qed

theorem register_client_fresh_witness:
  "\<exists>r. register_client list_submap id [] [] 0 [Inr (replicate 32 1)] (ServerClientDB_default list_submap) = Some r"
  using register_client_fresh [OF smi.submap_laws_axioms smi.default_inv [of id],
      of "replicate 32 1" "[Inr (replicate 32 1)]" "[]" "[]" 0]
  by (simp add: ServerClientDB_default_def)



end
