(* ===== verification/Passwords.thy ===== *)
theory Passwords
  imports Psrt_Lib
begin

text \<open>
  The password database, \<^verbatim>\<open>src/src/passwords.rs\<close>: an htpasswd-style file of \<^verbatim>\<open>login:hash\<close>
  lines.  The file system and \<^verbatim>\<open>bcrypt::verify\<close> are parameters.
\<close>

section \<open>The database\<close>

record Passwords =
  pw_file :: "str option"
  pw_map :: "(str \<rightharpoonup> str) option"

definition Passwords_default :: Passwords where
  "Passwords_default = \<lparr>pw_file = None, pw_map = None\<rparr>"

definition set_password_file :: "str \<Rightarrow> Passwords \<Rightarrow> Passwords" where
  "set_password_file path p = p\<lparr>pw_file := Some path\<rparr>"

definition colon :: u8 where
  "colon = of_char CHR '':''"

definition number_sign :: u8 where
  "number_sign = of_char CHR ''#''"

text \<open>The body of the loop over the lines: what one line adds to the map.\<close>

definition load_line :: "(str \<rightharpoonup> str) \<Rightarrow> str \<Rightarrow> (str \<rightharpoonup> str)" where
  "load_line m line =
     (let parts = split_on colon (str_trim line) in
      if length parts \<noteq> 2 then m
      else if str_starts_with [number_sign] (parts ! 0) then m
      else m(str_trim (parts ! 0) \<mapsto> str_trim (parts ! 1)))"

definition load_lines :: "str \<Rightarrow> (str \<rightharpoonup> str)" where
  "load_lines data = foldl load_line Map.empty (str_lines (str_trim data))"

definition Passwords_reload :: "(str \<Rightarrow> io_error + str) \<Rightarrow> (Passwords, Error, unit) io" where
  "Passwords_reload read_to_string =
     io_bind (io_get pw_file) (\<lambda>file.
     case file of
       Some path \<Rightarrow>
         io_bind (io_lift (map_err Error_from_io (read_to_string path))) (\<lambda>data.
         io_modify (\<lambda>p. p\<lparr>pw_map := Some (load_lines data)\<rparr>))
     | None \<Rightarrow> io_return ())"

definition verify :: "(str \<Rightarrow> str \<Rightarrow> 'e + bool) \<Rightarrow> Passwords \<Rightarrow> str \<Rightarrow> str \<Rightarrow> bool" where
  "verify bcrypt_verify p login password =
     (case pw_map p of
        Some m \<Rightarrow>
          (case m login of
             Some hash \<Rightarrow> (case bcrypt_verify password hash of Inl _ \<Rightarrow> False | Inr b \<Rightarrow> b)
           | None \<Rightarrow> False)
      | None \<Rightarrow> False)"

section \<open>Lemmas\<close>

lemma verify_True_iff:
  "verify bcrypt_verify p login password \<longleftrightarrow>
     (\<exists>m hash. pw_map p = Some m \<and> m login = Some hash \<and> bcrypt_verify password hash = Inr True)"
  by (auto simp: verify_def split: option.splits sum.splits)

lemma load_line_entry:
  assumes "str_trim line = login @ colon # hash"
    and "colon \<notin> set login" and "colon \<notin> set hash"
    and "\<not> str_starts_with [number_sign] login"
  shows "load_line m line = m(str_trim login \<mapsto> str_trim hash)"
proof -
  have "split_on colon (str_trim line) = [login, hash]"
    using assms(1-3) by (simp add: split_on_append split_on_no_sep)
  then show ?thesis using assms(4) by (simp add: load_line_def Let_def)
qed

lemma load_line_comment:
  assumes "str_starts_with [number_sign] (str_trim line)"
  shows "load_line m line = m"
proof -
  obtain s where s: "str_trim line = number_sign # s"
    using assms by (auto simp: str_starts_with_def prefix_def)
  obtain y ys where y: "split_on colon s = y # ys"
    using split_on_nonempty [of colon s] by (meson list.exhaust)
  have "split_on colon (str_trim line) = (number_sign # y) # ys"
    using s y by (simp add: colon_def number_sign_def)
  then show ?thesis by (simp add: load_line_def str_starts_with_def Let_def)
qed

subsection \<open>Files of printable entries\<close>

text \<open>Printable ASCII is never trimmed.\<close>

definition graphic :: "u8 \<Rightarrow> bool" where
  "graphic b \<longleftrightarrow> 33 \<le> b \<and> b \<le> 126"

lemma white_space_heads:
  "\<forall>w \<in> set white_space. w \<noteq> [] \<and> \<not> graphic (hd w)" "\<forall>w \<in> set (map rev white_space). w \<noteq> [] \<and> \<not> graphic (hd w)"
  by code_simp+

lemma strip_front_graphic:
  assumes "\<forall>w \<in> set seqs. w \<noteq> [] \<and> \<not> graphic (hd w)" and "s = [] \<or> graphic (hd s)"
  shows "strip_front seqs s = s"
proof (cases s)
  case (Cons c t)
  have "\<not> prefix w (c # t)" if "w \<in> set seqs" for w using assms that Cons by (cases w) auto
  then have "find (\<lambda>w. prefix w (c # t)) seqs = None" by (auto simp: find_None_iff)
  then show ?thesis using Cons by simp
qed simp

lemma str_trim_graphic:
  assumes "s = [] \<or> graphic (hd s) \<and> graphic (last s)"
  shows "str_trim s = s"
proof -
  have "strip_front white_space s = s" "strip_front (map rev white_space) (rev s) = rev s"
    using assms white_space_heads by (auto intro!: strip_front_graphic simp: hd_rev)
  then show ?thesis by (simp add: str_trim_def)
qed

lemma str_trim_newline:
  assumes "s \<noteq> []" and "graphic (hd s)" and "graphic (last s)"
  shows "str_trim (s @ [10]) = s"
proof -
  have 1: "strip_front white_space (s @ [10]) = s @ [10]"
    using assms white_space_heads by (intro strip_front_graphic) auto
  have "find (\<lambda>w. prefix w (10 # rev s)) (map rev white_space) = Some [10]" by (simp add: white_space_def)
  moreover have "strip_front (map rev white_space) (rev s) = rev s"
    using assms white_space_heads by (intro strip_front_graphic) (auto simp: hd_rev)
  ultimately have "strip_front (map rev white_space) (10 # rev s) = rev s" by simp
  then show ?thesis using 1 by (simp add: str_trim_def)
qed

text \<open>An entry of a file, and the file that lists some entries.\<close>

definition plain_entry :: "str \<times> str \<Rightarrow> bool" where
  "plain_entry e \<longleftrightarrow> fst e \<noteq> [] \<and> snd e \<noteq> [] \<and> (\<forall>b \<in> set (fst e @ snd e). graphic b \<and> b \<noteq> colon) \<and> hd (fst e) \<noteq> number_sign"

definition entry_line :: "str \<times> str \<Rightarrow> str" where
  "entry_line e = fst e @ colon # snd e"

definition password_file :: "(str \<times> str) list \<Rightarrow> str" where
  "password_file es = join_with 10 (map entry_line es) @ [10]"

lemma entry_line_ends:
  assumes "plain_entry e"
  shows "entry_line e \<noteq> []" "graphic (hd (entry_line e))" "graphic (last (entry_line e))" "10 \<notin> set (entry_line e)"
proof -
  have "\<not> graphic 10" "colon \<noteq> 10" by (simp_all add: graphic_def colon_def)
  then show "entry_line e \<noteq> []" "graphic (hd (entry_line e))" "graphic (last (entry_line e))" "10 \<notin> set (entry_line e)"
    using assms by (auto simp: plain_entry_def entry_line_def)
qed

lemma load_entry_line:
  assumes "plain_entry e"
  shows "load_line m (entry_line e) = m(fst e \<mapsto> snd e)"
proof -
  note ends = entry_line_ends [OF assms]
  have "str_trim (entry_line e) = fst e @ colon # snd e" using ends by (simp add: str_trim_graphic) (simp add: entry_line_def)
  moreover have "str_trim (fst e) = fst e" "str_trim (snd e) = snd e"
    using assms by (auto intro!: str_trim_graphic simp: plain_entry_def)
  moreover have "\<not> str_starts_with [number_sign] (fst e)" "colon \<notin> set (fst e)" "colon \<notin> set (snd e)"
    using assms by (auto simp: plain_entry_def str_starts_with_def prefix_def)
  ultimately show ?thesis using load_line_entry [of "entry_line e" "fst e" "snd e" m] by simp
qed

lemma join_lines_ends:
  assumes "ls \<noteq> []" and "\<forall>l \<in> set ls. l \<noteq> [] \<and> graphic (hd l) \<and> graphic (last l)"
  shows "join_with 10 ls \<noteq> [] \<and> graphic (hd (join_with 10 ls)) \<and> graphic (last (join_with 10 ls))"
  using assms by (induction "10 :: u8" ls rule: join_with.induct) auto

lemma load_lines_file:
  assumes "es \<noteq> []" and "\<forall>e \<in> set es. plain_entry e"
  shows "load_lines (password_file es) = map_of (rev es)"
proof -
  let ?ls = "map entry_line es"
  have l: "\<forall>l \<in> set ?ls. l \<noteq> [] \<and> graphic (hd l) \<and> graphic (last l) \<and> 10 \<notin> set l" using assms(2) entry_line_ends by auto
  have "str_trim (password_file es) = join_with 10 ?ls"
    using join_lines_ends [of ?ls] l assms(1) by (simp add: password_file_def str_trim_newline)
  moreover have "split_on 10 (join_with 10 ?ls) = ?ls" by (rule split_on_join) (use l assms(1) in auto)
  moreover have cr: "strip_cr x = x" if "x \<in> set ?ls" for x using l that by (auto simp: strip_cr_def graphic_def)
  moreover have "map strip_cr (butlast ?ls) = butlast ?ls"
    using cr by (intro map_idI) (auto simp del: set_map dest: in_set_butlastD)
  moreover have "last ?ls \<noteq> []" using l assms(1) by (metis last_in_set map_is_Nil_conv)
  ultimately have lines: "str_lines (str_trim (password_file es)) = ?ls"
    using assms(1) by (simp add: str_lines_def Let_def del: map_butlast)
  have "foldl load_line m (map entry_line es) = m ++ map_of (rev es)" for m
    using assms(2) by (induction es arbitrary: m) (auto simp: load_entry_line map_add_upd_left)
  then show ?thesis by (simp add: load_lines_def lines)
qed

section \<open>Properties\<close>

text \<open>
  C38: the password file means what it lists.  After loading a file with one line \<^verbatim>\<open>login:hash\<close> for
  each of some printable entries, a login succeeds exactly if its name is listed and bcrypt accepts
  the password against the hash of the last entry for the name; when the file cannot be read, the
  passwords in force stay.
\<close>

theorem verify_after_reload:
  assumes "pw_file p = Some path" and "es \<noteq> []" and "\<forall>e \<in> set es. plain_entry e"
  shows "(read_to_string path = Inr (password_file es) \<longrightarrow>
      (\<exists>p'. Passwords_reload read_to_string p = (Inr (), p') \<and>
        (\<forall>login password. verify bcrypt_verify p' login password \<longleftrightarrow>
           (\<exists>hash. map_of (rev es) login = Some hash \<and> bcrypt_verify password hash = Inr True)))) \<and>
    (read_to_string path = Inl e \<longrightarrow> Passwords_reload read_to_string p = (Inl (Error_from_io e), p))"
  using assms by (auto simp: Passwords_reload_def io_bind_def verify_True_iff load_lines_file)

theorem verify_after_reload_witness:
  "\<exists>p'. Passwords_reload (\<lambda>_. Inr (password_file [(lit ''admin'', lit ''old''), (lit ''admin'', lit ''new'')]))
      \<lparr>pw_file = Some [], pw_map = None\<rparr> = (Inr (), p') \<and>
    verify (\<lambda>password hash. Inr (password = hash) :: str + bool) p' (lit ''admin'') (lit ''new'') \<and>
    \<not> verify (\<lambda>password hash. Inr (password = hash) :: str + bool) p' (lit ''admin'') (lit ''old'')"
proof -
  let ?es = "[(lit ''admin'', lit ''old''), (lit ''admin'', lit ''new'')]"
  have e: "\<forall>e \<in> set ?es. plain_entry e" by code_simp
  have "lit ''new'' \<noteq> lit ''old''" by (simp add: lit_def)
  then show ?thesis
    using verify_after_reload [OF _ _ e, of "\<lparr>pw_file = Some [], pw_map = None\<rparr>" "[]" "\<lambda>_. Inr (password_file ?es)"
        "\<lambda>password hash. Inr (password = hash) :: str + bool"]
    by auto
qed

end
