(* ===== verification/Stats.thy ===== *)
theory Stats
  imports Prelude
begin

text \<open>
  The operation counters of the server, \<^verbatim>\<open>mod stats\<close> of \<^verbatim>\<open>src/src/server.rs\<close>.  The counters
  are 64-bit and wrap.
\<close>

record Counters =
  c_sub_ops :: u64
  c_pub_messages :: u64
  c_pub_bytes :: u64
  c_sent_messages :: u64
  c_sent_bytes :: u64
  c_sent_latency :: u64

definition Counters_default :: Counters where
  "Counters_default =
     \<lparr>c_sub_ops = 0, c_pub_messages = 0, c_pub_bytes = 0, c_sent_messages = 0, c_sent_bytes = 0,
      c_sent_latency = 0\<rparr>"

definition count_sub_ops :: "Counters \<Rightarrow> Counters" where
  "count_sub_ops c = c\<lparr>c_sub_ops := c_sub_ops c + 1\<rparr>"

definition count_pub_bytes :: "u64 \<Rightarrow> Counters \<Rightarrow> Counters" where
  "count_pub_bytes sz c =
     c\<lparr>c_pub_messages := c_pub_messages c + 1, c_pub_bytes := c_pub_bytes c + sz\<rparr>"

definition count_sent_bytes :: "u64 \<Rightarrow> u32 \<Rightarrow> Counters \<Rightarrow> Counters" where
  "count_sent_bytes sz latency c =
     c\<lparr>c_sent_messages := c_sent_messages c + 1, c_sent_bytes := c_sent_bytes c + sz,
       c_sent_latency := c_sent_latency c + ucast latency\<rparr>"

end
