(* ===== verification/Server_State.thy ===== *)
theory Server_State
  imports Registry Comm Passwords Keys Stats
begin

text \<open>
  The state of \<^verbatim>\<open>psrtd\<close>, \<^verbatim>\<open>src/src/server.rs\<close>: the statics set from the configuration by
  \<^verbatim>\<open>launch\<close>, the databases behind locks, the counters, the tasks spawned so far and the
  calls made to the replication module (which is not part of the repository).  What the
  server calls outside the repository is the record \<open>Ext\<close>: the \<^verbatim>\<open>submap\<close> and
  \<^verbatim>\<open>async_channel\<close> crates, SHA-256, bcrypt, OpenSSL's authenticated decryption, the system
  clock, and whether the \<^verbatim>\<open>cluster\<close> feature is compiled in.
\<close>

section \<open>The environment\<close>

record ('m, 'ch) Ext =
  ext_submap :: "'m submap_ops"
  ext_chan :: "'ch chan_ops"
  ext_sha256 :: "bytes \<Rightarrow> bytes"
  ext_bcrypt :: "str \<Rightarrow> str \<Rightarrow> str + bool"
  ext_aead :: aead
  ext_now_ns :: "instant \<Rightarrow> u64"
  ext_cluster :: bool

section \<open>The state\<close>

record Statics =
  ALLOW_ANONYMOUS :: bool
  MAX_PUB_SIZE :: nat
  MAX_TOPIC_LENGTH :: nat
  MAX_TOPIC_DEPTH :: nat
  DATA_QUEUE_SIZE :: nat
  LATENCY_WARN :: u32

text \<open>The accessors of the statics of \<^verbatim>\<open>src/src/pubsub.rs\<close>.\<close>

definition set_latency_warn :: "u32 \<Rightarrow> Statics \<Rightarrow> Statics" where
  [simp]: "set_latency_warn value st = st\<lparr>LATENCY_WARN := value\<rparr>"

definition set_data_queue_size :: "nat \<Rightarrow> Statics \<Rightarrow> Statics" where
  [simp]: "set_data_queue_size value st = st\<lparr>DATA_QUEUE_SIZE := value\<rparr>"

definition set_max_topic_depth :: "nat \<Rightarrow> Statics \<Rightarrow> Statics" where
  [simp]: "set_max_topic_depth depth st = st\<lparr>MAX_TOPIC_DEPTH := depth\<rparr>"

text \<open>A spawned task and what it owns: the beacon of a data channel, or the writer of a data stream.\<close>

datatype spawned =
    Pinger nat duration
  | DataStream SStream Token nat duration duration str str

record ('m, 'ch) Server =
  sv_statics :: Statics
  sv_db :: "'m ServerClientDB"
  sv_store :: "'ch store"
  sv_counters :: Counters
  sv_passwords :: Passwords
  sv_keys :: Keys
  sv_acls :: Db
  sv_draws :: "(str + bytes) list"
  sv_spawned :: "(nat \<times> spawned) list"
  sv_replicated :: "(u8 \<times> str \<times> bytes \<times> u64) list"

text \<open>A handler works on its own stream and on the shared server.\<close>

record ('m, 'ch) World =
  w_stream :: SStream
  w_server :: "('m, 'ch) Server"

type_synonym ('m, 'ch, 'a) handler = "(('m, 'ch) World, Error, 'a) io"

definition on_stream :: "'a stream_io \<Rightarrow> ('m, 'ch, 'a) handler" where
  "on_stream f w = (case f (w_stream w) of (r, s) \<Rightarrow> (r, w\<lparr>w_stream := s\<rparr>))"

definition on_server ::
  "(('m, 'ch) Server \<Rightarrow> ('m, 'ch) Server) \<Rightarrow> ('m, 'ch, unit) handler" where
  "on_server f w = (Inr (), w\<lparr>w_server := f (w_server w)\<rparr>)"

text \<open>The clock of the handler, and \<^verbatim>\<open>reduce_timeout(timeout, op_start)\<close> at this moment.\<close>

definition remaining :: "duration \<Rightarrow> instant \<Rightarrow> ('m, 'ch) World \<Rightarrow> duration" where
  "remaining timeout op_start w = reduce_timeout timeout op_start (s_now (w_stream w))"

definition count :: "(Counters \<Rightarrow> Counters) \<Rightarrow> ('m, 'ch) Server \<Rightarrow> ('m, 'ch) Server" where
  "count f sv = sv\<lparr>sv_counters := f (sv_counters sv)\<rparr>"

text \<open>A computation of the server state that returns a value.\<close>

definition with_server :: "(('m, 'ch) Server \<Rightarrow> 'a \<times> ('m, 'ch) Server) \<Rightarrow> ('m, 'ch, 'a) handler" where
  "with_server f w = (case f (w_server w) of (x, sv) \<Rightarrow> (Inr x, w\<lparr>w_server := sv\<rparr>))"

section \<open>Reading within the time of an operation\<close>

text \<open>\<^verbatim>\<open>stream.read_with_timeout(.., reduce_timeout(timeout, op_start))\<close>, and the same for frames.\<close>

definition read_within :: "nat \<Rightarrow> duration \<Rightarrow> instant \<Rightarrow> ('m, 'ch, bytes) handler" where
  "read_within n timeout op_start w = on_stream (read_with_timeout n (remaining timeout op_start w)) w"

definition frame_within :: "(Statics \<Rightarrow> nat) \<Rightarrow> duration \<Rightarrow> instant \<Rightarrow> ('m, 'ch, bytes) handler" where
  "frame_within limit timeout op_start w =
     on_stream (read_frame_with_timeout (Some (limit (sv_statics (w_server w)))) (remaining timeout op_start w)) w"

section \<open>Responses, logins, access lists\<close>

definition respond_status :: "u8 \<Rightarrow> ('m, 'ch, unit) handler" where
  "respond_status status = on_stream (stream_write [status])"

definition respond_ok :: "('m, 'ch, unit) handler" where
  "respond_ok = respond_status RESPONSE_OK"

definition respond_err :: "('m, 'ch, unit) handler" where
  "respond_err = respond_status RESPONSE_ERR"

definition respond_deny :: "('m, 'ch, unit) handler" where
  "respond_deny = respond_status RESPONSE_ERR_ACCESS"

definition format_login :: "str \<Rightarrow> str" where
  "format_login login = (if login = [] then lit ''anonymous'' else login)"

definition authenticate :: "('m, 'ch) Ext \<Rightarrow> ('m, 'ch) Server \<Rightarrow> str \<Rightarrow> str \<Rightarrow> bool" where
  "authenticate ext sv login password = verify (ext_bcrypt ext) (sv_passwords sv) login password"

definition get_acl :: "('m, 'ch) Server \<Rightarrow> str \<Rightarrow> Acl option" where
  "get_acl sv login = Db_get_acl (sv_acls sv) (if login = [] then lit ''_'' else login)"

definition ERR_INVALID_DATA_BLOCK :: str where
  "ERR_INVALID_DATA_BLOCK = lit ''Invalid data block''"

definition MAX_AUTH_FRAME_SIZE :: nat where
  "MAX_AUTH_FRAME_SIZE = 1024"

section \<open>Lemmas\<close>

lemma on_stream_simps [simp]:
  "f (w_stream w) = (r, s) \<Longrightarrow> on_stream f w = (r, w\<lparr>w_stream := s\<rparr>)"
  by (simp add: on_stream_def)

lemma on_stream_fst_snd:
  "fst (on_stream f w) = fst (f (w_stream w))"
  "snd (on_stream f w) = w\<lparr>w_stream := snd (f (w_stream w))\<rparr>"
  by (simp_all add: on_stream_def split: prod.split)

lemma on_stream_server [frame_simps, simp]:
  "w_server (snd (on_stream f w)) = w_server w"
  by (simp add: on_stream_fst_snd)

lemma on_server_simps [simp]:
  "on_server f w = (Inr (), w\<lparr>w_server := f (w_server w)\<rparr>)"
  by (simp add: on_server_def)

lemma with_server_server [simp]: "w_server (snd (with_server f w)) = snd (f (w_server w))"
  by (simp add: with_server_def split: prod.split)

lemma with_server_stream [simp]: "w_stream (snd (with_server f w)) = w_stream w"
  by (simp add: with_server_def split: prod.split)

lemma respond_status_ok:
  "s_wfault (w_stream w) = None \<Longrightarrow>
     respond_status b w = (Inr (), w\<lparr>w_stream := (w_stream w)\<lparr>s_out := s_out (w_stream w) @ [b]\<rparr>\<rparr>)"
  by (simp add: respond_status_def write_now_ok)

end
