(* ===== verification/Samples.thy ===== *)
theory Samples
  imports Server_State
begin

text \<open>
  A concrete server on the reference instances of the crates, on which the theorems about the
  server are evaluated: one registered client \<^verbatim>\<open>u\<close> with the token \<open>1\<dots>1\<close>, subscribed to \<^verbatim>\<open>a/+\<close>,
  with the data channel number 1 and the beacon task number 2.
\<close>

definition sample_ext :: "(list_map, fifo) Ext" where
  "sample_ext =
     \<lparr>ext_submap = list_submap, ext_chan = fifo_ops, ext_sha256 = id,
      ext_bcrypt = (\<lambda>password hash. Inr (password = hash)),
      ext_aead = sum_unseal,
      ext_now_ns = word_of_nat, ext_cluster = True\<rparr>"

definition sample_client :: ServerClient where
  "sample_client = new_client id (lit ''u'') (lit ''127.0.0.1:2000'') 0 (Token (replicate 32 1))"

definition sample_queue :: fifo where
  "sample_queue = \<lparr>q_list = [], q_cap = 2, q_closed = False\<rparr>"

definition sample_db :: "list_map ServerClientDB" where
  "sample_db =
     \<lparr>db_submap = \<lparr>lm_clients = [sample_client], lm_subs = [(lit ''a/+'', sample_client)]\<rparr>,
      db_clients = [Token (replicate 32 1) \<mapsto> sample_client]\<rparr>"

definition sample_store :: "fifo store" where
  "sample_store =
     \<lparr>st_cells = (\<lambda>_. empty_cell)(0 := \<lparr>data_channel = Some 1, client_tasks = [2]\<rparr>),
      st_chans = (\<lambda>_. sample_queue), st_aborted = {}, st_next = 3\<rparr>"

definition sample_acl :: Acl where
  "sample_acl =
     \<lparr>acl_admin = False, acl_replicator = False,
      acl_read = Some (PathMaskList_new {PathMask (Some [lit ''a'', lit ''+''])}),
      acl_write = Some (PathMaskList_new {PathMask (Some [lit ''a'', lit ''#''])})\<rparr>"

definition sample_server :: "(list_map, fifo) Server" where
  "sample_server =
     \<lparr>sv_statics = \<lparr>ALLOW_ANONYMOUS = False, MAX_PUB_SIZE = 100, MAX_TOPIC_LENGTH = 50, MAX_TOPIC_DEPTH = 9,
        DATA_QUEUE_SIZE = 2, LATENCY_WARN = 0\<rparr>,
      sv_db = sample_db, sv_store = sample_store, sv_counters = Counters_default,
      sv_passwords = \<lparr>pw_file = None, pw_map = Some [lit ''u'' \<mapsto> lit ''pw'']\<rparr>,
      sv_keys = \<lparr>key_file = None,
        key_map = Some [lit ''u'' \<mapsto> \<lparr>cipher_aes_128 = replicate 16 5, cipher_aes_256 = replicate 32 5\<rparr>]\<rparr>,
      sv_acls = \<lparr>db_acls = [lit ''u'' \<mapsto> sample_acl], db_path = []\<rparr>,
      sv_draws = [Inr (replicate 32 2)], sv_spawned = [(2, Pinger 1 1000)], sv_replicated = []\<rparr>"

text \<open>The same server before anybody has connected.\<close>

definition sample_start :: "(list_map, fifo) Server" where
  "sample_start = sample_server\<lparr>
     sv_db := ServerClientDB_default list_submap,
     sv_store := \<lparr>st_cells = (\<lambda>_. empty_cell), st_chans = (\<lambda>_. sample_queue), st_aborted = {}, st_next = 0\<rparr>,
     sv_draws := [Inr (replicate 32 1), Inr (replicate 32 2)], sv_spawned := []\<rparr>"

section \<open>Lemmas\<close>

lemma sample_ext_simps [simp]:
  "ext_submap sample_ext = list_submap" "ext_chan sample_ext = fifo_ops" "ext_sha256 sample_ext = id"
  "ext_cluster sample_ext" "ext_aead sample_ext = sum_unseal"
  by (simp_all add: sample_ext_def)

lemma sample_client_simps [simp]:
  "cl_token sample_client = Token (replicate 32 1)" "cl_ref sample_client = 0"
  "cl_digest sample_client = replicate 32 1" "cl_login sample_client = lit ''u''"
  by (simp_all add: sample_client_def new_client_def)

lemma sample_server_simps [simp]:
  "sv_db sample_server = sample_db" "sv_store sample_server = sample_store"
  by (simp_all add: sample_server_def)

lemma sample_channel [simp]: "bounded_channel (ext_chan sample_ext) q_list q_cap q_closed"
  using chi.bounded_channel_axioms by simp

lemma sample_submap [simp]: "submap_laws (ext_submap sample_ext) lm_client_set lm_sub_set lm_invar"
  using smi.submap_laws_axioms by simp

lemma sample_inv: "db_inv lm_client_set lm_invar id sample_db"
  by (simp add: db_inv_def lm_invar_def sample_db_def)

lemma sample_registered [simp]: "db_clients sample_db (Token (replicate 32 1)) = Some sample_client"
  by (simp add: sample_db_def)

lemma sample_data_channel [simp]: "get_data_channel sample_client sample_store = Some 1"
  by (simp add: get_data_channel_def sample_store_def)

lemma sample_chans [simp]: "st_chans sample_store n = sample_queue"
  by (simp add: sample_store_def)

end
