(* ===== verification/Server_Data.thy ===== *)
theory Server_Data
  imports Samples
begin

text \<open>
  The data side of the server, \<^verbatim>\<open>src/src/server.rs\<close>: queueing a publication for its
  subscribers (\<^verbatim>\<open>push_to_subscribers\<close>), attaching a data stream to a session
  (\<^verbatim>\<open>launch_data_stream\<close>) and writing the queue to it (\<^verbatim>\<open>handle_data_stream\<close>).
\<close>

section \<open>Queueing a publication\<close>

definition message_frame :: "u8 \<Rightarrow> str \<Rightarrow> bytes \<Rightarrow> bytes" where
  "message_frame priority topic message =
     [RESPONSE_OK, priority] @
     u32_to_le_bytes (word_of_nat (length topic) + word_of_nat (length message) + 1) @
     topic @ [0x00]"

text \<open>The body of the loop over the subscribers.\<close>

definition push_one ::
  "('m, 'ch) Ext \<Rightarrow> 'm ServerClientDB \<Rightarrow> MessageFrame \<Rightarrow> ServerClient \<Rightarrow> 'ch store \<Rightarrow> 'ch store" where
  "push_one ext db message s st =
     (case get_data_channel s st of
        None \<Rightarrow> st
      | Some dc \<Rightarrow>
          if ch_is_full (ext_chan ext) (st_chans st dc) then
            abort_tasks s (unregister_data_channel (cl_token s) db st)
          else
            st\<lparr>st_chans := (st_chans st)(dc := snd (ch_send (ext_chan ext) message (st_chans st dc)))\<rparr>)"

definition push_to_subscribers ::
  "('m, 'ch) Ext \<Rightarrow> ServerClient list \<Rightarrow> u8 \<Rightarrow> str \<Rightarrow> bytes \<Rightarrow> u64 \<Rightarrow>
     ('m, 'ch) Server \<Rightarrow> ('m, 'ch) Server" where
  "push_to_subscribers ext subscribers priority topic message timestamp sv =
     (let m = \<lparr>mf_timestamp = Some timestamp, mf_frame = message_frame priority topic message,
               mf_data = Some message\<rparr>
      in sv\<lparr>sv_store := fold (push_one ext (sv_db sv) m) subscribers (sv_store sv)\<rparr>)"

section \<open>Attaching a data stream\<close>

definition empty_message :: MessageFrame where
  "empty_message = \<lparr>mf_timestamp = None, mf_frame = [OP_NOP], mf_data = None\<rparr>"

text \<open>\<^verbatim>\<open>u64::from(buf[0]) * 1000 / 2\<close> milliseconds.\<close>

definition beacon_freq_ms :: "u8 \<Rightarrow> nat" where
  "beacon_freq_ms b = unat b * 1000 div 2"

definition beacon_interval_of :: "u8 \<Rightarrow> duration" where
  "beacon_interval_of b = beacon_freq_ms b * 1000000"

text \<open>\<^verbatim>\<open>tokio::spawn\<close>: a new task number, recorded with what the task owns.\<close>

definition spawn :: "spawned \<Rightarrow> ('m, 'ch) Server \<Rightarrow> nat \<times> ('m, 'ch) Server" where
  "spawn task sv =
     (let n = st_next (sv_store sv) in
      (n, sv\<lparr>sv_store := (sv_store sv)\<lparr>st_next := Suc n\<rparr>, sv_spawned := sv_spawned sv @ [(n, task)]\<rparr>))"

definition spawn_for :: "ServerClient \<Rightarrow> spawned \<Rightarrow> ('m, 'ch) Server \<Rightarrow> ('m, 'ch) Server" where
  "spawn_for client task sv =
     (case spawn task sv of (n, sv') \<Rightarrow> sv'\<lparr>sv_store := register_task client n (sv_store sv')\<rparr>)"

text \<open>\<^verbatim>\<open>async_channel::bounded\<close>: a new queue, by number.\<close>

definition new_channel :: "('m, 'ch) Ext \<Rightarrow> ('m, 'ch) Server \<Rightarrow> nat \<times> ('m, 'ch) Server" where
  "new_channel ext sv =
     (let st = sv_store sv; n = st_next st in
      (n, sv\<lparr>sv_store := st\<lparr>st_next := Suc n,
             st_chans := (st_chans st)(n := ch_bounded (ext_chan ext) (DATA_QUEUE_SIZE (sv_statics sv)))\<rparr>\<rparr>))"

definition attach ::
  "('m, 'ch) Ext \<Rightarrow> Token \<Rightarrow> ('m, 'ch) Server \<Rightarrow> (nat \<times> ServerClient) result \<times> ('m, 'ch) Server" where
  "attach ext token sv =
     (case new_channel ext sv of (tx, sv1) \<Rightarrow>
      case register_data_channel token tx (sv_db sv1) (sv_store sv1) of (res, st) \<Rightarrow>
      (res, sv1\<lparr>sv_store := st\<rparr>))"

definition launch_data_stream ::
  "('m, 'ch) Ext \<Rightarrow> duration \<Rightarrow> ('m, 'ch, unit) handler" where
  "launch_data_stream ext timeout =
     io_bind (io_get (\<lambda>w. s_now (w_stream w))) (\<lambda>op_start.
     io_bind (on_stream (stream_read 32)) (\<lambda>tok.
     let token = Token_from tok in
     io_bind (read_within 1 timeout op_start) (\<lambda>buf.
     io_bind (with_server (attach ext token)) (\<lambda>res.
     case res of
       Inr (channel, client) \<Rightarrow>
         io_bind respond_ok (\<lambda>_.
         let beacon_interval = beacon_interval_of (hd buf) in
         io_bind (on_server (spawn_for client (Pinger channel beacon_interval))) (\<lambda>_.
         io_bind (io_get w_stream) (\<lambda>stream.
         on_server (spawn_for client
           (DataStream stream token channel timeout beacon_interval
              (format_login (cl_login client)) (cl_addr client))))))
     | Inl e \<Rightarrow> io_bind respond_err (\<lambda>_. io_throw e)))))"

section \<open>Writing the queue\<close>

text \<open>
  The writer runs on its own stream and the counters.  A received message comes with the time
  at which it is taken from the queue and the system clock after it has been written.
\<close>

record writer =
  wr_stream :: SStream
  wr_counters :: Counters
  wr_last_command :: instant

record received =
  rc_message :: MessageFrame
  rc_at :: instant
  rc_now_ns :: u64

text \<open>How an iteration of the loop ends: with the next one, with a return, or with a panic.\<close>

datatype flow = Continue | Return "unit result" | Panic str

text \<open>\<^verbatim>\<open>eof_is_ok!\<close> followed by the rest of the iteration.\<close>

definition eof_is_ok :: "unit stream_io \<Rightarrow> (writer \<Rightarrow> flow \<times> writer) \<Rightarrow> writer \<Rightarrow> flow \<times> writer" where
  "eof_is_ok f k wr =
     (case f (wr_stream wr) of
        (Inr _, s) \<Rightarrow> k (wr\<lparr>wr_stream := s\<rparr>)
      | (Inl e, s) \<Rightarrow>
          (if err_kind e = Eof then Return (Inr ()) else Return (Inl e), wr\<lparr>wr_stream := s\<rparr>))"

definition latency_mks :: "u64 \<Rightarrow> u64 \<Rightarrow> u32" where
  "latency_mks now timestamp = ucast ((now - timestamp) div 1000)"

text \<open>
  The statements on a timestamped message after it has been written: count it, and warn about
  a high latency.  The warning prints the topic, which it takes from the frame with \<^verbatim>\<open>unwrap\<close>.
\<close>

definition account :: "u32 \<Rightarrow> received \<Rightarrow> (writer \<Rightarrow> flow \<times> writer) \<Rightarrow> writer \<Rightarrow> flow \<times> writer" where
  "account latency_warn rc k wr =
     (case mf_timestamp (rc_message rc) of
        None \<Rightarrow> k wr
      | Some timestamp \<Rightarrow>
          let latency = latency_mks (rc_now_ns rc) timestamp;
              sent = length (mf_frame (rc_message rc)) +
                     (case mf_data (rc_message rc) of None \<Rightarrow> 0 | Some v \<Rightarrow> length v);
              wr' = wr\<lparr>wr_counters := count_sent_bytes (word_of_nat sent) latency (wr_counters wr)\<rparr>
          in if latency > latency_warn then
               (if length (mf_frame (rc_message rc)) < 6 then
                  (Panic (lit ''range start index out of range for slice''), wr')
                else case from_utf8 (hd (splitn2 0 (drop 6 (mf_frame (rc_message rc))))) of
                       Inl _ \<Rightarrow> (Panic (lit ''called Result::unwrap() on an Err value''), wr')
                     | Inr _ \<Rightarrow> k wr')
             else k wr')"

definition data_step ::
  "duration \<Rightarrow> duration \<Rightarrow> u32 \<Rightarrow> received \<Rightarrow> writer \<Rightarrow> flow \<times> writer" where
  "data_step timeout beacon_interval latency_warn rc wr0 =
     (let m = rc_message rc;
          wr = wr0\<lparr>wr_stream := (wr_stream wr0)\<lparr>s_now := rc_at rc\<rparr>\<rparr>;
          done = (\<lambda>wr. (Continue, wr\<lparr>wr_last_command := s_now (wr_stream wr)\<rparr>))
      in case mf_frame m of
           [] \<Rightarrow> (Panic (lit ''index out of bounds''), wr)
         | op # _ \<Rightarrow>
             if op = OP_NOP then
               (if s_now (wr_stream wr) - wr_last_command wr < beacon_interval then (Continue, wr)
                else eof_is_ok (stream_write [OP_NOP]) done wr)
             else
               let op_start = s_now (wr_stream wr) in
               eof_is_ok (stream_write (mf_frame m))
                 (\<lambda>wr. case mf_data m of
                    Some data \<Rightarrow>
                      eof_is_ok
                        (write_with_timeout data (reduce_timeout timeout op_start (s_now (wr_stream wr))))
                        (account latency_warn rc done) wr
                  | None \<Rightarrow> account latency_warn rc done wr) wr)"

text \<open>
  The loop over the messages received until the queue is closed, and the task around it, which
  unregisters the data channel when the writer fails.
\<close>

fun handle_data_stream ::
  "duration \<Rightarrow> duration \<Rightarrow> u32 \<Rightarrow> received list \<Rightarrow> writer \<Rightarrow> flow \<times> writer" where
  "handle_data_stream timeout beacon_interval latency_warn [] wr = (Return (Inr ()), wr)"
| "handle_data_stream timeout beacon_interval latency_warn (rc # rcs) wr =
     (case data_step timeout beacon_interval latency_warn rc wr of
        (Continue, wr') \<Rightarrow> handle_data_stream timeout beacon_interval latency_warn rcs wr'
      | (r, wr') \<Rightarrow> (r, wr'))"

definition data_task ::
  "Token \<Rightarrow> duration \<Rightarrow> duration \<Rightarrow> u32 \<Rightarrow> received list \<Rightarrow> writer \<Rightarrow>
     'm ServerClientDB \<Rightarrow> 'ch store \<Rightarrow> 'ch store" where
  "data_task token timeout beacon_interval latency_warn rcs wr db st =
     (case fst (handle_data_stream timeout beacon_interval latency_warn rcs wr) of
        Return (Inl _) \<Rightarrow> unregister_data_channel token db st
      | _ \<Rightarrow> st)"

text \<open>The beacon task: one more empty message, and whether the loop goes on.\<close>

definition pinger_step :: "('m, 'ch) Ext \<Rightarrow> nat \<Rightarrow> 'ch store \<Rightarrow> bool \<times> 'ch store" where
  "pinger_step ext channel st =
     (case ch_send (ext_chan ext) empty_message (st_chans st channel) of
        (sent, q) \<Rightarrow> (sent, st\<lparr>st_chans := (st_chans st)(channel := q)\<rparr>))"

section \<open>Lemmas\<close>

subsection \<open>Queueing\<close>

text \<open>No two clients share a data channel.\<close>

definition channels_private :: "'ch store \<Rightarrow> bool" where
  "channels_private st \<longleftrightarrow>
     (\<forall>r r' dc. data_channel (st_cells st r) = Some dc \<and> data_channel (st_cells st r') = Some dc
        \<longrightarrow> r = r')"

text \<open>What one publication does to one subscriber.\<close>

definition delivered ::
  "('m, 'ch) Ext \<Rightarrow> MessageFrame \<Rightarrow> 'ch store \<Rightarrow> 'ch store \<Rightarrow> ServerClient \<Rightarrow> bool" where
  "delivered ext m st st' s \<longleftrightarrow>
     (case get_data_channel s st of
        None \<Rightarrow> st_cells st' (cl_ref s) = st_cells st (cl_ref s)
      | Some dc \<Rightarrow>
          if ch_is_full (ext_chan ext) (st_chans st dc) then
            get_data_channel s st' = None \<and>
            set (client_tasks (st_cells st (cl_ref s))) \<subseteq> st_aborted st' \<and>
            st_chans st' dc = st_chans st dc
          else
            st_cells st' (cl_ref s) = st_cells st (cl_ref s) \<and>
            st_chans st' dc = snd (ch_send (ext_chan ext) m (st_chans st dc)))"

lemma push_one_other_cell:
  assumes "db_clients db (cl_token s) = Some s" and "r \<noteq> cl_ref s"
  shows "st_cells (push_one ext db m s st) r = st_cells st r"
  using assms
  by (auto simp: push_one_def abort_tasks_def unregister_data_channel_def Let_def split: option.splits)

lemma push_one_other_chan:
  "get_data_channel s st \<noteq> Some q \<Longrightarrow> st_chans (push_one ext db m s st) q = st_chans st q"
  by (auto simp: push_one_def abort_tasks_def unregister_data_channel_def Let_def split: option.splits)

lemma push_one_aborted_mono: "st_aborted st \<subseteq> st_aborted (push_one ext db m s st)"
  by (auto simp: push_one_def abort_tasks_def unregister_data_channel_def Let_def split: option.splits)

lemma push_one_delivered:
  assumes "db_clients db (cl_token s) = Some s"
  shows "delivered ext m st (push_one ext db m s st) s"
  using assms
  by (auto simp: delivered_def push_one_def abort_tasks_def unregister_data_channel_def
      get_data_channel_def Let_def split: option.splits)

lemma push_one_channel_back:
  assumes "db_clients db (cl_token s) = Some s"
    and "data_channel (st_cells (push_one ext db m s st) r) = Some q"
  shows "data_channel (st_cells st r) = Some q"
  using assms
  by (cases "r = cl_ref s")
    (auto simp: push_one_def abort_tasks_def unregister_data_channel_def get_data_channel_def Let_def
      split: option.splits if_splits)

lemma push_one_private:
  assumes "db_clients db (cl_token s) = Some s" and "channels_private st"
  shows "channels_private (push_one ext db m s st)"
  using assms(2) push_one_channel_back [OF assms(1)] unfolding channels_private_def by metis

lemma push_fold_other_cell:
  assumes "\<And>s. s \<in> set S \<Longrightarrow> db_clients db (cl_token s) = Some s"
    and "\<And>s. s \<in> set S \<Longrightarrow> cl_ref s \<noteq> r"
  shows "st_cells (fold (push_one ext db m) S st) r = st_cells st r"
  using assms
proof (induction S arbitrary: st)
  case (Cons s S)
  have "st_cells (push_one ext db m s st) r = st_cells st r"
    by (rule push_one_other_cell) (use Cons.prems in \<open>auto dest: not_sym\<close>)
  then show ?case using Cons by simp
qed simp

lemma push_fold_other_chan:
  assumes "\<And>s. s \<in> set S \<Longrightarrow> db_clients db (cl_token s) = Some s"
    and "\<And>s. s \<in> set S \<Longrightarrow> get_data_channel s st \<noteq> Some q"
  shows "st_chans (fold (push_one ext db m) S st) q = st_chans st q"
  using assms
proof (induction S arbitrary: st)
  case (Cons s S)
  have reg: "db_clients db (cl_token s) = Some s" using Cons.prems by simp
  have "get_data_channel u (push_one ext db m s st) \<noteq> Some q" if "u \<in> set S" for u
    using Cons.prems(2) [of u] that push_one_channel_back [OF reg, of ext m st "cl_ref u" q]
    by (auto simp: get_data_channel_def)
  moreover have "st_chans (push_one ext db m s st) q = st_chans st q"
    by (rule push_one_other_chan) (use Cons.prems in simp)
  ultimately show ?case using Cons by simp
qed simp

lemma push_fold_aborted_mono: "st_aborted st \<subseteq> st_aborted (fold (push_one ext db m) S st)"
proof (induction S arbitrary: st)
  case (Cons s S)
  show ?case using push_one_aborted_mono [of st ext db m s] Cons [of "push_one ext db m s st"] by simp
qed simp

lemma push_fold_delivered:
  assumes "\<And>s. s \<in> set S \<Longrightarrow> db_clients db (cl_token s) = Some s"
    and "distinct (map cl_ref S)" and "channels_private st" and "s \<in> set S"
  shows "delivered ext m st (fold (push_one ext db m) S st) s"
  using assms
proof (induction S arbitrary: st)
  case Nil
  then show ?case by simp
next
  case (Cons u S)
  let ?st = "push_one ext db m u st" and ?st' = "fold (push_one ext db m) (u # S) st"
  have reg: "db_clients db (cl_token u) = Some u" using Cons.prems by simp
  have regS: "\<And>s. s \<in> set S \<Longrightarrow> db_clients db (cl_token s) = Some s" using Cons.prems by simp
  show ?case
  proof (cases "s = u")
    case True
    have ref: "cl_ref v \<noteq> cl_ref u" if "v \<in> set S" for v
      using Cons.prems(2) that by (auto simp: image_iff)
    have cell: "st_cells ?st' (cl_ref u) = st_cells ?st (cl_ref u)"
      using push_fold_other_cell [OF regS, of S "cl_ref u" ext m ?st] ref by auto
    have chan: "st_chans ?st' dc = st_chans ?st dc" if "get_data_channel u st = Some dc" for dc
    proof -
      have "get_data_channel v ?st \<noteq> Some dc" if v: "v \<in> set S" for v
        using Cons.prems(3) push_one_other_cell [OF reg ref [OF v], of ext m st] ref [OF v]
          \<open>get_data_channel u st = Some dc\<close>
        unfolding channels_private_def get_data_channel_def by metis
      then show ?thesis using push_fold_other_chan [OF regS, of S ?st dc ext m] by auto
    qed
    have "st_aborted ?st \<subseteq> st_aborted ?st'"
      using push_fold_aborted_mono [of ?st ext db m S] by auto
    then show ?thesis
      using push_one_delivered [OF reg, of ext m st] cell chan True
      by (auto simp: delivered_def get_data_channel_def split: option.splits if_splits)
  next
    case False
    then have s: "s \<in> set S" using Cons.prems by simp
    then have ref: "cl_ref s \<noteq> cl_ref u" using Cons.prems(2) by (auto simp: image_iff)
    have d: "delivered ext m ?st ?st' s"
      using Cons.IH [OF regS _ push_one_private [OF reg Cons.prems(3)] s] Cons.prems(2) by simp
    have cell: "st_cells ?st (cl_ref s) = st_cells st (cl_ref s)"
      by (rule push_one_other_cell [OF reg ref])
    have "st_chans ?st dc = st_chans st dc" if "get_data_channel s st = Some dc" for dc
      using push_one_other_chan [of u st dc ext db m] Cons.prems(3) ref that
      by (auto simp: channels_private_def get_data_channel_def)
    then show ?thesis using d cell
      by (auto simp: delivered_def get_data_channel_def split: option.splits if_splits)
  qed
qed

context bounded_channel
begin

lemma delivered_queue:
  assumes "delivered ext m st st' s" and "ext_chan ext = ch" and dc: "get_data_channel s st = Some dc"
  shows "if length (queued (st_chans st dc)) < capacity (st_chans st dc) then
      get_data_channel s st' = Some dc \<and> capacity (st_chans st' dc) = capacity (st_chans st dc) \<and>
      queued (st_chans st' dc) = (if closed (st_chans st dc) then queued (st_chans st dc)
        else queued (st_chans st dc) @ [m])
    else
      get_data_channel s st' = None \<and> st_chans st' dc = st_chans st dc \<and>
      set (client_tasks (st_cells st (cl_ref s))) \<subseteq> st_aborted st'"
proof (cases "ch_is_full ch (st_chans st dc)")
  case True
  then show ?thesis using assms by (simp add: delivered_def is_full)
next
  case False
  then have "st_cells st' (cl_ref s) = st_cells st (cl_ref s)"
    and "st_chans st' dc = snd (ch_send ch m (st_chans st dc))"
    using assms by (simp_all add: delivered_def)
  then show ?thesis
    using False dc send_open [of "st_chans st dc" m] send_closed [of "st_chans st dc" m]
    by (auto simp: get_data_channel_def is_full send_frame)
qed

end

subsection \<open>Writing\<close>

lemma message_frame_not_Nil [simp]: "message_frame p topic d \<noteq> []"
  by (simp add: message_frame_def)

lemma message_frame_hd [simp]: "hd (message_frame p topic d) = RESPONSE_OK"
  by (simp add: message_frame_def)

lemma length_message_frame: "length (message_frame p topic d) = 7 + length topic"
  by (simp add: message_frame_def)

lemma drop6_message_frame: "drop 6 (message_frame p topic d) = topic @ [0]"
  by (simp add: message_frame_def)

text \<open>The messages the server queues: beacons, and publications on a topic that is valid UTF-8.\<close>

definition queued_message :: "MessageFrame \<Rightarrow> bool" where
  "queued_message m \<longleftrightarrow> m = empty_message \<or>
     (\<exists>p t d ts. m = \<lparr>mf_timestamp = Some ts, mf_frame = message_frame p t d, mf_data = Some d\<rparr> \<and> utf8_valid t)"

text \<open>What one queued message may add to the wire: a beacon one byte or nothing.\<close>

definition wire_of :: "MessageFrame \<Rightarrow> bytes \<Rightarrow> bool" where
  "wire_of m b \<longleftrightarrow>
     (if m = empty_message then b = [] \<or> b = [OP_NOP]
      else b = mf_frame m @ (case mf_data m of Some d \<Rightarrow> d | None \<Rightarrow> []))"

lemma account_no_panic:
  assumes "queued_message (rc_message rc)" and "rc_message rc \<noteq> empty_message"
  shows "\<exists>c. account w rc k wr = k (wr\<lparr>wr_counters := c\<rparr>)"
proof -
  from assms obtain p t d ts
    where m: "rc_message rc = \<lparr>mf_timestamp = Some ts, mf_frame = message_frame p t d, mf_data = Some d\<rparr>"
      and t: "utf8_valid t"
    by (auto simp: queued_message_def)
  have "utf8_valid (t @ [0])" using t utf8_valid_ascii_cut [of 0 t "[]"] by simp
  then have "utf8_valid (hd (splitn2 0 (t @ [0])))"
    by (rule utf8_valid_splitn2 [where c = 0]) (auto simp: splitn2_def split: option.splits)
  then show ?thesis
    using m by (auto simp: account_def Let_def length_message_frame drop6_message_frame from_utf8_valid)
qed

lemma data_step_wire:
  assumes "queued_message (rc_message rc)" and "s_wfault (wr_stream wr) = None"
  obtains b wr' where "data_step timeout bi lw rc wr = (Continue, wr')" and "wire_of (rc_message rc) b"
    and "s_out (wr_stream wr') = s_out (wr_stream wr) @ b" and "s_wfault (wr_stream wr') = None"
proof (cases "rc_message rc = empty_message")
  case True
  show thesis
  proof (cases "rc_at rc - wr_last_command wr < bi")
    case skip: True
    show thesis
      by (rule that [of "wr\<lparr>wr_stream := (wr_stream wr)\<lparr>s_now := rc_at rc\<rparr>\<rparr>" "[]"])
        (use True skip assms(2) in \<open>simp_all add: data_step_def empty_message_def wire_of_def\<close>)
  next
    case False
    show thesis
      by (rule that [of "wr\<lparr>wr_stream := (wr_stream wr)\<lparr>s_now := rc_at rc, s_out := s_out (wr_stream wr) @ [OP_NOP]\<rparr>,
            wr_last_command := rc_at rc\<rparr>" "[OP_NOP]"])
        (use True False assms(2) in
          \<open>simp_all add: data_step_def empty_message_def wire_of_def eof_is_ok_def write_now_ok\<close>)
  qed
next
  case False
  with assms(1) obtain p t d ts
    where m: "rc_message rc = \<lparr>mf_timestamp = Some ts, mf_frame = message_frame p t d, mf_data = Some d\<rparr>"
    by (auto simp: queued_message_def)
  let ?b = "message_frame p t d @ d"
  let ?wr = "wr\<lparr>wr_stream := (wr_stream wr)\<lparr>s_now := rc_at rc, s_out := s_out (wr_stream wr) @ ?b\<rparr>\<rparr>"
  obtain f where f: "message_frame p t d = RESPONSE_OK # f" by (simp add: message_frame_def)
  obtain c where c: "account lw rc (\<lambda>wr. (Continue, wr\<lparr>wr_last_command := s_now (wr_stream wr)\<rparr>)) ?wr =
      (Continue, ?wr\<lparr>wr_counters := c, wr_last_command := rc_at rc\<rparr>)"
    using account_no_panic [OF assms(1) False, of lw "\<lambda>wr. (Continue, wr\<lparr>wr_last_command := s_now (wr_stream wr)\<rparr>)" ?wr]
    by auto
  show thesis
    by (rule that [of "?wr\<lparr>wr_counters := c, wr_last_command := rc_at rc\<rparr>" ?b])
      (use False m f c assms(2) in
        \<open>simp_all add: data_step_def wire_of_def eof_is_ok_def write_now_ok write_ok op_consts response_consts\<close>)
qed

lemma writer_wire:
  assumes "\<And>rc. rc \<in> set rcs \<Longrightarrow> queued_message (rc_message rc)" and "s_wfault (wr_stream wr) = None"
  shows "\<exists>bs wr'. handle_data_stream timeout bi lw rcs wr = (Return (Inr ()), wr') \<and>
    list_all2 wire_of (map rc_message rcs) bs \<and>
    s_out (wr_stream wr') = s_out (wr_stream wr) @ concat bs"
  using assms
proof (induction rcs arbitrary: wr)
  case Nil
  then show ?case by simp
next
  case (Cons rc rcs)
  obtain b wr1 where 1: "data_step timeout bi lw rc wr = (Continue, wr1)" and b: "wire_of (rc_message rc) b"
    and o1: "s_out (wr_stream wr1) = s_out (wr_stream wr) @ b" and f: "s_wfault (wr_stream wr1) = None"
    by (rule data_step_wire [of rc wr timeout bi lw]) (use Cons.prems in auto)
  obtain bs wr' where "handle_data_stream timeout bi lw rcs wr1 = (Return (Inr ()), wr')"
    and "list_all2 wire_of (map rc_message rcs) bs"
    and "s_out (wr_stream wr') = s_out (wr_stream wr1) @ concat bs"
    using Cons.IH [of wr1] Cons.prems f by auto
  then show ?case using 1 b o1 by (intro exI [of _ "b # bs"] exI [of _ wr']) simp
qed

lemma push_delivers:
  assumes "bounded_channel (ext_chan ext) queued capacity closed"
    and "\<forall>s \<in> set S. db_clients (sv_db sv) (cl_token s) = Some s"
    and "distinct (map cl_ref S)" and "channels_private (sv_store sv)"
    and "sv' = push_to_subscribers ext S priority topic message timestamp sv"
  shows "(\<forall>s \<in> set S. \<forall>dc. get_data_channel s (sv_store sv) = Some dc \<longrightarrow>
        (let q = st_chans (sv_store sv) dc; q' = st_chans (sv_store sv') dc in
         if length (queued q) < capacity q then
           get_data_channel s (sv_store sv') = Some dc \<and> capacity q' = capacity q \<and>
           queued q' = (if closed q then queued q
             else queued q @ [\<lparr>mf_timestamp = Some timestamp, mf_frame = message_frame priority topic message,
                               mf_data = Some message\<rparr>])
         else
           get_data_channel s (sv_store sv') = None \<and> q' = q \<and>
           set (client_tasks (st_cells (sv_store sv) (cl_ref s))) \<subseteq> st_aborted (sv_store sv'))) \<and>
     (\<forall>c. cl_ref c \<notin> cl_ref ` set S \<longrightarrow>
        st_cells (sv_store sv') (cl_ref c) = st_cells (sv_store sv) (cl_ref c))"
proof -
  let ?m = "\<lparr>mf_timestamp = Some timestamp, mf_frame = message_frame priority topic message, mf_data = Some message\<rparr>"
  let ?st = "sv_store sv"
  have st': "sv_store sv' = fold (push_one ext (sv_db sv) ?m) S ?st"
    by (simp add: assms(5) push_to_subscribers_def Let_def)
  have "delivered ext ?m ?st (sv_store sv') s" if "s \<in> set S" for s
    unfolding st' by (rule push_fold_delivered) (use assms that in auto)
  then have "\<forall>s \<in> set S. \<forall>dc. get_data_channel s ?st = Some dc \<longrightarrow>
      (let q = st_chans ?st dc; q' = st_chans (sv_store sv') dc in
       if length (queued q) < capacity q then
         get_data_channel s (sv_store sv') = Some dc \<and> capacity q' = capacity q \<and>
         queued q' = (if closed q then queued q else queued q @ [?m])
       else
         get_data_channel s (sv_store sv') = None \<and> q' = q \<and>
         set (client_tasks (st_cells ?st (cl_ref s))) \<subseteq> st_aborted (sv_store sv'))"
    unfolding Let_def using bounded_channel.delivered_queue [OF assms(1) _ refl] by blast
  moreover have "st_cells (sv_store sv') (cl_ref c) = st_cells ?st (cl_ref c)" if "cl_ref c \<notin> cl_ref ` set S" for c
    unfolding st' by (rule push_fold_other_cell) (use assms(2) that in \<open>auto simp: image_iff\<close>)
  ultimately show ?thesis by blast
qed

section \<open>Properties\<close>

text \<open>
  One publication reaches every subscriber on its own terms.  A subscriber without a data
  channel is skipped; one whose queue has room has the message appended at the end and keeps
  its channel; one whose queue is full gets nothing, loses its data channel and has its tasks
  aborted.  Clients that are not subscribers are untouched, and no queue grows past its bound.
\<close>

lemma push_to_subscribers_delivers:
  assumes "bounded_channel (ext_chan ext) queued capacity closed"
    and "\<forall>s \<in> set S. db_clients (sv_db sv) (cl_token s) = Some s"
    and "distinct (map cl_ref S)" and "channels_private (sv_store sv)"
    and "sv' = push_to_subscribers ext S priority topic message timestamp sv"
  shows "(\<forall>s \<in> set S. \<forall>dc. get_data_channel s (sv_store sv) = Some dc \<longrightarrow>
        (let q = st_chans (sv_store sv) dc; q' = st_chans (sv_store sv') dc in
         if length (queued q) < capacity q then
           get_data_channel s (sv_store sv') = Some dc \<and> capacity q' = capacity q \<and>
           queued q' = (if closed q then queued q
             else queued q @ [\<lparr>mf_timestamp = Some timestamp, mf_frame = message_frame priority topic message,
                               mf_data = Some message\<rparr>])
         else
           get_data_channel s (sv_store sv') = None \<and> q' = q \<and>
           set (client_tasks (st_cells (sv_store sv) (cl_ref s))) \<subseteq> st_aborted (sv_store sv'))) \<and>
     (\<forall>c. cl_ref c \<notin> cl_ref ` set S \<longrightarrow>
        st_cells (sv_store sv') (cl_ref c) = st_cells (sv_store sv) (cl_ref c))"
  using assms by (rule push_delivers)

lemma sample_private: "channels_private sample_store"
  by (auto simp: channels_private_def empty_cell_def sample_store_def)

text \<open>
  C28: the writer of a data stream puts the queued messages on the wire in the order of the
  queue, each publication exactly once and whole, each beacon as one byte or not at all, and
  when nothing fails it returns without a panic, whatever the latencies are.
\<close>

theorem writer_keeps_order:
  assumes "\<forall>rc \<in> set rcs. queued_message (rc_message rc)" and "s_wfault (wr_stream wr) = None"
  shows "\<exists>bs wr'. handle_data_stream timeout beacon_interval latency_warn rcs wr = (Return (Inr ()), wr') \<and>
    list_all2 wire_of (map rc_message rcs) bs \<and> s_out (wr_stream wr') = s_out (wr_stream wr) @ concat bs"
  using assms by (intro writer_wire) auto

theorem writer_keeps_order_witness:
  "\<exists>bs wr'. handle_data_stream 5 10 0
      [\<lparr>rc_message = empty_message, rc_at = 20, rc_now_ns = 0\<rparr>,
       \<lparr>rc_message = \<lparr>mf_timestamp = Some 1, mf_frame = message_frame 127 (lit ''t'') [9], mf_data = Some [9]\<rparr>,
        rc_at = 21, rc_now_ns = 0\<rparr>]
      \<lparr>wr_stream = SStream_new [] None 0 5, wr_counters = Counters_default, wr_last_command = 0\<rparr> =
        (Return (Inr ()), wr') \<and>
    list_all2 wire_of [empty_message,
        \<lparr>mf_timestamp = Some 1, mf_frame = message_frame 127 (lit ''t'') [9], mf_data = Some [9]\<rparr>] bs \<and>
    s_out (wr_stream wr') = concat bs"
proof -
  let ?m = "\<lparr>mf_timestamp = Some 1, mf_frame = message_frame 127 (lit ''t'') [9], mf_data = Some [9]\<rparr>"
  have "utf8_valid (lit ''t'')" by code_simp
  then have "queued_message ?m" by (auto simp: queued_message_def)
  moreover have "queued_message empty_message" by (simp add: queued_message_def)
  ultimately show ?thesis
    using writer_keeps_order [where timeout = 5 and beacon_interval = 10 and latency_warn = 0 and
        rcs = "[\<lparr>rc_message = empty_message, rc_at = 20, rc_now_ns = 0\<rparr>,
                \<lparr>rc_message = ?m, rc_at = 21, rc_now_ns = 0\<rparr>]" and
        wr = "\<lparr>wr_stream = SStream_new [] None 0 5, wr_counters = Counters_default, wr_last_command = 0\<rparr>"]
    by (simp add: SStream_new_def del: handle_data_stream.simps)
qed



end
