(* ===== verification/Server_Control.thy ===== *)
theory Server_Control
  imports Server_Data
begin

text \<open>
  The control side of the server, \<^verbatim>\<open>src/src/server.rs\<close>: the greeting of a connection, the login,
  and the loop \<^verbatim>\<open>process_control\<close> over the operations of a session.  A handler runs on its own
  stream and on the shared server, one operation at a time; the lock-protected parts of other
  sessions run before or after it.
\<close>

section \<open>Operations\<close>

text \<open>\<^verbatim>\<open>parse_topics!\<close>: the non-empty zero-separated pieces, each of which must be UTF-8.\<close>

fun utf8_pieces :: "bytes list \<Rightarrow> str list result" where
  "utf8_pieces [] = Inr []"
| "utf8_pieces (t # ts) =
     (if t = [] then utf8_pieces ts
      else res_bind (utf8 t) (\<lambda>s. res_bind (utf8_pieces ts) (\<lambda>ss. Inr (s # ss))))"

definition parse_topics :: "bytes \<Rightarrow> str list result" where
  "parse_topics data = utf8_pieces (split_on 0 data)"

text \<open>The loops over the topics under one write lock; \<^verbatim>\<open>break\<close> at the first failure.\<close>

fun subscribe_topics ::
  "('m, 'ch) Ext \<Rightarrow> ServerClient \<Rightarrow> Acl \<Rightarrow> str list \<Rightarrow> ('m, 'ch) Server \<Rightarrow> u8 \<times> ('m, 'ch) Server" where
  "subscribe_topics ext client acl [] sv = (RESPONSE_OK, sv)"
| "subscribe_topics ext client acl (topic # topics) sv =
     (if \<not> allow_read acl topic then (RESPONSE_ERR_ACCESS, sv)
      else
        (case subscribe (ext_submap ext) (MAX_TOPIC_DEPTH (sv_statics sv)) topic client (sv_db sv) of
           (Inl _, db) \<Rightarrow> (RESPONSE_ERR, sv\<lparr>sv_db := db\<rparr>)
         | (Inr _, db) \<Rightarrow> subscribe_topics ext client acl topics (count count_sub_ops (sv\<lparr>sv_db := db\<rparr>))))"

fun unsubscribe_topics ::
  "('m, 'ch) Ext \<Rightarrow> ServerClient \<Rightarrow> str list \<Rightarrow> ('m, 'ch) Server \<Rightarrow> bool \<times> ('m, 'ch) Server" where
  "unsubscribe_topics ext client [] sv = (True, sv)"
| "unsubscribe_topics ext client (topic # topics) sv =
     (case unsubscribe (ext_submap ext) (MAX_TOPIC_DEPTH (sv_statics sv)) topic client (sv_db sv) of
        (Inl _, db) \<Rightarrow> (False, sv\<lparr>sv_db := db\<rparr>)
      | (Inr _, db) \<Rightarrow> unsubscribe_topics ext client topics (count count_sub_ops (sv\<lparr>sv_db := db\<rparr>)))"

definition op_subscribe ::
  "('m, 'ch) Ext \<Rightarrow> ServerClient \<Rightarrow> Acl \<Rightarrow> duration \<Rightarrow> instant \<Rightarrow> ('m, 'ch, unit) handler" where
  "op_subscribe ext client acl timeout op_start =
     io_bind (frame_within MAX_TOPIC_LENGTH timeout op_start) (\<lambda>data.
     io_bind (io_lift (parse_topics data)) (\<lambda>topics.
     io_bind (with_server (subscribe_topics ext client acl topics)) respond_status))"

definition op_unsubscribe ::
  "('m, 'ch) Ext \<Rightarrow> ServerClient \<Rightarrow> duration \<Rightarrow> instant \<Rightarrow> ('m, 'ch, unit) handler" where
  "op_unsubscribe ext client timeout op_start =
     io_bind (frame_within MAX_TOPIC_LENGTH timeout op_start) (\<lambda>data.
     io_bind (io_lift (parse_topics data)) (\<lambda>topics.
     io_bind (with_server (unsubscribe_topics ext client topics)) (\<lambda>success.
     if success then respond_ok else respond_err)))"

text \<open>The part of \<^verbatim>\<open>OP_PUBLISH\<close> after the access check: queue, then replicate.\<close>

definition publish ::
  "('m, 'ch) Ext \<Rightarrow> u8 \<Rightarrow> str \<Rightarrow> bytes \<Rightarrow> u64 \<Rightarrow> ('m, 'ch) Server \<Rightarrow> ('m, 'ch) Server" where
  "publish ext priority topic data timestamp sv =
     (let subscribers = get_subscribers (ext_submap ext) topic (sv_db sv);
          sv1 = (if subscribers \<noteq> [] then push_to_subscribers ext subscribers priority topic data timestamp sv
                 else sv)
      in if ext_cluster ext then sv1\<lparr>sv_replicated := sv_replicated sv1 @ [(priority, topic, data, timestamp)]\<rparr>
         else sv1)"

definition has_invalid_symbols :: "str \<Rightarrow> bool" where
  "has_invalid_symbols topic \<longleftrightarrow> list_ex (\<lambda>b. b \<in> set TOPIC_INVALID_SYMBOLS) topic"

text \<open>\<^verbatim>\<open>OP_PUBLISH\<close> once the frame has been read.\<close>

definition publish_frame ::
  "('m, 'ch) Ext \<Rightarrow> Acl \<Rightarrow> u8 \<Rightarrow> u64 \<Rightarrow> bytes \<Rightarrow> ('m, 'ch, unit) handler" where
  "publish_frame ext acl priority timestamp buf =
     io_bind (on_server (count (count_pub_bytes (word_of_nat (length buf))))) (\<lambda>_.
     io_bind (io_lift (ok_or (Error_invalid_data ERR_INVALID_DATA_BLOCK) (position (\<lambda>n. n = 0) buf))) (\<lambda>npos.
     let data = drop (npos + 1) buf;
         buf1 = take (npos + 1) buf;
         buf2 = take (length buf1 - 1) buf1
     in if buf2 = [] then io_throw (Error_invalid_data ERR_INVALID_DATA_BLOCK)
        else
          io_bind (io_lift (utf8 buf2)) (\<lambda>t.
          io_bind (io_get (\<lambda>w. prepare_topic (MAX_TOPIC_DEPTH (sv_statics (w_server w))) t)) (\<lambda>prepared.
          case prepared of
            Inr topic \<Rightarrow>
              if has_invalid_symbols topic then io_throw (Error_invalid_data ERR_INVALID_DATA_BLOCK)
              else if allow_write acl topic then
                io_bind (on_server (publish ext priority topic data timestamp)) (\<lambda>_. respond_ok)
              else respond_deny
          | Inl _ \<Rightarrow> respond_err))))"

definition op_publish ::
  "('m, 'ch) Ext \<Rightarrow> Acl \<Rightarrow> duration \<Rightarrow> instant \<Rightarrow> ('m, 'ch, unit) handler" where
  "op_publish ext acl timeout op_start =
     io_bind (io_get (\<lambda>w. ext_now_ns ext (s_now (w_stream w)))) (\<lambda>timestamp.
     io_bind (read_within 1 timeout op_start) (\<lambda>prio.
     io_bind (frame_within MAX_PUB_SIZE timeout op_start) (\<lambda>buf.
     publish_frame ext acl (hd prio) timestamp buf)))"

definition op_publish_repl ::
  "('m, 'ch) Ext \<Rightarrow> Acl \<Rightarrow> duration \<Rightarrow> instant \<Rightarrow> ('m, 'ch, unit) handler" where
  "op_publish_repl ext acl timeout op_start =
     (if \<not> ext_cluster ext then
        io_throw (Error_invalid_data (lit ''Unsupported operation: OP_PUBLISH_REPL''))
      else
        io_bind (frame_within MAX_TOPIC_LENGTH timeout op_start) (\<lambda>topic_data.
        io_bind (io_lift (utf8 topic_data)) (\<lambda>topic.
        if is_replicator acl then
          io_bind (io_get (\<lambda>w. get_subscribers (ext_submap ext) topic (sv_db (w_server w)))) (\<lambda>subscribers.
          if subscribers = [] then respond_status RESPONSE_NOT_REQUIRED
          else
            io_bind (respond_status RESPONSE_OK_WAITING) (\<lambda>_.
            io_bind (read_within 1 timeout op_start) (\<lambda>prio.
            io_bind (read_within 8 timeout op_start) (\<lambda>ts_buf.
            io_bind (frame_within MAX_PUB_SIZE timeout op_start) (\<lambda>data.
            io_bind (on_server (push_to_subscribers ext subscribers (hd prio) topic data
                (u64_from_le_bytes ts_buf))) (\<lambda>_.
            respond_ok))))))
        else respond_deny)))"

section \<open>The control loop\<close>

text \<open>The \<^verbatim>\<open>match cmd[0]\<close>: whether the loop goes on.\<close>

definition control_op ::
  "('m, 'ch) Ext \<Rightarrow> ServerClient \<Rightarrow> Acl \<Rightarrow> duration \<Rightarrow> instant \<Rightarrow> u8 \<Rightarrow> ('m, 'ch, bool) handler" where
  "control_op ext client acl timeout op_start cmd =
     (let go_on = (\<lambda>f. io_bind f (\<lambda>_. io_return True)) in
      if cmd = OP_NOP then go_on respond_ok
      else if cmd = OP_SUBSCRIBE then go_on (op_subscribe ext client acl timeout op_start)
      else if cmd = OP_UNSUBSCRIBE then go_on (op_unsubscribe ext client timeout op_start)
      else if cmd = OP_PUBLISH then go_on (op_publish ext acl timeout op_start)
      else if cmd = OP_PUBLISH_REPL then go_on (op_publish_repl ext acl timeout op_start)
      else if cmd = OP_BYE then io_bind respond_ok (\<lambda>_. io_return False)
      else io_throw (Error_invalid_data (lit ''Invalid operation: '' @ show_dec (unat cmd))))"

definition control_step ::
  "('m, 'ch) Ext \<Rightarrow> ServerClient \<Rightarrow> Acl \<Rightarrow> duration \<Rightarrow> ('m, 'ch, bool) handler" where
  "control_step ext client acl timeout =
     io_bind (io_get (\<lambda>w. s_now (w_stream w))) (\<lambda>op_start.
     io_bind (on_stream (stream_read 1)) (\<lambda>cmd.
     control_op ext client acl timeout op_start (hd cmd)))"

subsection \<open>Every round consumes input\<close>

definition shrinks :: "('m, 'ch) World \<Rightarrow> ('m, 'ch) World \<Rightarrow> bool" where
  "shrinks w w' \<longleftrightarrow> length (s_in (w_stream w')) \<le> length (s_in (w_stream w))"

lemma shrinks_order: "reflp shrinks" "transp shrinks"
  by (auto simp: shrinks_def reflp_def transp_def)

lemma shrinks_pieces:
  "io_keeps shrinks (read_within n t i)" "io_keeps shrinks (frame_within l t i)"
  "io_keeps shrinks (respond_status b)" "io_keeps shrinks respond_ok" "io_keeps shrinks respond_err"
  "io_keeps shrinks respond_deny" "io_keeps shrinks (on_server f)" "io_keeps shrinks (with_server g)"
  by (auto simp: io_keeps_def shrinks_def read_within_def frame_within_def on_stream_fst_snd
      respond_status_def respond_ok_def respond_err_def respond_deny_def stream_write_def with_server_def
      read_with_timeout_shorter read_frame_shorter split: prod.splits)

lemmas shrinks_intros = io_keeps_bind [OF shrinks_order(2)] io_keeps_pure [OF shrinks_order(1)] shrinks_pieces

lemma shrinks_control_op: "io_keeps shrinks (control_op ext client acl timeout op_start cmd)"
  by (auto simp: control_op_def op_subscribe_def op_unsubscribe_def op_publish_def publish_frame_def
      op_publish_repl_def Let_def intro!: shrinks_intros split: sum.split)

lemma control_step_consumes:
  assumes "control_step ext client acl timeout w = (Inr b, w')"
  shows "length (s_in (w_stream w')) < length (s_in (w_stream w))"
proof -
  obtain cmd s where r: "stream_read 1 (w_stream w) = (Inr cmd, s)"
    and c: "control_op ext client acl timeout (s_now (w_stream w)) (hd cmd) (w\<lparr>w_stream := s\<rparr>) = (Inr b, w')"
    using assms
    by (auto simp: control_step_def on_stream_def elim!: io_bind_Inr_cases split: prod.splits)
  have "length (s_in (w_stream w)) = Suc (length (s_in s))"
    using read_length_le [OF r [unfolded stream_read_def]] by (metis length_pending length_append plus_1_eq_Suc)
  moreover have "shrinks (w\<lparr>w_stream := s\<rparr>)
      (snd (control_op ext client acl timeout (s_now (w_stream w)) (hd cmd) (w\<lparr>w_stream := s\<rparr>)))"
    by (rule io_keepsD [OF shrinks_control_op])
  ultimately show ?thesis using c by (simp add: shrinks_def)
qed

function process_control ::
  "('m, 'ch) Ext \<Rightarrow> ServerClient \<Rightarrow> Acl \<Rightarrow> duration \<Rightarrow> ('m, 'ch, unit) handler" where
  "process_control ext client acl timeout w =
     (case control_step ext client acl timeout w of
        (Inl e, w') \<Rightarrow> (Inl e, w')
      | (Inr True, w') \<Rightarrow> process_control ext client acl timeout w'
      | (Inr False, w') \<Rightarrow> (Inr (), w'))"
  by pat_completeness auto
termination
  by (relation "measure (\<lambda>(_, _, _, _, w). length (s_in (w_stream w)))")
    (auto dest!: sym [THEN control_step_consumes])

declare process_control.simps [simp del]

text \<open>What every round keeps, the loop keeps.\<close>

lemma process_control_keeps:
  assumes "reflp R" and "transp R" and "io_keeps R (control_step ext c acl timeout)"
  shows "R w (snd (process_control ext c acl timeout w))"
  using assms(3)
proof (induction ext c acl timeout w rule: process_control.induct)
  case (1 ext c acl timeout w)
  obtain r w1 where r: "control_step ext c acl timeout w = (r, w1)" by (cases "control_step ext c acl timeout w")
  have step: "R w w1" using io_keepsD [OF "1.prems", of w] r by simp
  show ?case
  proof (cases "r = Inr True")
    case True
    then have "R w1 (snd (process_control ext c acl timeout w1))" using "1" r by simp
    then show ?thesis using step True r assms(2) by (subst process_control.simps) (auto dest: transpD)
  next
    case False
    then show ?thesis using step r by (subst process_control.simps) (auto split: sum.split bool.split)
  qed
qed

section \<open>Greeting\<close>

datatype StreamType = Control | Data

definition greeting_type :: "bytes \<Rightarrow> StreamType result" where
  "greeting_type greeting =
     (let header = take 2 greeting in
      if header = CONTROL_HEADER then Inr Control
      else if header = DATA_HEADER then Inr Data
      else Inl (Error_io (lit ''Invalid greeting header: ['' @ show_hex (unat (header ! 0)) @ lit '', '' @
                          show_hex (unat (header ! 1)) @ lit '']'')))"

definition reply_header :: "bytes \<Rightarrow> bytes" where
  "reply_header greeting = take 2 greeting @ u16_to_le_bytes PROTOCOL_VERSION"

text \<open>\<^verbatim>\<open>SStream::new(client_stream, timeout)\<close> around the accepted socket.\<close>

definition wrap_stream :: "duration \<Rightarrow> SStream \<Rightarrow> SStream" where
  "wrap_stream timeout s = s\<lparr>s_timeout := timeout\<rparr>"

definition init_unix_stream :: "duration \<Rightarrow> ('m, 'ch, StreamType) handler" where
  "init_unix_stream timeout =
     io_bind (on_stream (read_with_timeout 3 timeout)) (\<lambda>greeting.
     io_bind (io_lift (greeting_type greeting)) (\<lambda>stream_type.
     io_bind (on_stream (io_modify (wrap_stream timeout))) (\<lambda>_.
     io_bind (on_stream (stream_write (reply_header greeting))) (\<lambda>_.
     io_return stream_type))))"

text \<open>
  A TLS acceptor turns the raw connection into the one that carries the plain text, or fails;
  \<open>nodelay\<close> is the outcome of setting the socket option.
\<close>

type_synonym acceptor = "SStream \<Rightarrow> str + SStream"

definition accept_tls :: "acceptor \<Rightarrow> unit stream_io" where
  "accept_tls a s = (case a s of Inl e \<Rightarrow> (Inl (Error_from_tls e), s) | Inr s' \<Rightarrow> (Inr (), s'))"

definition init_tcp_stream ::
  "duration \<Rightarrow> acceptor option \<Rightarrow> bool \<Rightarrow> io_error + unit \<Rightarrow> ('m, 'ch, StreamType) handler" where
  "init_tcp_stream timeout acceptor allow_no_tls nodelay =
     io_bind (io_lift (map_err Error_from_io nodelay)) (\<lambda>_.
     io_bind (on_stream (read_with_timeout 3 timeout)) (\<lambda>greeting.
     io_bind (io_lift (greeting_type greeting)) (\<lambda>stream_type.
     io_bind (let v = greeting ! 2 in
        if v = COMM_INSECURE then
          (if allow_no_tls then io_return ()
           else io_throw (Error_io (lit ''Communication without TLS is forbidden'')))
        else if v = COMM_TLS then
          (case acceptor of
             Some a \<Rightarrow> on_stream (accept_tls a)
           | None \<Rightarrow> io_throw (Error_io (lit ''TLS is not configured'')))
        else io_throw (Error_io (lit ''Invalid comm mode requested: '' @ show_dec (unat v)))) (\<lambda>_.
     io_bind (on_stream (io_modify (wrap_stream timeout))) (\<lambda>_.
     io_bind (on_stream (stream_write (reply_header greeting))) (\<lambda>_.
     io_return stream_type))))))"

section \<open>Sessions\<close>

text \<open>
  \<^verbatim>\<open>dbm!().register_client(login, addr)?\<close>: a new client object at a new address of the store, with
  no data channel and no tasks.
\<close>

definition register_session ::
  "('m, 'ch) Ext \<Rightarrow> str \<Rightarrow> str \<Rightarrow> ('m, 'ch) Server \<Rightarrow> (ServerClient result \<times> ('m, 'ch) Server) option" where
  "register_session ext login addr sv =
     (let ref = st_next (sv_store sv) in
      case register_client (ext_submap ext) (ext_sha256 ext) login addr ref (sv_draws sv) (sv_db sv) of
        None \<Rightarrow> None
      | Some (r, draws, db) \<Rightarrow>
          Some (r, sv\<lparr>sv_db := db, sv_draws := draws,
            sv_store := (sv_store sv)\<lparr>st_next := Suc ref,
              st_cells := (st_cells (sv_store sv))(ref := empty_cell)\<rparr>\<rparr>))"

definition end_session :: "('m, 'ch) Ext \<Rightarrow> ServerClient \<Rightarrow> ('m, 'ch) Server \<Rightarrow> ('m, 'ch) Server" where
  "end_session ext client sv =
     sv\<lparr>sv_db := unregister_client (ext_submap ext) client (sv_db sv),
        sv_store := abort_tasks client (sv_store sv)\<rparr>"

text \<open>The token is written, the operations run, and the client is unregistered.\<close>

definition run_session ::
  "('m, 'ch) Ext \<Rightarrow> ServerClient \<Rightarrow> Acl \<Rightarrow> duration \<Rightarrow> ('m, 'ch, bool) handler" where
  "run_session ext client acl timeout =
     io_bind (on_stream (stream_write (token_as_bytes client))) (\<lambda>_ w.
     case process_control ext client acl timeout w of
       (result, w') \<Rightarrow>
         io_bind (on_server (end_session ext client)) (\<lambda>_.
         io_bind (io_lift result) (\<lambda>_. io_return True)) w')"

text \<open>
  From the registration on.  \<open>None\<close> says that \<^verbatim>\<open>register_client\<close> is still drawing tokens.
\<close>

definition start_session ::
  "('m, 'ch) Ext \<Rightarrow> str \<Rightarrow> str \<Rightarrow> Acl \<Rightarrow> duration \<Rightarrow> ('m, 'ch) World \<Rightarrow>
     (bool result \<times> ('m, 'ch) World) option" where
  "start_session ext login addr acl timeout w =
     (case register_session ext login addr (w_server w) of
        None \<Rightarrow> None
      | Some (Inl e, sv) \<Rightarrow> Some (Inl e, w\<lparr>w_server := sv\<rparr>)
      | Some (Inr client, sv) \<Rightarrow> Some (run_session ext client acl timeout (w\<lparr>w_server := sv\<rparr>)))"

text \<open>The first part of a session: \<open>None\<close> for a data stream, which has been launched.\<close>

definition unix_login :: "('m, 'ch) Ext \<Rightarrow> duration \<Rightarrow> ('m, 'ch, str option) handler" where
  "unix_login ext timeout =
     io_bind (init_unix_stream timeout) (\<lambda>st.
     if st = Data then io_bind (launch_data_stream ext timeout) (\<lambda>_. io_return None)
     else
       io_bind (on_stream (read_frame (Some MAX_AUTH_FRAME_SIZE))) (\<lambda>frame.
       io_bind (io_lift (utf8 (hd (splitn2 0 frame)))) (\<lambda>login.
       io_return (Some login))))"

definition tcp_login ::
  "('m, 'ch) Ext \<Rightarrow> str \<Rightarrow> duration \<Rightarrow> acceptor option \<Rightarrow> bool \<Rightarrow> io_error + unit \<Rightarrow>
     ('m, 'ch, (str \<times> Acl) option) handler" where
  "tcp_login ext addr timeout acceptor allow_no_tls nodelay =
     io_bind (init_tcp_stream timeout acceptor allow_no_tls nodelay) (\<lambda>st.
     if st = Data then io_bind (launch_data_stream ext timeout) (\<lambda>_. io_return None)
     else
       io_bind (on_stream (read_frame (Some MAX_AUTH_FRAME_SIZE))) (\<lambda>frame.
       let sp = splitn2 0 frame in
       io_bind (io_lift (utf8 (hd sp))) (\<lambda>login.
       io_bind (io_lift (res_bind (case sp of [_, p] \<Rightarrow> Inr p
                                   | _ \<Rightarrow> Inl (Error_invalid_data ERR_INVALID_DATA_BLOCK)) utf8)) (\<lambda>password.
       io_bind (io_get w_server) (\<lambda>sv.
       if (if login = [] \<and> password = [] then ALLOW_ANONYMOUS (sv_statics sv)
           else authenticate ext sv login password) then
         (case get_acl sv login of
            Some acl \<Rightarrow> io_return (Some (login, acl))
          | None \<Rightarrow> io_throw (Error_access (lit ''No ACL for '' @ format_login login)))
       else
         io_throw (Error_access
           (if login = [] \<and> password = [] then lit ''anonymous login failed from '' @ addr
            else lit ''login failed for '' @ login @ lit '' from '' @ addr)))))))"

text \<open>\<^verbatim>\<open>Ok(false)\<close> is a data stream, \<^verbatim>\<open>Ok(true)\<close> a control session that ended with \<^verbatim>\<open>OP_BYE\<close>.\<close>

definition handle_unix_stream ::
  "('m, 'ch) Ext \<Rightarrow> str \<Rightarrow> duration \<Rightarrow> ('m, 'ch) World \<Rightarrow> (bool result \<times> ('m, 'ch) World) option" where
  "handle_unix_stream ext path timeout w =
     (case unix_login ext timeout w of
        (Inl e, w1) \<Rightarrow> Some (Inl e, w1)
      | (Inr None, w1) \<Rightarrow> Some (Inr False, w1)
      | (Inr (Some login), w1) \<Rightarrow>
          start_session ext login path Acl_new_full timeout w1)"

definition handle_tcp_stream ::
  "('m, 'ch) Ext \<Rightarrow> str \<Rightarrow> duration \<Rightarrow> acceptor option \<Rightarrow> bool \<Rightarrow> io_error + unit \<Rightarrow> ('m, 'ch) World \<Rightarrow>
     (bool result \<times> ('m, 'ch) World) option" where
  "handle_tcp_stream ext addr timeout acceptor allow_no_tls nodelay w =
     (case tcp_login ext addr timeout acceptor allow_no_tls nodelay w of
        (Inl e, w1) \<Rightarrow> Some (Inl e, w1)
      | (Inr None, w1) \<Rightarrow> Some (Inr False, w1)
      | (Inr (Some (login, acl)), w1) \<Rightarrow>
          start_session ext login addr acl timeout w1)"

end
