(* ===== verification/Server_Steps.thy ===== *)
theory Server_Steps
  imports Server_Control
begin

text \<open>
  The shared server as a state machine.  \<open>server_step\<close> lists the atomic actions of the tasks of
  \<^verbatim>\<open>psrtd\<close> on the shared state: one call under a lock, one operation on a queue.  Tasks interleave
  at this granularity.  The invariant \<open>server_inv\<close> ties the client table, the subscription map,
  the client objects and the queues together; it holds in every reachable server, and the effect
  of every handler on the server is a sequence of such actions.
\<close>

section \<open>Atomic actions\<close>

definition registered :: "ServerClient \<Rightarrow> ('m, 'ch) Server \<Rightarrow> bool" where
  "registered c sv \<longleftrightarrow> db_clients (sv_db sv) (cl_token c) = Some c"

definition recv_message :: "('m, 'ch) Ext \<Rightarrow> nat \<Rightarrow> ('m, 'ch) Server \<Rightarrow> ('m, 'ch) Server" where
  "recv_message ext dc sv =
     sv\<lparr>sv_store := (sv_store sv)\<lparr>st_chans := (st_chans (sv_store sv))
         (dc := snd (ch_recv (ext_chan ext) (st_chans (sv_store sv) dc)))\<rparr>\<rparr>"

inductive server_step :: "('m, 'ch) Ext \<Rightarrow> ('m, 'ch) Server \<Rightarrow> ('m, 'ch) Server \<Rightarrow> bool"
  for ext :: "('m, 'ch) Ext" where
  act_register: "register_session ext login addr sv = Some (r, sv') \<Longrightarrow> server_step ext sv sv'"
| act_unregister: "registered c sv \<Longrightarrow> server_step ext sv (end_session ext c sv)"
| act_subscribe: "registered c sv \<Longrightarrow>
     server_step ext sv
       (sv\<lparr>sv_db := snd (subscribe (ext_submap ext) (MAX_TOPIC_DEPTH (sv_statics sv)) topic c (sv_db sv))\<rparr>)"
| act_unsubscribe: "registered c sv \<Longrightarrow>
     server_step ext sv
       (sv\<lparr>sv_db := snd (unsubscribe (ext_submap ext) (MAX_TOPIC_DEPTH (sv_statics sv)) topic c (sv_db sv))\<rparr>)"
| act_count: "server_step ext sv (count f sv)"
| act_push: "queued_message m \<Longrightarrow> server_step ext sv (sv\<lparr>sv_store := push_one ext (sv_db sv) m s (sv_store sv)\<rparr>)"
| act_replicate: "server_step ext sv (sv\<lparr>sv_replicated := sv_replicated sv @ [x]\<rparr>)"
| act_attach: "server_step ext sv (snd (attach ext token sv))"
| act_spawn: "server_step ext sv (spawn_for c task sv)"
| act_detach: "server_step ext sv (sv\<lparr>sv_store := unregister_data_channel token (sv_db sv) (sv_store sv)\<rparr>)"
| act_beacon: "\<not> ch_is_full (ext_chan ext) (st_chans (sv_store sv) dc) \<Longrightarrow>
     server_step ext sv (sv\<lparr>sv_store := snd (pinger_step ext dc (sv_store sv))\<rparr>)"
| act_receive: "ch_recv (ext_chan ext) (st_chans (sv_store sv) dc) = (Some m, q) \<Longrightarrow>
     server_step ext sv (recv_message ext dc sv)"

section \<open>The invariant\<close>

text \<open>What the store promises of the registered clients and the queues.\<close>

definition queue_bound :: "('ch \<Rightarrow> MessageFrame list) \<Rightarrow> ('ch \<Rightarrow> nat) \<Rightarrow> nat \<Rightarrow> 'ch \<Rightarrow> bool" where
  "queue_bound queued capacity n q \<longleftrightarrow> capacity q = n \<and> length (queued q) \<le> n"

definition store_inv ::
  "('ch \<Rightarrow> MessageFrame list) \<Rightarrow> ('ch \<Rightarrow> nat) \<Rightarrow> nat \<Rightarrow> ServerClient set \<Rightarrow> 'ch store \<Rightarrow> bool" where
  "store_inv queued capacity n cs st \<longleftrightarrow>
     inj_on cl_ref cs \<and> (\<forall>c \<in> cs. cl_ref c < st_next st) \<and> channels_private st \<and>
     (\<forall>r dc. data_channel (st_cells st r) = Some dc \<longrightarrow>
        dc < st_next st \<and> queue_bound queued capacity n (st_chans st dc))"

definition server_inv ::
  "('m, 'ch) Ext \<Rightarrow> ('m \<Rightarrow> ServerClient set) \<Rightarrow> ('m \<Rightarrow> bool) \<Rightarrow> ('ch \<Rightarrow> MessageFrame list) \<Rightarrow> ('ch \<Rightarrow> nat) \<Rightarrow>
     ('m, 'ch) Server \<Rightarrow> bool" where
  "server_inv ext clients invar queued capacity sv \<longleftrightarrow>
     db_inv clients invar (ext_sha256 ext) (sv_db sv) \<and>
     store_inv queued capacity (DATA_QUEUE_SIZE (sv_statics sv)) (ran (db_clients (sv_db sv))) (sv_store sv)"

text \<open>
  A server with an empty database whose client objects have no data channel; a queue that has not
  been made yet reads as an empty one.
\<close>

definition server_start :: "('m, 'ch) Ext \<Rightarrow> ('m, 'ch) Server \<Rightarrow> bool" where
  "server_start ext sv \<longleftrightarrow>
     sv_db sv = ServerClientDB_default (ext_submap ext) \<and>
     (\<forall>r. data_channel (st_cells (sv_store sv) r) = None) \<and>
     (\<exists>n. \<forall>dc. st_chans (sv_store sv) dc = ch_bounded (ext_chan ext) n)"

inductive server_reachable :: "('m, 'ch) Ext \<Rightarrow> ('m, 'ch) Server \<Rightarrow> bool" for ext :: "('m, 'ch) Ext" where
  start: "server_start ext sv \<Longrightarrow> server_reachable ext sv"
| step: "server_reachable ext sv \<Longrightarrow> server_step ext sv sv' \<Longrightarrow> server_reachable ext sv'"

section \<open>The actions keep the invariant\<close>

locale server_env =
  sm: submap_laws "ext_submap ext" clients subs invar +
  ch: bounded_channel "ext_chan ext" queued capacity closed
  for ext :: "('m, 'ch) Ext"
    and clients :: "'m \<Rightarrow> ServerClient set"
    and subs :: "'m \<Rightarrow> (str \<times> ServerClient) set"
    and invar :: "'m \<Rightarrow> bool"
    and queued :: "'ch \<Rightarrow> MessageFrame list"
    and capacity :: "'ch \<Rightarrow> nat"
    and closed :: "'ch \<Rightarrow> bool"
begin

abbreviation inv :: "('m, 'ch) Server \<Rightarrow> bool" where
  "inv \<equiv> server_inv ext clients invar queued capacity"

abbreviation sinv :: "nat \<Rightarrow> ServerClient set \<Rightarrow> 'ch store \<Rightarrow> bool" where
  "sinv \<equiv> store_inv queued capacity"

abbreviation bound :: "nat \<Rightarrow> 'ch \<Rightarrow> bool" where
  "bound \<equiv> queue_bound queued capacity"

lemma invD:
  assumes "inv sv"
  shows "sm.inv_db (ext_sha256 ext) (sv_db sv)" and "sinv (DATA_QUEUE_SIZE (sv_statics sv)) (ran (db_clients (sv_db sv))) (sv_store sv)"
  using assms by (simp_all add: server_inv_def)

text \<open>An action on the store that detaches at most, and touches the queues only as queues allow.\<close>

lemma sinv_mono:
  assumes "sinv n cs st" and "st_next st \<le> st_next st'" and "cs' \<subseteq> cs"
    and "\<And>r dc. data_channel (st_cells st' r) = Some dc \<Longrightarrow> data_channel (st_cells st r) = Some dc"
    and "\<And>dc. bound n (st_chans st dc) \<Longrightarrow>
          bound n (st_chans st' dc)"
  shows "sinv n cs' st'"
  unfolding store_inv_def
proof (intro conjI allI impI ballI)
  show "inj_on cl_ref cs'" using assms(1,3) by (auto simp: store_inv_def intro: inj_on_subset)
  show "cl_ref c < st_next st'" if "c \<in> cs'" for c
    using assms(1-3) that by (auto simp: store_inv_def dest!: bspec intro: less_le_trans)
  show "channels_private st'"
    using assms(1,4) unfolding store_inv_def channels_private_def by metis
  fix r dc assume r: "data_channel (st_cells st' r) = Some dc"
  then have "dc < st_next st" "bound n (st_chans st dc)"
    using assms(1) assms(4) [OF r] unfolding store_inv_def by blast+
  then show "dc < st_next st'" "bound n (st_chans st' dc)"
    using assms(2,5) by auto
qed

lemma push_one_next: "st_next (push_one ext db m s st) = st_next st"
  by (simp add: push_one_def abort_tasks_def unregister_data_channel_def Let_def split: option.split)

lemma push_one_back:
  "data_channel (st_cells (push_one ext db m s st) r) = Some dc \<Longrightarrow> data_channel (st_cells st r) = Some dc"
  by (auto simp: push_one_def abort_tasks_def unregister_data_channel_def Let_def
      split: option.splits if_splits)

lemma send_bound:
  "bound n q \<Longrightarrow> \<not> ch_is_full (ext_chan ext) q \<Longrightarrow> bound n (snd (ch_send (ext_chan ext) m q))"
  using ch.send_keeps_bound [of q m] by (auto simp: queue_bound_def ch.send_frame)

lemma push_one_bound:
  assumes "bound n (st_chans st q)"
  shows "bound n (st_chans (push_one ext db m s st) q)"
proof (cases "get_data_channel s st = Some q \<and> \<not> ch_is_full (ext_chan ext) (st_chans st q)")
  case True
  then have "st_chans (push_one ext db m s st) q = snd (ch_send (ext_chan ext) m (st_chans st q))"
    by (simp add: push_one_def)
  then show ?thesis using send_bound [OF assms] True by simp
next
  case False
  then have "st_chans (push_one ext db m s st) q = st_chans st q"
    by (auto simp: push_one_def abort_tasks_def unregister_data_channel_def Let_def split: option.split)
  then show ?thesis using assms by simp
qed

lemma push_one_sinv: "sinv n cs st \<Longrightarrow> sinv n cs (push_one ext db m s st)"
  by (erule sinv_mono) (auto simp: push_one_next push_one_bound dest: push_one_back)

lemma detach_sinv:
  "sinv n cs st \<Longrightarrow> sinv n cs (unregister_data_channel token db st)"
  "sinv n cs st \<Longrightarrow> cs' \<subseteq> cs \<Longrightarrow> sinv n cs' (abort_tasks c st)"
  by (auto elim!: sinv_mono simp: unregister_data_channel_def abort_tasks_def Let_def
      split: option.splits if_splits)

lemma spawn_sinv: "sinv n cs (sv_store sv) \<Longrightarrow> sinv n cs (sv_store (spawn_for c task sv))"
  by (erule sinv_mono) (auto simp: spawn_for_def spawn_def register_task_def Let_def split: if_splits)

lemma queue_sinv:
  assumes "sinv n cs st"
    and "bound n (st_chans st dc) \<Longrightarrow> bound n q"
  shows "sinv n cs (st\<lparr>st_chans := (st_chans st)(dc := q)\<rparr>)"
  using assms(1) by (rule sinv_mono) (use assms(2) in auto)

lemma recv_bound:
  assumes "ch_recv (ext_chan ext) q = (Some m, q')" and "bound n q"
  shows "bound n q'"
  using ch.recv_Some [OF assms(1)] ch.recv_frame(1) [of q] assms by (simp add: queue_bound_def)

lemma attach_sinv:
  assumes "sinv (DATA_QUEUE_SIZE (sv_statics sv)) (ran (db_clients (sv_db sv))) (sv_store sv)" and "new_channel ext sv = (tx, sv1)"
    and "register_data_channel token tx (sv_db sv1) (sv_store sv1) = (r, st)"
  shows "sinv (DATA_QUEUE_SIZE (sv_statics sv)) (ran (db_clients (sv_db sv1))) st"
proof -
  let ?st = "sv_store sv" and ?q = "ch_bounded (ext_chan ext) (DATA_QUEUE_SIZE (sv_statics sv))"
  have tx: "tx = st_next ?st" and db: "sv_db sv1 = sv_db sv"
    and st1: "sv_store sv1 = ?st\<lparr>st_next := Suc tx, st_chans := (st_chans ?st)(tx := ?q)\<rparr>"
    using assms(2) by (auto simp: new_channel_def Let_def)
  have fresh: "data_channel (st_cells ?st r) = Some dc \<Longrightarrow> dc < tx" for r dc
    using assms(1) tx by (auto simp: store_inv_def)
  have old: "sinv (DATA_QUEUE_SIZE (sv_statics sv)) (ran (db_clients (sv_db sv))) (sv_store sv1)"
    using assms(1) by (rule sinv_mono) (auto simp: st1 tx ch.bounded_new queue_bound_def)
  show ?thesis
  proof (cases "\<exists>c. db_clients (sv_db sv) token = Some c \<and> data_channel (st_cells ?st (cl_ref c)) = None")
    case False
    then have "st = sv_store sv1"
      using assms(3) by (auto simp: register_data_channel_def Let_def st1 db split: option.splits if_splits)
    then show ?thesis using old db by simp
  next
    case True
    then obtain c where c: "db_clients (sv_db sv) token = Some c" "data_channel (st_cells ?st (cl_ref c)) = None"
      by blast
    then have st: "st = (sv_store sv1)\<lparr>st_cells := (st_cells ?st)
        (cl_ref c := (st_cells ?st (cl_ref c))\<lparr>data_channel := Some tx\<rparr>)\<rparr>"
      using assms(3) by (simp add: register_data_channel_def Let_def st1 db)
    show ?thesis
      using old fresh
      by (auto simp: store_inv_def st st1 db channels_private_def ch.bounded_new queue_bound_def split: if_splits)
  qed
qed

lemma register_sinv:
  assumes "inv sv" and "register_session ext login addr sv = Some (r, sv')"
  shows "inv sv'"
proof -
  let ?st = "sv_store sv" and ?ref = "st_next (sv_store sv)"
  let ?st' = "?st\<lparr>st_next := Suc ?ref, st_cells := (st_cells ?st)(?ref := empty_cell)\<rparr>"
  obtain draws db' where rc: "register_client (ext_submap ext) (ext_sha256 ext) login addr ?ref (sv_draws sv) (sv_db sv) =
      Some (r, draws, db')"
    and sv': "sv_db sv' = db'" "sv_store sv' = ?st'" "sv_statics sv' = sv_statics sv"
    using assms(2) by (auto simp: register_session_def Let_def split: option.splits)
  note db = sm.register_inv [OF invD(1) [OF assms(1)] rc]
  have old: "sinv (DATA_QUEUE_SIZE (sv_statics sv)) (ran (db_clients (sv_db sv))) ?st'"
    using invD(2) [OF assms(1)] by (rule sinv_mono) (auto simp: empty_cell_def split: if_splits)
  have "sinv (DATA_QUEUE_SIZE (sv_statics sv)) (ran (db_clients db')) ?st'"
  proof (cases r)
    case (Inl e)
    then show ?thesis using old sm.register_failure [OF invD(1) [OF assms(1)]] rc by simp
  next
    case (Inr c)
    note s = sm.register_success [OF invD(1) [OF assms(1)] rc [unfolded Inr]]
    have "ran (db_clients db') = insert c (ran (db_clients (sv_db sv)))" using s(1,2) by simp
    moreover have "cl_ref c = ?ref" using s(3) new_client_fields(3) by metis
    moreover have "\<forall>d \<in> ran (db_clients (sv_db sv)). cl_ref d < ?ref"
      using invD(2) [OF assms(1)] by (simp add: store_inv_def)
    ultimately show ?thesis using old by (auto simp: store_inv_def inj_on_def)
  qed
  then show ?thesis using db sv' by (simp add: server_inv_def)
qed

lemma step_inv:
  assumes "server_step ext sv sv'" and "inv sv"
  shows "inv sv'"
  using assms
proof (induction rule: server_step.induct)
  case (act_register login addr sv r sv')
  then show ?case by (blast intro: register_sinv)
next
  case (act_unregister c sv)
  have "ran (db_clients (unregister_client (ext_submap ext) c (sv_db sv))) \<subseteq> ran (db_clients (sv_db sv))"
    by (auto simp: unregister_client_def ran_def)
  then show ?case
    using sm.unregister_inv [OF invD(1) [OF act_unregister.prems]] detach_sinv(2) [OF invD(2) [OF act_unregister.prems]]
      act_unregister.hyps
    by (simp add: server_inv_def end_session_def registered_def)
next
  case (act_subscribe c sv topic)
  have "db_clients (snd (subscribe (ext_submap ext) d topic c (sv_db sv))) = db_clients (sv_db sv)" for d
    by (simp add: subscribe_db split: sum.split)
  then show ?case
    using sm.subscribe_inv(1) [OF invD(1) [OF act_subscribe.prems]] invD(2) [OF act_subscribe.prems] act_subscribe.hyps
    by (simp add: server_inv_def registered_def)
next
  case (act_unsubscribe c sv topic)
  have "db_clients (snd (unsubscribe (ext_submap ext) d topic c (sv_db sv))) = db_clients (sv_db sv)" for d
    by (simp add: unsubscribe_db split: sum.split)
  then show ?case
    using sm.subscribe_inv(2) [OF invD(1) [OF act_unsubscribe.prems]] invD(2) [OF act_unsubscribe.prems] act_unsubscribe.hyps
    by (simp add: server_inv_def registered_def)
next
  case (act_attach sv token)
  obtain tx sv1 where 1: "new_channel ext sv = (tx, sv1)" by (cases "new_channel ext sv")
  obtain r st where 2: "register_data_channel token tx (sv_db sv1) (sv_store sv1) = (r, st)"
    by (cases "register_data_channel token tx (sv_db sv1) (sv_store sv1)")
  have "sv_db sv1 = sv_db sv" "sv_statics sv1 = sv_statics sv" using 1 by (auto simp: new_channel_def Let_def)
  then show ?case
    using attach_sinv [OF invD(2) [OF act_attach.prems] 1 2] invD(1) [OF act_attach.prems] 1 2
    by (simp add: server_inv_def attach_def)
next
  case (act_spawn sv c task)
  have "sv_db (spawn_for c task sv) = sv_db sv" "sv_statics (spawn_for c task sv) = sv_statics sv"
    by (simp_all add: spawn_for_def spawn_def Let_def)
  then show ?case using spawn_sinv [OF invD(2) [OF act_spawn.prems]] act_spawn.prems by (simp add: server_inv_def)
next
  case (act_beacon sv dc)
  have "sinv (DATA_QUEUE_SIZE (sv_statics sv)) (ran (db_clients (sv_db sv))) (snd (pinger_step ext dc (sv_store sv)))"
    using queue_sinv [OF invD(2) [OF act_beacon.prems] send_bound [OF _ act_beacon.hyps], where m1 = empty_message]
    by (auto simp: pinger_step_def split: prod.splits)
  then show ?case using act_beacon.prems by (simp add: server_inv_def)
next
  case (act_receive sv dc m q)
  have "sinv (DATA_QUEUE_SIZE (sv_statics sv)) (ran (db_clients (sv_db sv))) (sv_store (recv_message ext dc sv))"
    using queue_sinv [OF invD(2) [OF act_receive.prems] recv_bound [OF act_receive.hyps], of dc] act_receive.hyps
    by (simp add: recv_message_def)
  then show ?case using act_receive.prems by (simp add: server_inv_def recv_message_def)
qed (simp_all add: server_inv_def count_def push_one_sinv detach_sinv)

lemma start_inv: "server_start ext sv \<Longrightarrow> inv sv"
  using sm.default_inv [of "ext_sha256 ext"]
  by (simp add: server_start_def server_inv_def store_inv_def channels_private_def)
    (simp add: ServerClientDB_default_def)

lemma reachable_inv: "server_reachable ext sv \<Longrightarrow> inv sv"
  by (induction rule: server_reachable.induct) (auto intro: start_inv step_inv)

end

section \<open>Handlers are sequences of actions\<close>

abbreviation acts :: "('m, 'ch) Ext \<Rightarrow> ('m, 'ch) Server \<Rightarrow> ('m, 'ch) Server \<Rightarrow> bool" where
  "acts ext \<equiv> (server_step ext)\<^sup>*\<^sup>*"

text \<open>A handler of a session leaves its client registered and acts on the server.\<close>

definition session_acts ::
  "('m, 'ch) Ext \<Rightarrow> ServerClient \<Rightarrow> ('m, 'ch) World \<Rightarrow> ('m, 'ch) World \<Rightarrow> bool" where
  "session_acts ext c w w' \<longleftrightarrow>
     (registered c (w_server w) \<longrightarrow> registered c (w_server w') \<and> acts ext (w_server w) (w_server w'))"

lemma session_acts_order: "reflp (session_acts ext c)" "transp (session_acts ext c)"
  by (auto simp: session_acts_def reflp_def transp_def intro: rtranclp_trans)

lemma stream_only:
  "w_server (snd (read_within n t i w)) = w_server w" "w_server (snd (frame_within l t i w)) = w_server w"
  "w_server (snd (respond_status b w)) = w_server w" "w_server (snd (respond_ok w)) = w_server w"
  "w_server (snd (respond_err w)) = w_server w" "w_server (snd (respond_deny w)) = w_server w"
  by (simp_all add: read_within_def frame_within_def respond_status_def respond_ok_def respond_err_def respond_deny_def)

lemma acts_push_fold:
  assumes "queued_message m"
  shows "acts ext sv (sv\<lparr>sv_store := fold (push_one ext (sv_db sv) m) S (sv_store sv)\<rparr>)"
proof (induction S arbitrary: sv)
  case (Cons s S)
  let ?sv = "sv\<lparr>sv_store := push_one ext (sv_db sv) m s (sv_store sv)\<rparr>"
  have "acts ext sv ?sv" using act_push [OF assms] by blast
  also have "acts ext ?sv (?sv\<lparr>sv_store := fold (push_one ext (sv_db ?sv) m) S (sv_store ?sv)\<rparr>)" by (rule Cons)
  finally show ?case by simp
qed simp

lemma acts_push: "utf8_valid t \<Longrightarrow> acts ext sv (push_to_subscribers ext S p t d ts sv)"
  by (simp add: push_to_subscribers_def Let_def)
    (rule acts_push_fold, auto simp: queued_message_def)

lemma acts_publish: "utf8_valid t \<Longrightarrow> acts ext sv (publish ext p t d ts sv)"
  using acts_push [of t ext sv "get_subscribers (ext_submap ext) t (sv_db sv)" p d ts]
  by (auto simp: publish_def Let_def intro: act_replicate rtranclp.rtrancl_into_rtrancl)

lemma publish_db:
  "sv_db (push_to_subscribers ext S p t d ts sv) = sv_db sv" "sv_db (publish ext p t d ts sv) = sv_db sv"
  by (simp_all add: push_to_subscribers_def publish_def Let_def)

lemma acts_subscribe_topics:
  assumes "registered c sv"
  shows "registered c (snd (subscribe_topics ext c acl topics sv)) \<and>
    acts ext sv (snd (subscribe_topics ext c acl topics sv))"
  using assms
proof (induction topics arbitrary: sv)
  case (Cons topic topics)
  let ?r = "subscribe (ext_submap ext) (MAX_TOPIC_DEPTH (sv_statics sv)) topic c (sv_db sv)"
  let ?sv = "sv\<lparr>sv_db := snd ?r\<rparr>"
  have reg: "registered c ?sv" "registered c (count count_sub_ops ?sv)"
    using Cons.prems by (auto simp: registered_def count_def subscribe_db split: sum.splits)
  have s: "acts ext sv ?sv" "acts ext sv (count count_sub_ops ?sv)"
    using act_subscribe [OF Cons.prems, of ext topic] act_count [of ext ?sv count_sub_ops] by auto
  show ?case
    using Cons.IH [OF reg(2)] reg s Cons.prems
    by (auto split: prod.splits sum.splits intro: rtranclp_trans)
qed simp

lemma acts_unsubscribe_topics:
  assumes "registered c sv"
  shows "registered c (snd (unsubscribe_topics ext c topics sv)) \<and>
    acts ext sv (snd (unsubscribe_topics ext c topics sv))"
  using assms
proof (induction topics arbitrary: sv)
  case (Cons topic topics)
  let ?r = "unsubscribe (ext_submap ext) (MAX_TOPIC_DEPTH (sv_statics sv)) topic c (sv_db sv)"
  let ?sv = "sv\<lparr>sv_db := snd ?r\<rparr>"
  have reg: "registered c ?sv" "registered c (count count_sub_ops ?sv)"
    using Cons.prems by (auto simp: registered_def count_def unsubscribe_db split: sum.splits)
  have s: "acts ext sv ?sv" "acts ext sv (count count_sub_ops ?sv)"
    using act_unsubscribe [OF Cons.prems, of ext topic] act_count [of ext ?sv count_sub_ops] by auto
  show ?case
    using Cons.IH [OF reg(2)] reg s Cons.prems
    by (auto split: prod.splits sum.splits intro: rtranclp_trans)
qed simp

lemma session_acts_pieces:
  "io_keeps (session_acts ext c) (read_within n t i)" "io_keeps (session_acts ext c) (frame_within l t i)"
  "io_keeps (session_acts ext c) (respond_status b)" "io_keeps (session_acts ext c) respond_ok"
  "io_keeps (session_acts ext c) respond_err" "io_keeps (session_acts ext c) respond_deny"
  "io_keeps (session_acts ext c) (on_stream f)"
  "io_keeps (session_acts ext c) (on_server (count g))"
  "utf8_valid topic \<Longrightarrow> io_keeps (session_acts ext c) (on_server (publish ext p topic d ts))"
  "utf8_valid topic \<Longrightarrow> io_keeps (session_acts ext c) (on_server (push_to_subscribers ext S p topic d ts))"
  by (auto simp: io_keeps_def session_acts_def stream_only registered_def count_def publish_db acts_push acts_publish
      intro: act_count [unfolded count_def])

lemma session_acts_topics:
  "io_keeps (session_acts ext c) (with_server (subscribe_topics ext c acl topics))"
  "io_keeps (session_acts ext c) (with_server (unsubscribe_topics ext c topics))"
  by (simp_all add: io_keeps_def session_acts_def acts_subscribe_topics acts_unsubscribe_topics)

lemmas session_acts_intros =
  io_keeps_bind [OF session_acts_order(2)] io_keeps_pure [OF session_acts_order(1)]
  session_acts_pieces session_acts_topics

text \<open>What is published has a topic that was checked to be UTF-8, also after its preparation.\<close>

lemma session_acts_publish_frame: "io_keeps (session_acts ext c) (publish_frame ext acl p ts buf)"
proof -
  note r = session_acts_order(1)
  have "io_keeps (session_acts ext c) (case prepare_topic d t of
      Inr topic \<Rightarrow>
        if has_invalid_symbols topic then io_throw (Error_invalid_data ERR_INVALID_DATA_BLOCK)
        else if allow_write acl topic then io_bind (on_server (publish ext p topic data ts)) (\<lambda>_. respond_ok)
        else respond_deny
    | Inl _ \<Rightarrow> respond_err)" if "utf8_valid t" for d t data
    using that prepare_topic_utf8 [of d t]
    by (auto intro!: session_acts_intros split: sum.split)
  then show ?thesis
    unfolding publish_frame_def Let_def
    by (auto intro!: io_keeps_bind_lift [OF r] io_keeps_bind_get session_acts_pieces io_keeps_pure [OF r]
        io_keeps_bind [OF session_acts_order(2), of _ _ "on_server (count g)" for g])
qed

lemma session_acts_publish_repl: "io_keeps (session_acts ext c) (op_publish_repl ext acl timeout op_start)"
proof (cases "ext_cluster ext")
  case True
  then show ?thesis
    by (simp only: op_publish_repl_def not_True_eq_False if_False)
      (rule io_keeps_bind [OF session_acts_order(2) session_acts_pieces(2)],
       rule io_keeps_bind_lift [OF session_acts_order(1)], auto intro!: session_acts_intros)
qed (simp add: op_publish_repl_def io_keeps_pure session_acts_order)

lemma session_acts_step: "io_keeps (session_acts ext c) (control_step ext c acl timeout)"
  by (auto simp: control_step_def control_op_def op_subscribe_def op_unsubscribe_def op_publish_def Let_def
      intro!: session_acts_intros session_acts_publish_frame session_acts_publish_repl)

lemma session_acts_control: "session_acts ext c w (snd (process_control ext c acl timeout w))"
  by (rule process_control_keeps [OF session_acts_order session_acts_step])

lemma run_session_acts:
  assumes "registered c (w_server w)"
  shows "acts ext (w_server w) (w_server (snd (run_session ext c acl timeout w)))"
proof (cases "on_stream (stream_write (token_as_bytes c)) w")
  case (Pair r w1)
  have w1: "w_server w1 = w_server w" using on_stream_server [of "stream_write (token_as_bytes c)" w] Pair by simp
  show ?thesis
  proof (cases r)
    case (Inl e)
    then show ?thesis using Pair w1 by (simp add: run_session_def io_bind_def)
  next
    case (Inr u)
    obtain r2 w2 where 2: "process_control ext c acl timeout w1 = (r2, w2)"
      by (cases "process_control ext c acl timeout w1")
    have "registered c (w_server w2) \<and> acts ext (w_server w) (w_server w2)"
      using session_acts_control [of ext c w1 acl timeout] assms w1 2 by (simp add: session_acts_def)
    then have "acts ext (w_server w) (end_session ext c (w_server w2))"
      by (meson act_unregister rtranclp.rtrancl_into_rtrancl)
    then show ?thesis using Pair Inr 2 by (auto simp: run_session_def io_bind_def split: sum.split)
  qed
qed

lemma launch_acts: "acts ext (w_server w) (w_server (snd (launch_data_stream ext timeout w)))"
proof -
  let ?R = "\<lambda>w w'. acts ext (w_server w) (w_server w')"
  have R: "reflp ?R" "transp ?R" by (auto simp: reflp_def transp_def)
  have "io_keeps ?R (launch_data_stream ext timeout)"
    unfolding launch_data_stream_def Let_def
    by (auto intro!: io_keeps_bind [OF R(2)] io_keeps_pure [OF R(1)] split: sum.split)
      (auto simp: io_keeps_def stream_only intro: act_attach act_spawn)
  then show ?thesis by (rule io_keepsD)
qed

lemma login_acts:
  "acts ext (w_server w) (w_server (snd (tcp_login ext addr timeout acceptor allow_no_tls nodelay w)))"
  "acts ext (w_server w) (w_server (snd (unix_login ext timeout w)))"
proof -
  let ?R = "\<lambda>w w'. acts ext (w_server w) (w_server w')"
  have R: "reflp ?R" "transp ?R" by (auto simp: reflp_def transp_def)
  have st: "io_keeps ?R (on_stream f)" for f :: "'x stream_io" by (simp add: io_keeps_def)
  have launch: "io_keeps ?R (launch_data_stream ext timeout)" by (simp add: io_keeps_def launch_acts)
  note intros = io_keeps_bind [OF R(2)] io_keeps_pure [OF R(1)] st launch
  have "io_keeps ?R (tcp_login ext addr timeout acceptor allow_no_tls nodelay)"
    unfolding tcp_login_def init_tcp_stream_def Let_def
    by (auto intro!: intros split: option.split)
  then show "?R w (snd (tcp_login ext addr timeout acceptor allow_no_tls nodelay w))" by (rule io_keepsD)
  have "io_keeps ?R (unix_login ext timeout)"
    unfolding unix_login_def init_unix_stream_def by (auto intro!: intros)
  then show "?R w (snd (unix_login ext timeout w))" by (rule io_keepsD)
qed

lemma register_client_registers:
  "register_client sm sha login addr ref draws db = Some (Inr c, draws', db') \<Longrightarrow>
     db_clients db' (cl_token c) = Some c"
  by (induction sm sha login addr ref draws db rule: register_client.induct)
    (auto simp: Let_def split: sum.splits prod.splits if_splits)

lemma register_session_registers:
  "register_session ext login addr sv = Some (Inr c, sv') \<Longrightarrow> registered c sv'"
  by (auto simp: register_session_def registered_def Let_def dest: register_client_registers split: option.splits)

lemma start_session_acts:
  assumes "start_session ext login addr acl timeout w = Some (r, w')"
  shows "acts ext (w_server w) (w_server w')"
proof -
  from assms obtain x sv where reg: "register_session ext login addr (w_server w) = Some (x, sv)"
    by (auto simp: start_session_def split: option.splits)
  have a: "acts ext (w_server w) sv" using act_register [OF reg] by blast
  show ?thesis
  proof (cases x)
    case (Inl e)
    then show ?thesis using assms reg a by (auto simp: start_session_def)
  next
    case (Inr c)
    have "registered c sv" using reg Inr register_session_registers by blast
    then have "acts ext sv (w_server w')"
      using run_session_acts [of c "w\<lparr>w_server := sv\<rparr>" ext acl timeout] assms reg Inr
      by (simp add: start_session_def)
    with a show ?thesis by simp
  qed
qed

lemma handle_tcp_acts:
  assumes "handle_tcp_stream ext addr timeout acceptor allow_no_tls nodelay w = Some (r, w')"
  shows "acts ext (w_server w) (w_server w')"
proof (cases "tcp_login ext addr timeout acceptor allow_no_tls nodelay w")
  case (Pair x w1)
  have a: "acts ext (w_server w) (w_server w1)"
    using login_acts(1) [of ext w addr timeout acceptor allow_no_tls nodelay] Pair by simp
  show ?thesis
    using assms Pair a
    by (auto simp: handle_tcp_stream_def dest!: start_session_acts split: sum.splits option.splits)
qed

lemma handle_unix_acts:
  assumes "handle_unix_stream ext path timeout w = Some (r, w')"
  shows "acts ext (w_server w) (w_server w')"
proof (cases "unix_login ext timeout w")
  case (Pair x w1)
  have a: "acts ext (w_server w) (w_server w1)"
    using login_acts(2) [of ext w timeout] Pair by simp
  show ?thesis
    using assms Pair a
    by (auto simp: handle_unix_stream_def dest!: start_session_acts split: sum.splits option.splits)
qed

lemma acts_reachable: "acts ext sv sv' \<Longrightarrow> server_reachable ext sv \<Longrightarrow> server_reachable ext sv'"
  by (induction rule: rtranclp_induct) (auto intro: server_reachable.step)

interpretation srv: server_env sample_ext lm_client_set lm_sub_set lm_invar q_list q_cap q_closed
  by (rule server_env.intro [OF sample_submap sample_channel])

lemma sample_queue_new: "sample_queue = ch_bounded fifo_ops 2"
  by (simp add: fifo_ops_def sample_queue_def)

text \<open>The sample server is reached in four actions.\<close>

lemma sample_reachable: "server_reachable sample_ext sample_server"
proof -
  let ?tok = "Token (replicate 32 1)" and ?c = sample_client and ?addr = "lit ''127.0.0.1:2000''"
  let ?sv1 = "sample_server\<lparr>
      sv_db := \<lparr>db_submap = \<lparr>lm_clients = [?c], lm_subs = []\<rparr>, db_clients = [?tok \<mapsto> ?c]\<rparr>,
      sv_store := \<lparr>st_cells = (\<lambda>_. empty_cell), st_chans = (\<lambda>_. sample_queue), st_aborted = {}, st_next = 1\<rparr>,
      sv_spawned := []\<rparr>"
  let ?sv2 = "snd (attach sample_ext ?tok ?sv1)"
  let ?sv3 = "spawn_for ?c (Pinger 1 1000) ?sv2"
  have 0: "server_reachable sample_ext sample_start"
    by (rule server_reachable.start) (auto simp: server_start_def sample_start_def empty_cell_def sample_queue_new)
  have "register_session sample_ext (lit ''u'') ?addr sample_start = Some (Inr ?c, ?sv1)"
    by (simp add: register_session_def sample_start_def sample_server_def Token_create_def Let_def list_submap_def
        lm_known_def ServerClientDB_default_def sample_client_def fun_upd_def)
  with 0 have 1: "server_reachable sample_ext ?sv1" by (blast intro: server_reachable.step act_register)
  have 3: "server_reachable sample_ext ?sv3"
    by (rule server_reachable.step [OF server_reachable.step [OF 1 act_attach] act_spawn])
  note q = sample_queue_new [symmetric]
  have sv3: "?sv3 = sample_server\<lparr>
      sv_db := \<lparr>db_submap = \<lparr>lm_clients = [?c], lm_subs = []\<rparr>, db_clients = [?tok \<mapsto> ?c]\<rparr>\<rparr>"
    using q by (simp add: attach_def new_channel_def register_data_channel_def spawn_for_def spawn_def register_task_def
        Let_def sample_server_def sample_store_def empty_cell_def fun_upd_idem_iff numeral_2_eq_2)
  have "prepare_topic 9 (lit ''a/+'') = Inr (lit ''a/+'')" by code_simp
  then have "sample_server = ?sv3\<lparr>sv_db := snd (subscribe (ext_submap sample_ext)
      (MAX_TOPIC_DEPTH (sv_statics ?sv3)) (lit ''a/+'') ?c (sv_db ?sv3))\<rparr>"
    unfolding sv3 by (simp add: subscribe_db sample_server_def sample_db_def list_submap_def)
  with 3 show ?thesis
    using server_reachable.step [OF 3 act_subscribe, of ?c "lit ''a/+''"] sv3 by (simp add: registered_def)
qed

section \<open>Properties\<close>

text \<open>
  C3: in every server that the tasks of \<^verbatim>\<open>psrtd\<close> can produce, whatever the interleaving of their
  actions, the client table and the subscription map agree, no two registered clients share
  their mutable cell, no two client objects share a data channel, and every attached queue has
  the configured size and holds no more messages than that.
\<close>

theorem reachable_server_consistent:
  assumes "submap_laws (ext_submap ext) clients subs invar"
    and "bounded_channel (ext_chan ext) queued capacity closed"
    and "server_reachable ext sv"
  shows "db_inv clients invar (ext_sha256 ext) (sv_db sv) \<and>
    inj_on cl_ref (ran (db_clients (sv_db sv))) \<and> channels_private (sv_store sv) \<and>
    (\<forall>c dc. get_data_channel c (sv_store sv) = Some dc \<longrightarrow>
       capacity (st_chans (sv_store sv) dc) = DATA_QUEUE_SIZE (sv_statics sv) \<and>
       length (queued (st_chans (sv_store sv) dc)) \<le> DATA_QUEUE_SIZE (sv_statics sv))"
  using server_env.reachable_inv [OF server_env.intro [OF assms(1,2)] assms(3)]
  by (auto simp: server_inv_def store_inv_def queue_bound_def get_data_channel_def)

theorem reachable_server_consistent_witness:
  "channels_private (sv_store sample_server) \<and> length (q_list (st_chans (sv_store sample_server) 1)) \<le> 2"
  using reachable_server_consistent [OF sample_submap sample_channel sample_reachable]
  by (auto simp: sample_queue_def)

text \<open>
  C4: the whole of a TCP or Unix connection, from the greeting to the end of the session and
  with every error path, acts on the shared server only by such atomic actions: it takes a
  reachable server to a reachable server.
\<close>

theorem connections_refine_actions:
  "(handle_tcp_stream ext addr timeout acceptor allow_no_tls nodelay w = Some (r, w') \<longrightarrow>
      acts ext (w_server w) (w_server w') \<and>
      (server_reachable ext (w_server w) \<longrightarrow> server_reachable ext (w_server w'))) \<and>
   (handle_unix_stream ext path timeout w = Some (r, w') \<longrightarrow>
      acts ext (w_server w) (w_server w') \<and>
      (server_reachable ext (w_server w) \<longrightarrow> server_reachable ext (w_server w')))"
  using handle_tcp_acts handle_unix_acts acts_reachable by blast

theorem connections_refine_actions_witness:
  "\<exists>r w'. handle_unix_stream sample_ext [] 5 \<lparr>w_stream = SStream_new [] None 0 5, w_server = sample_server\<rparr> = Some (r, w') \<and>
     acts sample_ext sample_server (w_server w')"
proof -
  let ?w = "\<lparr>w_stream = SStream_new [] None 0 5, w_server = sample_server\<rparr>"
  have "unix_login sample_ext 5 ?w = (Inl Error_from_elapsed, ?w\<lparr>w_stream := (SStream_new [] None 0 5)\<lparr>s_now := 5\<rparr>\<rparr>)"
    by (simp add: unix_login_def init_unix_stream_def io_bind_def on_stream_def read_with_timeout_def SStream_new_def
        arrival_def)
  then have e: "handle_unix_stream sample_ext [] 5 ?w =
      Some (Inl Error_from_elapsed, ?w\<lparr>w_stream := (SStream_new [] None 0 5)\<lparr>s_now := 5\<rparr>\<rparr>)"
    by (simp add: handle_unix_stream_def)
  then have "acts sample_ext (w_server ?w) (w_server (?w\<lparr>w_stream := (SStream_new [] None 0 5)\<lparr>s_now := 5\<rparr>\<rparr>))"
    using connections_refine_actions by blast
  with e show ?thesis by (intro exI conjI) (assumption, simp)
qed

end
