(* ===== verification/Control_Props.thy ===== *)
theory Control_Props
  imports Server_Steps
begin

text \<open>
  Correctness of the control sessions of \<^verbatim>\<open>src/src/server.rs\<close>: the time an operation takes, what
  the operations do on every branch, what a session may do under its access list, and what it
  leaves behind.
\<close>

section \<open>Time\<close>

definition in_time :: "instant \<Rightarrow> duration \<Rightarrow> ('m, 'ch) World \<Rightarrow> ('m, 'ch) World \<Rightarrow> bool" where
  "in_time op_start timeout w w' \<longleftrightarrow>
     (op_start \<le> s_now (w_stream w) \<and> s_now (w_stream w) \<le> op_start + timeout \<longrightarrow>
      s_now (w_stream w) \<le> s_now (w_stream w') \<and> s_now (w_stream w') \<le> op_start + timeout) \<and>
     s_timeout (w_stream w') = s_timeout (w_stream w)"

lemma in_time_order: "reflp (in_time i t)" "transp (in_time i t)"
  by (auto simp: in_time_def reflp_def transp_def)

lemma in_time_pieces:
  "io_keeps (in_time i t) (read_within n t i)" "io_keeps (in_time i t) (frame_within l t i)"
  "io_keeps (in_time i t) (respond_status b)" "io_keeps (in_time i t) respond_ok" "io_keeps (in_time i t) respond_err"
  "io_keeps (in_time i t) respond_deny" "io_keeps (in_time i t) (on_server f)" "io_keeps (in_time i t) (with_server g)"
proof -
  have b: "s_now (snd (read_with_timeout n (reduce_timeout t i (s_now s)) s)) \<le> i + t"
    "s_now (snd (read_frame_with_timeout m (reduce_timeout t i (s_now s)) s)) \<le> i + t"
    if "i \<le> s_now s" "s_now s \<le> i + t" for s m
    using read_with_timeout_now(2) [of n "reduce_timeout t i (s_now s)" s]
      read_frame_now(2) [of m "reduce_timeout t i (s_now s)" s] reduce_timeout_spent [OF that(1), of t] that(2)
    by simp_all
  show "io_keeps (in_time i t) (read_within n t i)" "io_keeps (in_time i t) (frame_within l t i)"
    by (auto simp: io_keeps_def in_time_def read_within_def frame_within_def on_stream_fst_snd remaining_def b
        read_with_timeout_now read_frame_now)
  show "io_keeps (in_time i t) (respond_status b)" "io_keeps (in_time i t) respond_ok" "io_keeps (in_time i t) respond_err"
    "io_keeps (in_time i t) respond_deny" "io_keeps (in_time i t) (on_server f)" "io_keeps (in_time i t) (with_server g)" for b
    by (auto simp: io_keeps_def in_time_def on_stream_fst_snd respond_status_def respond_ok_def respond_err_def
        respond_deny_def stream_write_def)
qed

lemmas in_time_intros = io_keeps_bind [OF in_time_order(2)] io_keeps_pure [OF in_time_order(1)] in_time_pieces

lemma in_time_control_op: "io_keeps (in_time i t) (control_op ext client acl t i cmd)"
  by (auto simp: control_op_def op_subscribe_def op_unsubscribe_def op_publish_def publish_frame_def
      op_publish_repl_def Let_def intro!: in_time_intros split: sum.split)

lemma control_step_time:
  assumes "control_step ext client acl timeout w = (r, w')" and t: "s_timeout (w_stream w) = timeout"
  shows "s_now (w_stream w) \<le> s_now (w_stream w')" and "s_now (w_stream w') \<le> s_now (w_stream w) + timeout"
    and "s_timeout (w_stream w') = timeout"
proof -
  obtain x s where r: "stream_read 1 (w_stream w) = (x, s)" by (cases "stream_read 1 (w_stream w)")
  let ?i = "s_now (w_stream w)"
  have "s = snd (read_with_timeout 1 timeout (w_stream w))" using r t by (simp add: stream_read_def)
  then have s: "?i \<le> s_now s" "s_now s \<le> ?i + timeout" "s_timeout s = timeout"
    using t by (simp_all add: read_with_timeout_now)
  have "in_time ?i timeout (w\<lparr>w_stream := s\<rparr>)
      (snd (control_op ext client acl timeout ?i cmd (w\<lparr>w_stream := s\<rparr>)))" for cmd
    by (rule io_keepsD [OF in_time_control_op])
  then have c: "s_now s \<le> s_now (w_stream (snd (control_op ext client acl timeout ?i cmd (w\<lparr>w_stream := s\<rparr>))))"
    "s_now (w_stream (snd (control_op ext client acl timeout ?i cmd (w\<lparr>w_stream := s\<rparr>)))) \<le> ?i + timeout"
    "s_timeout (w_stream (snd (control_op ext client acl timeout ?i cmd (w\<lparr>w_stream := s\<rparr>)))) = timeout" for cmd
    using s by (auto simp: in_time_def)
  have w': "w' = (case x of Inl _ \<Rightarrow> w\<lparr>w_stream := s\<rparr>
      | Inr cmd \<Rightarrow> snd (control_op ext client acl timeout ?i (hd cmd) (w\<lparr>w_stream := s\<rparr>)))"
    using assms(1) r by (auto simp: control_step_def io_bind_def split: sum.splits)
  show "?i \<le> s_now (w_stream w')" and "s_now (w_stream w') \<le> ?i + timeout" and "s_timeout (w_stream w') = timeout"
    using s c order_trans [OF s(1) c(1)] by (auto simp: w' split: sum.splits)
qed

section \<open>Subscriptions\<close>

definition may_subscribe :: "Acl \<Rightarrow> nat \<Rightarrow> str \<Rightarrow> bool" where
  "may_subscribe acl depth topic \<longleftrightarrow> allow_read acl topic \<and> count_list (canonical_topic topic) slash \<le> depth"

lemma subscribe_cases:
  "subscribe sm d topic c db =
     (if count_list (canonical_topic topic) slash \<le> d
      then (Inr (), db\<lparr>db_submap := snd (sm_subscribe sm (canonical_topic topic) c (db_submap db))\<rparr>)
      else (Inl (Error_invalid_data (lit ''the topic is too deep'')), db))"
  by (simp add: subscribe_def io_bind_def prepare_topic_normalized normalized_canonical)

lemma subscribe_topics_prefix:
  assumes "ok = takeWhile (may_subscribe acl (MAX_TOPIC_DEPTH (sv_statics sv))) topics"
  shows "subscribe_topics ext c acl topics sv =
    ((if length ok = length topics then RESPONSE_OK
      else if allow_read acl (topics ! length ok) then RESPONSE_ERR else RESPONSE_ERR_ACCESS),
     sv\<lparr>sv_db := fold (\<lambda>t db. snd (subscribe (ext_submap ext) (MAX_TOPIC_DEPTH (sv_statics sv)) t c db)) ok (sv_db sv),
        sv_counters := (count_sub_ops ^^ length ok) (sv_counters sv)\<rparr>)"
  using assms
proof (induction topics arbitrary: sv ok)
  case Nil
  then show ?case by simp
next
  case (Cons t ts)
  let ?d = "MAX_TOPIC_DEPTH (sv_statics sv)"
  let ?db = "snd (subscribe (ext_submap ext) ?d t c (sv_db sv))"
  show ?case
  proof (cases "may_subscribe acl ?d t")
    case True
    then have "subscribe_topics ext c acl (t # ts) sv =
        subscribe_topics ext c acl ts (count count_sub_ops (sv\<lparr>sv_db := ?db\<rparr>))"
      by (simp add: may_subscribe_def subscribe_cases)
    also have "\<dots> = ((if length (tl ok) = length ts then RESPONSE_OK
        else if allow_read acl (ts ! length (tl ok)) then RESPONSE_ERR else RESPONSE_ERR_ACCESS),
      sv\<lparr>sv_db := fold (\<lambda>t db. snd (subscribe (ext_submap ext) ?d t c db)) (tl ok) ?db,
         sv_counters := (count_sub_ops ^^ length (tl ok)) (count_sub_ops (sv_counters sv))\<rparr>)"
      using Cons.IH [of "tl ok" "count count_sub_ops (sv\<lparr>sv_db := ?db\<rparr>)"] Cons.prems True by (simp add: count_def)
    finally show ?thesis
      using Cons.prems True by (simp add: funpow_swap1)
  next
    case False
    then show ?thesis
      using Cons.prems by (auto simp: may_subscribe_def subscribe_cases)
  qed
qed

section \<open>Publications\<close>

text \<open>A response byte on a stream whose writes succeed.\<close>

definition replied :: "u8 \<Rightarrow> ('m, 'ch) World \<Rightarrow> ('m, 'ch) World" where
  "replied b w = w\<lparr>w_stream := (w_stream w)\<lparr>s_out := s_out (w_stream w) @ [b]\<rparr>\<rparr>"

lemma respond_replied:
  assumes "s_wfault (w_stream w) = None"
  shows "respond_status b w = (Inr (), replied b w)" "respond_ok w = (Inr (), replied RESPONSE_OK w)"
    "respond_err w = (Inr (), replied RESPONSE_ERR w)" "respond_deny w = (Inr (), replied RESPONSE_ERR_ACCESS w)"
  using assms by (simp_all add: respond_status_ok respond_ok_def respond_err_def respond_deny_def replied_def)

lemma publish_frame_cases:
  assumes "0 \<notin> set topic" and "utf8_valid topic" and "topic \<noteq> []" and f: "s_wfault (w_stream w) = None"
    and t: "t = canonical_topic topic"
    and w1: "w1 = w\<lparr>w_server := count (count_pub_bytes (word_of_nat (length topic + 1 + length data))) (w_server w)\<rparr>"
  shows "publish_frame ext acl priority timestamp (topic @ 0 # data) w =
    (if count_list t slash > MAX_TOPIC_DEPTH (sv_statics (w_server w)) then (Inr (), replied RESPONSE_ERR w1)
     else if has_invalid_symbols t then (Inl (Error_invalid_data ERR_INVALID_DATA_BLOCK), w1)
     else if allow_write acl t then
       (Inr (), replied RESPONSE_OK (w1\<lparr>w_server := publish ext priority t data timestamp (w_server w1)\<rparr>))
     else (Inr (), replied RESPONSE_ERR_ACCESS w1))"
proof -
  have pos: "position (\<lambda>n. n = 0) (topic @ 0 # data) = Some (length topic)"
    using assms(1) by (intro position_append) auto
  have st: "sv_statics (w_server w1) = sv_statics (w_server w)" "w_stream w1 = w_stream w"
    by (simp_all add: w1 count_def)
  have c: "io_bind (on_server (count (count_pub_bytes (word_of_nat (length (topic @ 0 # data)))))) k w = k () w1"
    for k :: "unit \<Rightarrow> ('a, 'b, unit) handler"
    by (rule io_bind_Inr) (simp add: w1 add_ac)
  have "publish_frame ext acl priority timestamp (topic @ 0 # data) w =
    (case prepare_topic (MAX_TOPIC_DEPTH (sv_statics (w_server w))) topic of
       Inr t \<Rightarrow>
         if has_invalid_symbols t then (Inl (Error_invalid_data ERR_INVALID_DATA_BLOCK), w1)
         else if allow_write acl t then
           io_bind (on_server (publish ext priority t data timestamp)) (\<lambda>_. respond_ok) w1
         else respond_deny w1
     | Inl _ \<Rightarrow> respond_err w1)"
    unfolding publish_frame_def c pos ok_or_simps io_bind_eval Let_def
    using assms(2,3) st by (simp add: utf8_valid_Inr io_bind_eval split: sum.split)
  then show ?thesis
    using f st by (simp add: prepare_topic_normalized normalized_canonical t respond_replied io_bind_def)
qed

section \<open>What a session may do\<close>

text \<open>
  The steps that an access list \<open>acl\<close> entitles the session of the client \<open>c\<close> to: subscribing to a
  topic it may read, unsubscribing, queueing (and replicating) a message on a topic it may write,
  queueing any message for a replicator, counting.
\<close>

inductive authorised ::
  "('m, 'ch) Ext \<Rightarrow> ServerClient \<Rightarrow> Acl \<Rightarrow> ('m, 'ch) Server \<Rightarrow> ('m, 'ch) Server \<Rightarrow> bool"
  for ext :: "('m, 'ch) Ext" and c :: ServerClient and acl :: Acl where
  may_read: "allow_read acl topic \<Longrightarrow>
     authorised ext c acl sv
       (sv\<lparr>sv_db := snd (subscribe (ext_submap ext) (MAX_TOPIC_DEPTH (sv_statics sv)) topic c (sv_db sv))\<rparr>)"
| may_leave: "authorised ext c acl sv
       (sv\<lparr>sv_db := snd (unsubscribe (ext_submap ext) (MAX_TOPIC_DEPTH (sv_statics sv)) topic c (sv_db sv))\<rparr>)"
| may_write: "allow_write acl topic \<Longrightarrow> authorised ext c acl sv (publish ext priority topic data timestamp sv)"
| may_replicate: "is_replicator acl \<Longrightarrow> ext_cluster ext \<Longrightarrow>
     authorised ext c acl sv (push_to_subscribers ext S priority topic data timestamp sv)"
| may_count: "authorised ext c acl sv (count f sv)"

inductive_cases authorisedE: "authorised ext c acl sv sv'"

definition stays_authorised ::
  "('m, 'ch) Ext \<Rightarrow> ServerClient \<Rightarrow> Acl \<Rightarrow> ('m, 'ch) World \<Rightarrow> ('m, 'ch) World \<Rightarrow> bool" where
  "stays_authorised ext c acl w w' \<longleftrightarrow> (authorised ext c acl)\<^sup>*\<^sup>* (w_server w) (w_server w')"

lemma stays_authorised_order: "reflp (stays_authorised ext c acl)" "transp (stays_authorised ext c acl)"
  by (auto simp: stays_authorised_def reflp_def transp_def)

lemma authorised_subscribe:
  "(authorised ext c acl)\<^sup>*\<^sup>* sv (snd (subscribe_topics ext c acl topics sv))"
proof (induction topics arbitrary: sv)
  case (Cons t ts)
  let ?s = "sv\<lparr>sv_db := snd (subscribe (ext_submap ext) (MAX_TOPIC_DEPTH (sv_statics sv)) t c (sv_db sv))\<rparr>"
  have "(authorised ext c acl)\<^sup>*\<^sup>* sv ?s" if "allow_read acl t"
    by (rule r_into_rtranclp, rule may_read, rule that)
  moreover have "(authorised ext c acl)\<^sup>*\<^sup>* ?s (snd (subscribe_topics ext c acl ts (count count_sub_ops ?s)))"
    by (rule converse_rtranclp_into_rtranclp [OF may_count Cons])
  ultimately show ?case by (auto split: prod.splits sum.splits intro: rtranclp_trans)
qed simp

lemma authorised_unsubscribe:
  "(authorised ext c acl)\<^sup>*\<^sup>* sv (snd (unsubscribe_topics ext c topics sv))"
proof (induction topics arbitrary: sv)
  case (Cons t ts)
  let ?u = "sv\<lparr>sv_db := snd (unsubscribe (ext_submap ext) (MAX_TOPIC_DEPTH (sv_statics sv)) t c (sv_db sv))\<rparr>"
  have "(authorised ext c acl)\<^sup>*\<^sup>* sv ?u" by (blast intro: may_leave)
  moreover have "(authorised ext c acl)\<^sup>*\<^sup>* ?u (snd (unsubscribe_topics ext c ts (count count_sub_ops ?u)))"
    by (rule converse_rtranclp_into_rtranclp [OF may_count Cons])
  ultimately show ?case by (auto split: prod.splits sum.splits intro: rtranclp_trans)
qed simp

lemma stays_authorised_pieces:
  "io_keeps (stays_authorised ext c acl) (read_within n t i)"
  "io_keeps (stays_authorised ext c acl) (frame_within l t i)"
  "io_keeps (stays_authorised ext c acl) (respond_status b)"
  "io_keeps (stays_authorised ext c acl) respond_ok" "io_keeps (stays_authorised ext c acl) respond_err"
  "io_keeps (stays_authorised ext c acl) respond_deny" "io_keeps (stays_authorised ext c acl) (on_stream f)"
  "io_keeps (stays_authorised ext c acl) (on_server (count g))"
  "io_keeps (stays_authorised ext c acl) (with_server (subscribe_topics ext c acl topics))"
  "io_keeps (stays_authorised ext c acl) (with_server (unsubscribe_topics ext c topics))"
  "allow_write acl topic \<Longrightarrow> io_keeps (stays_authorised ext c acl) (on_server (publish ext p topic d ts))"
  "is_replicator acl \<Longrightarrow> ext_cluster ext \<Longrightarrow>
     io_keeps (stays_authorised ext c acl) (on_server (push_to_subscribers ext S p topic d ts))"
  by (auto simp: io_keeps_def stays_authorised_def stream_only authorised_subscribe authorised_unsubscribe
      intro: may_count may_write may_replicate)

lemmas stays_authorised_intros =
  io_keeps_bind [OF stays_authorised_order(2)] io_keeps_pure [OF stays_authorised_order(1)] stays_authorised_pieces

lemma stays_authorised_step: "io_keeps (stays_authorised ext c acl) (control_step ext c acl timeout)"
  by (auto simp: control_step_def control_op_def op_subscribe_def op_unsubscribe_def op_publish_def
      publish_frame_def op_publish_repl_def Let_def intro!: stays_authorised_intros split: sum.split)

lemma process_control_authorised:
  "(authorised ext c acl)\<^sup>*\<^sup>* (w_server w) (w_server (snd (process_control ext c acl timeout w)))"
  using process_control_keeps [OF stays_authorised_order stays_authorised_step] by (simp add: stays_authorised_def)

section \<open>What a session leaves behind\<close>

text \<open>A task of a client is in its cell or has been aborted, and stays so.\<close>

definition tasks_accounted :: "'ch store \<Rightarrow> 'ch store \<Rightarrow> bool" where
  "tasks_accounted st st' \<longleftrightarrow>
     st_aborted st \<subseteq> st_aborted st' \<and>
     (\<forall>r. set (client_tasks (st_cells st r)) \<subseteq> set (client_tasks (st_cells st' r)) \<union> st_aborted st')"

lemma tasks_accounted_order: "reflp tasks_accounted" "transp tasks_accounted"
  unfolding tasks_accounted_def reflp_def transp_def by blast+

lemma tasks_push_one: "tasks_accounted st (push_one ext db m s st)"
  by (auto simp: tasks_accounted_def push_one_def abort_tasks_def unregister_data_channel_def Let_def
      split: option.splits)

lemma tasks_push_fold: "tasks_accounted st (fold (push_one ext db m) S st)"
proof (induction S arbitrary: st)
  case Nil
  then show ?case by (simp add: reflpD [OF tasks_accounted_order(1)])
next
  case (Cons s S)
  show ?case
    using transpD [OF tasks_accounted_order(2) tasks_push_one [of st ext db m s] Cons [of "push_one ext db m s st"]]
    by simp
qed

lemma tasks_authorised:
  "authorised ext c acl sv sv' \<Longrightarrow> tasks_accounted (sv_store sv) (sv_store sv')"
  by (erule authorisedE)
    (auto simp: count_def publish_def push_to_subscribers_def Let_def tasks_push_fold reflpD [OF tasks_accounted_order(1)])

lemma tasks_session:
  assumes "(authorised ext c acl)\<^sup>*\<^sup>* sv sv'"
  shows "tasks_accounted (sv_store sv) (sv_store sv')"
  using assms
proof (induction rule: rtranclp_induct)
  case base
  then show ?case by (simp add: reflpD [OF tasks_accounted_order(1)])
next
  case (step y z)
  show ?case by (rule transpD [OF tasks_accounted_order(2) step.IH tasks_authorised [OF step.hyps(2)]])
qed

lemma run_session_written:
  assumes "stream_write (token_as_bytes c) (w_stream w) = (Inr (), s)"
    and "run_session ext c acl timeout w = (r, w')"
  obtains sv2 where "session_acts ext c w (w\<lparr>w_server := sv2\<rparr>)" and "w_server w' = end_session ext c sv2"
    and "tasks_accounted (sv_store (w_server w)) (sv_store sv2)"
proof -
  let ?w1 = "w\<lparr>w_stream := s\<rparr>"
  obtain r2 w2 where 2: "process_control ext c acl timeout ?w1 = (r2, w2)"
    by (cases "process_control ext c acl timeout ?w1")
  have "session_acts ext c w (w\<lparr>w_server := w_server w2\<rparr>)"
    using session_acts_control [of ext c ?w1 acl timeout] 2 by (simp add: session_acts_def)
  moreover have "w_server w' = end_session ext c (w_server w2)"
    using assms 2 by (auto simp: run_session_def io_bind_def split: sum.splits)
  moreover have "tasks_accounted (sv_store (w_server w)) (sv_store (w_server w2))"
    using tasks_session [OF process_control_authorised [of ext c acl ?w1 timeout]] 2 by simp
  ultimately show thesis by (rule that)
qed

section \<open>Publications in a reachable server\<close>

lemma sorted_distinct_clients: "sorted_wrt client_less xs \<Longrightarrow> distinct xs"
  by (induction xs) (auto simp: client_less_def)

context server_env
begin

lemma subscribers_ready:
  assumes "inv sv"
  shows "\<forall>s \<in> set (get_subscribers (ext_submap ext) t (sv_db sv)). db_clients (sv_db sv) (cl_token s) = Some s"
    and "distinct (map cl_ref (get_subscribers (ext_submap ext) t (sv_db sv)))"
    and "channels_private (sv_store sv)"
proof -
  let ?S = "get_subscribers (ext_submap ext) t (sv_db sv)"
  note db = invD(1) [OF assms] and st = invD(2) [OF assms]
  have sub: "set ?S \<subseteq> ran (db_clients (sv_db sv))"
    using sm.subscribers_registered [OF sm.inv_dbD(1) [OF db], of t] sm.inv_dbD(2) [OF db]
    by (simp add: get_subscribers_def)
  show "\<forall>s \<in> set ?S. db_clients (sv_db sv) (cl_token s) = Some s"
  proof
    fix s assume "s \<in> set ?S"
    then obtain tok where "db_clients (sv_db sv) tok = Some s" using sub by (auto simp: ran_def)
    moreover from this have "cl_token s = tok" by (rule sm.inv_dbD(3) [OF db])
    ultimately show "db_clients (sv_db sv) (cl_token s) = Some s" by simp
  qed
  have "distinct ?S"
    using sorted_distinct_clients sm.subscribers_sorted [OF sm.inv_dbD(1) [OF db]] by (simp add: get_subscribers_def)
  moreover have "inj_on cl_ref (set ?S)" using st sub by (auto simp: store_inv_def intro: inj_on_subset)
  ultimately show "distinct (map cl_ref ?S)" by (simp add: distinct_map)
  show "channels_private (sv_store sv)" using st by (simp add: store_inv_def)
qed

lemma publish_queue:
  assumes "inv sv" and "plain_topic t" and "\<forall>x \<in> subs (db_submap (sv_db sv)). wf_pattern (fst x)"
    and dc: "get_data_channel c (sv_store sv) = Some dc" and c: "db_clients (sv_db sv) (cl_token c) = Some c"
    and room: "\<not> closed (st_chans (sv_store sv) dc)"
      "length (queued (st_chans (sv_store sv) dc)) < DATA_QUEUE_SIZE (sv_statics sv)"
    and sv': "sv' = publish ext priority t data timestamp sv"
  shows "get_data_channel c (sv_store sv') = Some dc"
    and "queued (st_chans (sv_store sv') dc) = queued (st_chans (sv_store sv) dc) @
      (if \<exists>p. (p, c) \<in> subs (db_submap (sv_db sv)) \<and> topic_matches p t
       then [\<lparr>mf_timestamp = Some timestamp, mf_frame = message_frame priority t data, mf_data = Some data\<rparr>] else [])"
proof -
  let ?S = "get_subscribers (ext_submap ext) t (sv_db sv)" and ?st = "sv_store sv"
  let ?m = "\<lparr>mf_timestamp = Some timestamp, mf_frame = message_frame priority t data, mf_data = Some data\<rparr>"
  note ready = subscribers_ready [OF assms(1)]
  have S: "c \<in> set ?S \<longleftrightarrow> (\<exists>p. (p, c) \<in> subs (db_submap (sv_db sv)) \<and> topic_matches p t)"
    using sm.subscribers_exact [OF invD(1) [OF assms(1)] assms(3,2)] by simp
  have st': "sv_store sv' = fold (push_one ext (sv_db sv) ?m) ?S ?st"
    by (simp add: sv' publish_def push_to_subscribers_def Let_def)
  have cap: "capacity (st_chans ?st dc) = DATA_QUEUE_SIZE (sv_statics sv)"
    using invD(2) [OF assms(1)] dc by (auto simp: store_inv_def queue_bound_def get_data_channel_def)
  have reg: "\<And>s. s \<in> set ?S \<Longrightarrow> db_clients (sv_db sv) (cl_token s) = Some s" using ready(1) by blast
  have "get_data_channel c (sv_store sv') = Some dc \<and>
      queued (st_chans (sv_store sv') dc) = queued (st_chans ?st dc) @ (if c \<in> set ?S then [?m] else [])"
  proof (cases "c \<in> set ?S")
    case True
    have "delivered ext ?m ?st (sv_store sv') c"
      unfolding st' by (rule push_fold_delivered [OF reg ready(2,3) True])
    then show ?thesis using ch.delivered_queue [OF _ refl dc] room cap True by fastforce
  next
    case False
    have other: "cl_ref s \<noteq> cl_ref c" if "s \<in> set ?S" for s
    proof
      assume "cl_ref s = cl_ref c"
      moreover have "s \<in> ran (db_clients (sv_db sv))" "c \<in> ran (db_clients (sv_db sv))"
        using reg [OF that] c by (auto intro: ranI)
      ultimately have "s = c" using invD(2) [OF assms(1)] by (auto simp: store_inv_def dest: inj_onD)
      with that False show False by simp
    qed
    have "st_cells (sv_store sv') (cl_ref c) = st_cells ?st (cl_ref c)"
      unfolding st' by (rule push_fold_other_cell [OF reg other])
    moreover have "st_chans (sv_store sv') dc = st_chans ?st dc"
      unfolding st'
    proof (rule push_fold_other_chan [OF reg])
      fix s assume "s \<in> set ?S"
      then show "get_data_channel s ?st \<noteq> Some dc"
        using other ready(3) dc unfolding channels_private_def get_data_channel_def by metis
    qed
    ultimately show ?thesis using False dc by (simp add: get_data_channel_def)
  qed
  then show "get_data_channel c (sv_store sv') = Some dc"
    and "queued (st_chans (sv_store sv') dc) = queued (st_chans ?st dc) @
      (if \<exists>p. (p, c) \<in> subs (db_submap (sv_db sv)) \<and> topic_matches p t then [?m] else [])"
    using S by auto
qed

end

section \<open>Access lists and topic patterns\<close>

lemma allow_read_admits:
  assumes "allow_read acl p" and "topic_matches p t" and "\<forall>c \<in> set (split_on slash p). \<not> is_str_any c"
  shows "allow_read acl t"
proof -
  obtain l m where l: "acl_read acl = Some l" and m: "m \<in> path_masks l"
    and pm: "PathMask_matches_split m (split_on slash p)"
    using assms(1)
    by (auto simp: allow_read_def PathMaskList_matches_def PathMaskList_matches_split_def split: option.splits)
  have "PathMask_matches_split m (split_on slash t)"
    using pm assms(2,3) mask_admits_pattern [of "split_on slash p" _ "split_on slash t"]
    by (auto simp: PathMask_matches_split_def topic_matches_def split: option.splits)
  then show ?thesis
    using l m by (auto simp: allow_read_def PathMaskList_matches_def PathMaskList_matches_split_def)
qed

definition acl_reading :: "str list \<Rightarrow> Acl" where
  "acl_reading cs =
     \<lparr>acl_admin = False, acl_replicator = False, acl_read = Some (PathMaskList_new {PathMask (Some cs)}),
      acl_write = None\<rparr>"

lemma allow_read_one: "allow_read (acl_reading cs) t \<longleftrightarrow> matches_loop (split_on slash t) cs"
  by (simp add: allow_read_def acl_reading_def PathMaskList_matches_def PathMaskList_matches_split_def
      PathMaskList_new_def PathMask_matches_split_def)

section \<open>Properties\<close>

text \<open>
  C2: a published message lands, once and at the end, in the queue of exactly those attached
  clients that have a subscription matching the topic: in a reachable server, for a client with
  an open queue that is not full, publishing appends the message if a pattern of the client
  matches and leaves the queue alone otherwise, and the client keeps its data channel.
\<close>

theorem publish_reaches_subscribers:
  assumes "submap_laws (ext_submap ext) clients subs invar"
    and "bounded_channel (ext_chan ext) queued capacity closed"
    and "server_reachable ext sv"
    and "plain_topic t" and "\<forall>x \<in> subs (db_submap (sv_db sv)). wf_pattern (fst x)"
    and "get_data_channel c (sv_store sv) = Some dc" and "db_clients (sv_db sv) (cl_token c) = Some c"
    and "\<not> closed (st_chans (sv_store sv) dc)"
    and "length (queued (st_chans (sv_store sv) dc)) < DATA_QUEUE_SIZE (sv_statics sv)"
  shows "get_data_channel c (sv_store (publish ext priority t data timestamp sv)) = Some dc \<and>
    queued (st_chans (sv_store (publish ext priority t data timestamp sv)) dc) =
      queued (st_chans (sv_store sv) dc) @
      (if \<exists>p. (p, c) \<in> subs (db_submap (sv_db sv)) \<and> topic_matches p t
       then [\<lparr>mf_timestamp = Some timestamp, mf_frame = message_frame priority t data, mf_data = Some data\<rparr>] else [])"
proof -
  note env = server_env.intro [OF assms(1,2)]
  show ?thesis
    using server_env.publish_queue [OF env server_env.reachable_inv [OF env assms(3)] assms(4-9) refl] by blast
qed

theorem publish_reaches_subscribers_witness:
  "map mf_data (q_list (st_chans (sv_store (publish sample_ext 127 (lit ''a/b'') [1, 2] 0 sample_server)) 1)) = [Some [1, 2]]"
proof -
  have t: "plain_topic (lit ''a/b'')" and m: "topic_matches (lit ''a/+'') (lit ''a/b'')" and p: "wf_pattern (lit ''a/+'')"
    by code_simp+
  have "\<exists>p. (p, sample_client) \<in> lm_sub_set (db_submap (sv_db sample_server)) \<and> topic_matches p (lit ''a/b'')"
    using m by (auto simp: sample_db_def)
  then show ?thesis
    using publish_reaches_subscribers [OF sample_submap sample_channel sample_reachable t,
        of sample_client 1 127 "[1, 2]" 0] p
    by (simp add: sample_db_def sample_queue_def) (simp add: sample_server_def)
qed

text \<open>
  C12: \<^verbatim>\<open>OP_PUBLISH\<close> on every branch.  With a non-empty UTF-8 topic the message is counted; a topic
  that is too deep is answered with an error, one with a wildcard ends the session, one the
  access list does not allow to write is denied, and in these cases nothing is queued or
  replicated; otherwise the message is published under the canonical topic and acknowledged.
\<close>

theorem publish_frame_branches:
  assumes "0 \<notin> set topic" and "utf8_valid topic" and "topic \<noteq> []" and "s_wfault (w_stream w) = None"
  shows "publish_frame ext acl priority timestamp (topic @ 0 # data) w =
    (let t = canonical_topic topic;
         w1 = w\<lparr>w_server := count (count_pub_bytes (word_of_nat (length topic + 1 + length data))) (w_server w)\<rparr>
     in if count_list t slash > MAX_TOPIC_DEPTH (sv_statics (w_server w)) then (Inr (), replied RESPONSE_ERR w1)
        else if has_invalid_symbols t then (Inl (Error_invalid_data ERR_INVALID_DATA_BLOCK), w1)
        else if allow_write acl t then
          (Inr (), replied RESPONSE_OK (w1\<lparr>w_server := publish ext priority t data timestamp (w_server w1)\<rparr>))
        else (Inr (), replied RESPONSE_ERR_ACCESS w1))"
  using publish_frame_cases [OF assms refl refl] by (simp only: Let_def)

theorem publish_frame_branches_witness:
  "fst (publish_frame sample_ext sample_acl 127 0 (lit ''/b'' @ 0 # [1, 2])
      \<lparr>w_stream = SStream_new [] None 0 5, w_server = sample_server\<rparr>) = Inr () \<and>
   s_out (w_stream (snd (publish_frame sample_ext sample_acl 127 0 (lit ''/b'' @ 0 # [1, 2])
      \<lparr>w_stream = SStream_new [] None 0 5, w_server = sample_server\<rparr>))) = [RESPONSE_ERR_ACCESS]"
proof -
  have t: "0 \<notin> set (lit ''/b'')" "utf8_valid (lit ''/b'')" "lit ''/b'' \<noteq> []" by code_simp+
  have c: "canonical_topic (lit ''/b'') = lit ''b''" "count_list (lit ''b'') slash = 0"
    "\<not> has_invalid_symbols (lit ''b'')" by code_simp+
  have "\<not> allow_write sample_acl (lit ''b'')"
    by (simp add: allow_write_def sample_acl_def PathMaskList_matches_def PathMaskList_matches_split_def
        PathMaskList_new_def PathMask_matches_split_def) code_simp
  then show ?thesis
    using publish_frame_branches [OF t, of "\<lparr>w_stream = SStream_new [] None 0 5, w_server = sample_server\<rparr>"
        sample_ext sample_acl 127 0 "[1, 2]"] c
    by (simp add: SStream_new_def replied_def Let_def)
qed

text \<open>
  C13: the topics of a \<^verbatim>\<open>OP_SUBSCRIBE\<close> are handled in order up to the first one that the access list
  does not allow to read or that is too deep: exactly those before it are subscribed and
  counted, and the response tells which of the two it was.
\<close>

theorem subscribe_stops_at_first_failure:
  "subscribe_topics ext c acl topics sv =
    (let ok = takeWhile (may_subscribe acl (MAX_TOPIC_DEPTH (sv_statics sv))) topics
     in ((if length ok = length topics then RESPONSE_OK
          else if allow_read acl (topics ! length ok) then RESPONSE_ERR else RESPONSE_ERR_ACCESS),
         sv\<lparr>sv_db := fold (\<lambda>t db. snd (subscribe (ext_submap ext) (MAX_TOPIC_DEPTH (sv_statics sv)) t c db)) ok (sv_db sv),
            sv_counters := (count_sub_ops ^^ length ok) (sv_counters sv)\<rparr>))"
  unfolding Let_def by (rule subscribe_topics_prefix [OF refl])







text \<open>
  C24: an access list that allows to read the text of a pattern allows to read every topic the
  pattern stands for, when the pattern has no \<^verbatim>\<open>#\<close> and is already in the canonical form in which
  it is subscribed.
\<close>

theorem subscription_within_acl:
  assumes "allow_read acl pattern" and "canonical_topic pattern = pattern"
    and "\<forall>c \<in> set (split_on slash pattern). \<not> is_str_any c"
    and "prepare_topic depth pattern = Inr p" and "topic_matches p t"
  shows "allow_read acl t"
  using allow_read_admits [OF assms(1) _ assms(3)] assms(2,4,5)
  by (simp add: prepare_topic_Inr normalized_canonical)

theorem subscription_within_acl_witness:
  "allow_read (acl_reading [lit ''a'', lit ''+'']) (lit ''a/b'')"
proof (rule subscription_within_acl [of _ "lit ''a/+''" 9 "lit ''a/+''"])
  show "allow_read (acl_reading [lit ''a'', lit ''+'']) (lit ''a/+'')" unfolding allow_read_one by code_simp
  show "prepare_topic 9 (lit ''a/+'') = Inr (lit ''a/+'')" by code_simp
  show "\<forall>c \<in> set (split_on slash (lit ''a/+'')). \<not> is_str_any c" by code_simp
  show "canonical_topic (lit ''a/+'') = lit ''a/+''" "topic_matches (lit ''a/+'') (lit ''a/b'')" by code_simp+
qed


end
