(* ===== verification/Server_Udp.thy ===== *)
theory Server_Udp
  imports Control_Props
begin

text \<open>
  Publishing by UDP: the server's \<^verbatim>\<open>process_udp_packet\<close>, \<^verbatim>\<open>process_udp_block\<close> and the loop of
  \<^verbatim>\<open>handle_udp_listener\<close> (\<^verbatim>\<open>src/src/server.rs\<close>), and the \<^verbatim>\<open>UdpClient\<close> that makes the packets and
  reads the acknowledgements (\<^verbatim>\<open>src/src/client.rs\<close>).  An error carries whether the sender asked
  for an acknowledgement.
\<close>

section \<open>The server\<close>

type_synonym udp_error = "Error \<times> bool"

definition udp_err :: "bool \<Rightarrow> 'a result \<Rightarrow> udp_error + 'a" where
  "udp_err need_ack r = map_err (\<lambda>e. (e, need_ack)) r"

text \<open>The operation byte: whether an acknowledgement is wanted.\<close>

definition udp_op :: "u8 \<Rightarrow> udp_error + bool" where
  "udp_op b =
     (if b = OP_PUBLISH then Inr True
      else if b = OP_PUBLISH_NO_ACK then Inr False
      else Inl (Error_invalid_data (lit ''invalid opration: '' @ show_hex (unat b)), False))"

text \<open>The second piece of \<^verbatim>\<open>splitn(2, ..)\<close>, or an error.\<close>

definition second :: "udp_error \<Rightarrow> bytes list \<Rightarrow> udp_error + bytes" where
  "second e sp = (case sp of [_, y] \<Rightarrow> Inr y | _ \<Rightarrow> Inl e)"

definition udp_allowed ::
  "('m, 'ch) Ext \<Rightarrow> ('m, 'ch) Server \<Rightarrow> str \<Rightarrow> str option \<Rightarrow> unit result" where
  "udp_allowed ext sv login password =
     (case password of
        None \<Rightarrow> Inr ()
      | Some password \<Rightarrow>
          if login = [] \<and> password = [] then
            (if ALLOW_ANONYMOUS (sv_statics sv) then Inr () else Inl (Error_access (lit ''anonymous access failed'')))
          else if authenticate ext sv login password then Inr ()
          else Inl (Error_access (lit ''authentication failed'')))"

definition process_udp_block ::
  "('m, 'ch) Ext \<Rightarrow> str \<Rightarrow> str option \<Rightarrow> bytes \<Rightarrow> u64 \<Rightarrow> (('m, 'ch) Server, udp_error, bool) io" where
  "process_udp_block ext login password block timestamp =
     (let sp = splitn2 0 block; buf = hd sp in
      if length buf < 3 then io_throw (Error_invalid_data (lit ''invalid data block''), False)
      else
        io_bind (io_lift (udp_op (buf ! 0))) (\<lambda>need_ack.
        let priority = buf ! 1 in
        io_bind (io_lift (udp_err need_ack (utf8 (drop 2 buf)))) (\<lambda>topic.
        io_bind (io_lift (second (Error_invalid_data (lit ''data missing''), need_ack) sp)) (\<lambda>data.
        io_bind (io_get (\<lambda>sv. sv)) (\<lambda>sv.
        io_bind (io_lift (udp_err need_ack (udp_allowed ext sv login password))) (\<lambda>_.
        case get_acl sv login of
          None \<Rightarrow> io_throw (Error_access (lit ''No ACL for '' @ format_login login), need_ack)
        | Some acl \<Rightarrow>
            io_bind (io_lift (udp_err need_ack (prepare_topic (MAX_TOPIC_DEPTH (sv_statics sv)) topic))) (\<lambda>topic.
            if has_invalid_symbols topic then io_throw (Error_invalid_data ERR_INVALID_DATA_BLOCK, need_ack)
            else if \<not> allow_write acl topic then
              io_throw (Error_access (lit ''pub access denied for '' @ topic), need_ack)
            else
              io_bind (io_modify (publish ext priority topic data timestamp)) (\<lambda>_. io_return need_ack))))))))"

text \<open>What the packet says before its block is looked at: login, password and the plain block.\<close>

definition open_udp_packet ::
  "('m, 'ch) Ext \<Rightarrow> ('m, 'ch) Server \<Rightarrow> bytes \<Rightarrow> (udp_error + str \<times> str option \<times> bytes) outcome" where
  "open_udp_packet ext sv frame =
     (let bad = (\<lambda>m. Returns (Inl (Error_invalid_data (lit m), False))) in
      if length frame < 5 then bad ''packet too small''
      else if take 2 frame \<noteq> CONTROL_HEADER then bad ''invalid header''
      else if u16_from_le_bytes [frame ! 2, frame ! 3] \<noteq> PROTOCOL_VERSION then bad ''unsupported protocol version''
      else
        (case EncryptionType_from_byte (frame ! 4) of
           Inl e \<Rightarrow> Returns (Inl (e, False))
         | Inr etp \<Rightarrow>
             let sp = splitn2 0 (drop 5 frame) in
             (case udp_err False (utf8 (hd sp)) of
                Inl e \<Rightarrow> Returns (Inl e)
              | Inr login \<Rightarrow>
                  if need_decrypt etp then
                    (case second (Error_invalid_data (lit ''encryption block missing''), False) sp of
                       Inl e \<Rightarrow> Returns (Inl e)
                     | Inr enc \<Rightarrow>
                         (case auth_and_decr (ext_aead ext) (sv_keys sv) enc
                                 (if login = [] then lit ''_'' else login) etp of
                            Panics msg \<Rightarrow> Panics msg
                          | Returns r \<Rightarrow>
                              Returns (res_bind (udp_err False r) (\<lambda>block. Inr (login, None, block)))))
                  else
                    Returns (res_bind (second (Error_invalid_data (lit ''invalid packet format''), False) sp) (\<lambda>rest.
                      let sp2 = splitn2 0 rest in
                      res_bind (udp_err False (utf8 (hd sp2))) (\<lambda>password.
                      res_bind (second (Error_invalid_data (lit ''data missing''), False) sp2) (\<lambda>block.
                      Inr (login, Some password, block))))))))"

definition process_udp_packet ::
  "('m, 'ch) Ext \<Rightarrow> u64 \<Rightarrow> bytes \<Rightarrow> ('m, 'ch) Server \<Rightarrow> ((udp_error + bool) \<times> ('m, 'ch) Server) outcome" where
  "process_udp_packet ext timestamp frame sv =
     (case open_udp_packet ext sv frame of
        Panics msg \<Rightarrow> Panics msg
      | Returns (Inl e) \<Rightarrow> Returns (Inl e, sv)
      | Returns (Inr (login, password, block)) \<Rightarrow>
          Returns (process_udp_block ext login password block timestamp sv))"

definition ack_code :: "udp_error + bool \<Rightarrow> u8 option" where
  "ack_code r =
     (case r of
        Inr True \<Rightarrow> Some RESPONSE_OK
      | Inr False \<Rightarrow> None
      | Inl (e, need_ack) \<Rightarrow>
          if need_ack then
            (if err_kind e = AccessDenied then Some RESPONSE_ERR_ACCESS else Some RESPONSE_ERR)
          else None)"

definition ack_packet :: "u8 \<Rightarrow> bytes" where
  "ack_packet code = CONTROL_HEADER @ u16_to_le_bytes PROTOCOL_VERSION @ [code]"

text \<open>One round of the listener on a datagram, which the buffer cuts to its size: the answer, if any.\<close>

definition udp_listener_step ::
  "('m, 'ch) Ext \<Rightarrow> nat \<Rightarrow> u64 \<Rightarrow> bytes \<Rightarrow> ('m, 'ch) Server \<Rightarrow> (bytes option \<times> ('m, 'ch) Server) outcome" where
  "udp_listener_step ext udp_frame_size timestamp datagram sv =
     (case process_udp_packet ext timestamp (take udp_frame_size datagram) sv of
        Panics msg \<Rightarrow> Panics msg
      | Returns (r, sv') \<Rightarrow> Returns (map_option ack_packet (ack_code r), sv'))"

section \<open>The client\<close>

record UdpClient =
  uc_login :: bytes
  uc_password :: bytes
  uc_encrypt :: bool

definition UdpClient_new :: UdpClient where
  "UdpClient_new = \<lparr>uc_login = [], uc_password = [], uc_encrypt = False\<rparr>"

text \<open>\<^verbatim>\<open>connect\<close>, from what binding a local address and connecting the socket give.\<close>

definition UdpClient_connect :: "io_error + unit \<Rightarrow> io_error + unit \<Rightarrow> UdpClient result" where
  "UdpClient_connect bind connect =
     res_bind (map_err Error_from_io bind) (\<lambda>_.
     res_bind (map_err Error_from_io connect) (\<lambda>_. Inr UdpClient_new))"

definition with_auth :: "str \<Rightarrow> str \<Rightarrow> UdpClient \<Rightarrow> UdpClient" where
  "with_auth login password c = c\<lparr>uc_login := login, uc_password := password, uc_encrypt := False\<rparr>"

definition with_encryption_auth :: "str \<Rightarrow> bytes \<Rightarrow> UdpClient \<Rightarrow> UdpClient" where
  "with_encryption_auth login key c = c\<lparr>uc_login := login, uc_password := key, uc_encrypt := True\<rparr>"

text \<open>
  The packet of \<^verbatim>\<open>publish_impl\<close>.  The nonce is the outcome of the random generator and
  \<^verbatim>\<open>symm::encrypt_aead\<close> gives the encrypted data and the tag, or an error.
\<close>

definition udp_message :: "u8 \<Rightarrow> str \<Rightarrow> bytes \<Rightarrow> bytes" where
  "udp_message op topic message = [op, DEFAULT_PRIORITY] @ topic @ [0] @ message"

definition udp_packet ::
  "seal \<Rightarrow> str + bytes \<Rightarrow> UdpClient \<Rightarrow> str \<Rightarrow> bytes \<Rightarrow> bool \<Rightarrow> bytes result" where
  "udp_packet encrypt_aead draw c topic message ack =
     (let buf = CONTROL_HEADER @ u16_to_le_bytes PROTOCOL_VERSION;
          op = (if ack then OP_PUBLISH else OP_PUBLISH_NO_ACK)
      in if uc_encrypt c then
           res_bind (map_err Error_internal draw) (\<lambda>nonce.
           res_bind (map_err Error_io
             (encrypt_aead aes_256_gcm (uc_password c) nonce [] (udp_message op topic message))) (\<lambda>(encrypted, digest).
           Inr (buf @ [AUTH_KEY_AES256_GCM] @ uc_login c @ [0] @ nonce @ encrypted @ digest)))
         else
           Inr (buf @ [AUTH_LOGIN_PASS] @ uc_login c @ [0] @ uc_password c @ [0] @ udp_message op topic message))"

text \<open>The loop over the received datagrams until one is from the server.\<close>

fun read_ack :: "str \<Rightarrow> (io_error + str \<times> bytes) list \<Rightarrow> unit result option" where
  "read_ack peer [] = None"
| "read_ack peer (Inl e # rest) = Some (Inl (Error_from_io e))"
| "read_ack peer (Inr (addr, datagram) # rest) =
     (if addr = peer then
        Some (let n = min 5 (length datagram) in
          if n \<noteq> 5 then Inl (Error_invalid_data (lit ''Invalid ack size''))
          else if take 2 datagram \<noteq> CONTROL_HEADER then Inl (Error_invalid_data (lit ''Invalid ack header''))
          else if take 2 (drop 2 datagram) \<noteq> u16_to_le_bytes PROTOCOL_VERSION then
            Inl (Error_invalid_data (lit ''Invalid ack protocol version''))
          else if datagram ! 4 = RESPONSE_OK then Inr ()
          else Inl (Error_io (lit ''Server response error '' @ show_hex (unat (datagram ! 4)))))
      else read_ack peer rest)"

text \<open>
  \<open>send\<close> is the outcome of sending the packet; \<open>None\<close> says that the client still waits for an
  acknowledgement.
\<close>

definition publish_impl ::
  "seal \<Rightarrow> str + bytes \<Rightarrow> (bytes \<Rightarrow> io_error + unit) \<Rightarrow> str \<Rightarrow> (io_error + str \<times> bytes) list \<Rightarrow> UdpClient \<Rightarrow> str \<Rightarrow> bytes \<Rightarrow>
     bool \<Rightarrow> unit result option" where
  "publish_impl encrypt_aead draw send peer received c topic message ack =
     (case res_bind (udp_packet encrypt_aead draw c topic message ack) (\<lambda>buf. map_err Error_from_io (send buf)) of
        Inl e \<Rightarrow> Some (Inl e)
      | Inr _ \<Rightarrow> if ack then read_ack peer received else Some (Inr ()))"

definition udp_publish ::
  "seal \<Rightarrow> str + bytes \<Rightarrow> (bytes \<Rightarrow> io_error + unit) \<Rightarrow> str \<Rightarrow> (io_error + str \<times> bytes) list \<Rightarrow> UdpClient \<Rightarrow> str \<Rightarrow> bytes \<Rightarrow>
     unit result option" where
  "udp_publish encrypt_aead draw send peer received c topic message =
     publish_impl encrypt_aead draw send peer received c topic message False"

definition publish_confirmed ::
  "seal \<Rightarrow> str + bytes \<Rightarrow> (bytes \<Rightarrow> io_error + unit) \<Rightarrow> str \<Rightarrow> (io_error + str \<times> bytes) list \<Rightarrow> UdpClient \<Rightarrow> str \<Rightarrow> bytes \<Rightarrow>
     unit result option" where
  "publish_confirmed encrypt_aead draw send peer received c topic message =
     publish_impl encrypt_aead draw send peer received c topic message True"

section \<open>Lemmas\<close>

text \<open>What a well-formed publication comes to: the checks in their order, then the publication.\<close>

definition udp_outcome ::
  "('m, 'ch) Ext \<Rightarrow> str \<Rightarrow> str option \<Rightarrow> bool \<Rightarrow> str \<Rightarrow> bytes \<Rightarrow> u64 \<Rightarrow> ('m, 'ch) Server \<Rightarrow>
     (udp_error + bool) \<times> ('m, 'ch) Server" where
  "udp_outcome ext login password ack topic message timestamp sv =
     (let t = canonical_topic topic in
      case udp_allowed ext sv login password of
        Inl e \<Rightarrow> (Inl (e, ack), sv)
      | Inr _ \<Rightarrow>
          (case get_acl sv login of
             None \<Rightarrow> (Inl (Error_access (lit ''No ACL for '' @ format_login login), ack), sv)
           | Some acl \<Rightarrow>
               if count_list t slash > MAX_TOPIC_DEPTH (sv_statics sv) then
                 (Inl (Error_invalid_data (lit ''the topic is too deep''), ack), sv)
               else if has_invalid_symbols t then (Inl (Error_invalid_data ERR_INVALID_DATA_BLOCK, ack), sv)
               else if allow_write acl t then (Inr ack, publish ext DEFAULT_PRIORITY t message timestamp sv)
               else (Inl (Error_access (lit ''pub access denied for '' @ t), ack), sv)))"

lemma udp_err_simps [simp]: "udp_err b (Inr x) = Inr x" "udp_err b (Inl e) = Inl (e, b)"
  by (simp_all add: udp_err_def)

lemma udp_err_Inr_iff [simp]: "udp_err b r = Inr x \<longleftrightarrow> r = Inr x"
  by (simp add: udp_err_def)

lemma second_two [simp]: "second e [x, y] = Inr y"
  by (simp add: second_def)

lemma udp_op_of_ack: "udp_op (if ack then OP_PUBLISH else OP_PUBLISH_NO_ACK) = Inr ack"
  by (simp add: udp_op_def op_consts)

lemma op_not_zero: "(if ack then OP_PUBLISH else OP_PUBLISH_NO_ACK) \<noteq> 0" "DEFAULT_PRIORITY \<noteq> 0"
  by (simp_all add: op_consts DEFAULT_PRIORITY_def)

lemma process_udp_block_op:
  assumes "0 \<notin> set topic" and "utf8_valid topic" and "topic \<noteq> []" and op: "udp_op op = Inr ack" "op \<noteq> 0"
  shows "process_udp_block ext login password (udp_message op topic message) timestamp sv =
    udp_outcome ext login password ack topic message timestamp sv"
proof -
  let ?b = "[op, DEFAULT_PRIORITY] @ topic"
  have sp: "splitn2 0 (udp_message op topic message) = [?b, message]"
    using splitn2_append [of 0 ?b message] assms(1) op(2) op_not_zero(2) by (simp add: udp_message_def)
  have l: "\<not> length ?b < 3" using assms(3) by (cases topic) simp_all
  show ?thesis
    unfolding process_udp_block_def sp Let_def list.sel if_not_P [OF l]
    using assms(2) op(1)
    by (cases "udp_allowed ext sv login password"; cases "get_acl sv login")
      (simp_all add: utf8_valid_Inr udp_outcome_def prepare_topic_normalized normalized_canonical)
qed

lemmas process_udp_block_message = process_udp_block_op [OF _ _ _ udp_op_of_ack op_not_zero(1)]

lemma header_simps:
  "take 2 (CONTROL_HEADER @ xs) = CONTROL_HEADER" "drop 2 (CONTROL_HEADER @ xs) = xs"
  "length CONTROL_HEADER = 2" "CONTROL_HEADER ! 0 = 0xEE"
  by (simp_all add: CONTROL_HEADER_def)

lemma version_bytes: "u16_to_le_bytes PROTOCOL_VERSION = [1, 0]"
  by (simp add: u16_to_le_bytes_def PROTOCOL_VERSION_def numeral_2_eq_2)

lemma open_header:
  assumes "EncryptionType_from_byte b = Inr etp"
  shows "open_udp_packet ext sv ((CONTROL_HEADER @ u16_to_le_bytes PROTOCOL_VERSION) @ b # rest) =
    (let sp = splitn2 0 rest in
     (case udp_err False (utf8 (hd sp)) of
        Inl e \<Rightarrow> Returns (Inl e)
      | Inr login \<Rightarrow>
          if need_decrypt etp then
            (case second (Error_invalid_data (lit ''encryption block missing''), False) sp of
               Inl e \<Rightarrow> Returns (Inl e)
             | Inr enc \<Rightarrow>
                 (case auth_and_decr (ext_aead ext) (sv_keys sv) enc (if login = [] then lit ''_'' else login) etp of
                    Panics msg \<Rightarrow> Panics msg
                  | Returns r \<Rightarrow> Returns (res_bind (udp_err False r) (\<lambda>block. Inr (login, None, block)))))
          else
            Returns (res_bind (second (Error_invalid_data (lit ''invalid packet format''), False) sp) (\<lambda>rest.
              let sp2 = splitn2 0 rest in
              res_bind (udp_err False (utf8 (hd sp2))) (\<lambda>password.
              res_bind (second (Error_invalid_data (lit ''data missing''), False) sp2) (\<lambda>block.
              Inr (login, Some password, block)))))))"
proof -
  have "u16_from_le_bytes [1, 0] = PROTOCOL_VERSION" by (simp add: u16_from_le_bytes_def PROTOCOL_VERSION_def)
  then show ?thesis
    using assms by (simp add: open_udp_packet_def CONTROL_HEADER_def version_bytes Let_def)
qed

lemma udp_plain_packet:
  assumes "udp_packet seal draw (with_auth login password c) topic message ack = Inr pkt"
    and "0 \<notin> set login" and "utf8_valid login" and "0 \<notin> set password" and "utf8_valid password"
    and "0 \<notin> set topic" and "utf8_valid topic" and "topic \<noteq> []"
  shows "process_udp_packet ext timestamp pkt sv =
    Returns (udp_outcome ext login (Some password) ack topic message timestamp sv)"
proof -
  let ?m = "udp_message (if ack then OP_PUBLISH else OP_PUBLISH_NO_ACK) topic message"
  have pkt: "pkt = (CONTROL_HEADER @ u16_to_le_bytes PROTOCOL_VERSION) @
      AUTH_LOGIN_PASS # login @ 0 # password @ 0 # ?m"
    using assms(1) by (simp add: udp_packet_def with_auth_def Let_def)
  have e: "EncryptionType_from_byte AUTH_LOGIN_PASS = Inr No" by (simp add: EncryptionType_from_byte_def)
  have "open_udp_packet ext sv pkt = Returns (Inr (login, Some password, ?m))"
    unfolding pkt open_header [OF e] using assms(2-5) by (simp add: need_decrypt_def utf8_valid_Inr)
  then show ?thesis
    by (simp add: process_udp_packet_def process_udp_block_message [OF assms(6-8)])
qed

lemma udp_sealed_packet:
  assumes "aead_scheme seal (ext_aead ext)"
    and "udp_packet seal (Inr nonce) (with_encryption_auth login key c) topic message ack = Inr pkt"
    and "length nonce = 12"
    and "Option.bind (key_map (sv_keys sv)) (\<lambda>m. m (if login = [] then lit ''_'' else login)) = Some k"
    and "cipher_aes_256 k = key"
    and "0 \<notin> set login" and "utf8_valid login"
    and "0 \<notin> set topic" and "utf8_valid topic" and "topic \<noteq> []"
  shows "process_udp_packet ext timestamp pkt sv =
    Returns (udp_outcome ext login None ack topic message timestamp sv)"
proof -
  let ?m = "udp_message (if ack then OP_PUBLISH else OP_PUBLISH_NO_ACK) topic message"
  obtain enc tag where seal: "seal aes_256_gcm key nonce [] ?m = Inr (enc, tag)"
    and pkt: "pkt = (CONTROL_HEADER @ u16_to_le_bytes PROTOCOL_VERSION) @
      AUTH_KEY_AES256_GCM # login @ 0 # nonce @ enc @ tag"
    using assms(2) by (auto simp: udp_packet_def with_encryption_auth_def Let_def res_bind_Inr_iff)
  have e: "EncryptionType_from_byte AUTH_KEY_AES256_GCM = Inr Aes256Gcm"
    by (simp add: EncryptionType_from_byte_def auth_consts)
  have "auth_and_decr (ext_aead ext) (sv_keys sv) (nonce @ enc @ tag) (if login = [] then lit ''_'' else login) Aes256Gcm =
      Returns (Inr ?m)"
    by (rule aead_scheme.auth_and_decr_sealed [OF assms(1,4,3)])
      (use seal assms(5) in \<open>simp_all add: udp_message_def\<close>)
  then have "open_udp_packet ext sv pkt = Returns (Inr (login, None, ?m))"
    unfolding pkt open_header [OF e] using assms(6,7) by (simp add: need_decrypt_def utf8_valid_Inr)
  then show ?thesis
    by (simp add: process_udp_packet_def process_udp_block_message [OF assms(8-10)])
qed

lemma open_no_panic: "\<exists>r. open_udp_packet ext sv frame = Returns r"
proof -
  have "\<exists>r. (case auth_and_decr dec ks enc k etp of Panics msg \<Rightarrow> Panics msg | Returns r \<Rightarrow> Returns (f r)) = Returns r"
    if "need_decrypt etp" for dec ks enc k etp f
    using auth_and_decr_no_panic [OF that, of dec ks enc k] by auto
  then show ?thesis
    by (auto simp: open_udp_packet_def Let_def split: sum.split)
qed

lemma process_udp_block_effect:
  assumes "process_udp_block ext login password block timestamp sv = (r, sv')"
  shows "case r of
      Inl _ \<Rightarrow> sv' = sv
    | Inr _ \<Rightarrow> udp_allowed ext sv login password = Inr () \<and>
        (\<exists>acl priority topic data. get_acl sv login = Some acl \<and> allow_write acl topic \<and> \<not> has_invalid_symbols topic \<and>
           sv' = publish ext priority topic data timestamp sv)"
  using assms unfolding process_udp_block_def Let_def
  by (auto elim!: io_bind_cases split: if_splits option.splits sum.split) blast+

lemma ack_packet_read:
  "read_ack peer (Inr (peer, ack_packet code) # rest) =
     Some (if code = RESPONSE_OK then Inr ()
           else Inl (Error_io (lit ''Server response error '' @ show_hex (unat code))))"
  by (simp add: ack_packet_def CONTROL_HEADER_def version_bytes Let_def)

lemma udp_packet_plain_split:
  assumes "udp_packet seal draw (with_auth login password c) topic message ack = Inr pkt"
  obtains head where "pkt = head @ message"
    and "\<And>m. udp_packet seal draw (with_auth login password c) topic m ack = Inr (head @ m)"
proof -
  let ?head = "CONTROL_HEADER @ u16_to_le_bytes PROTOCOL_VERSION @ [AUTH_LOGIN_PASS] @ login @ [0] @ password @ [0] @
      [if ack then OP_PUBLISH else OP_PUBLISH_NO_ACK, DEFAULT_PRIORITY] @ topic @ [0]"
  have "udp_packet seal draw (with_auth login password c) topic m ack = Inr (?head @ m)" for m
    by (simp add: udp_packet_def with_auth_def udp_message_def Let_def)
  with assms show thesis by (intro that [of ?head]) auto
qed

lemma udp_outcome_fst:
  "udp_outcome ext login password ack topic message ts sv = (Inr b, sv') \<Longrightarrow> b = ack"
  "udp_outcome ext login password ack topic message ts sv = (Inl (e, b), sv') \<Longrightarrow> b = ack"
  by (auto simp: udp_outcome_def Let_def split: sum.splits option.splits if_splits)

section \<open>Properties\<close>


text \<open>
  C17: a packet that the \<^verbatim>\<open>UdpClient\<close> makes with a login and a password is understood by the server
  as the publication it stands for: it passes the checks in their order and is published with
  the default priority under the canonical topic, or is refused with the matching error.
\<close>

theorem udp_plain_roundtrip:
  assumes "udp_packet seal draw (with_auth login password c) topic message ack = Inr pkt"
    and "0 \<notin> set login" and "utf8_valid login" and "0 \<notin> set password" and "utf8_valid password"
    and "0 \<notin> set topic" and "utf8_valid topic" and "topic \<noteq> []"
  shows "process_udp_packet ext timestamp pkt sv =
    Returns (udp_outcome ext login (Some password) ack topic message timestamp sv)"
  by (rule udp_plain_packet [OF assms])

theorem udp_plain_roundtrip_witness:
  "\<exists>pkt. udp_packet sum_seal (Inr []) (with_auth (lit ''u'') (lit ''pw'') UdpClient_new) (lit ''a/b'') [1, 0] True = Inr pkt \<and>
     process_udp_packet sample_ext 7 pkt sample_server =
       Returns (udp_outcome sample_ext (lit ''u'') (Some (lit ''pw'')) True (lit ''a/b'') [1, 0] 7 sample_server)"
proof -
  obtain pkt where pkt: "udp_packet sum_seal (Inr []) (with_auth (lit ''u'') (lit ''pw'') UdpClient_new) (lit ''a/b'') [1, 0] True = Inr pkt"
    by (simp add: udp_packet_def with_auth_def Let_def)
  have "process_udp_packet sample_ext 7 pkt sample_server =
      Returns (udp_outcome sample_ext (lit ''u'') (Some (lit ''pw'')) True (lit ''a/b'') [1, 0] 7 sample_server)"
    by (rule udp_plain_roundtrip [OF pkt]) code_simp+
  with pkt show ?thesis by blast
qed

text \<open>
  C18: the same for a packet sealed with AES-256-GCM, given that OpenSSL opens what it has sealed:
  with the client's key in the server's key database under the login (\<^verbatim>\<open>_\<close> for the empty one) the
  block is decrypted and the publication needs no password.
\<close>

theorem udp_sealed_roundtrip:
  assumes "aead_scheme seal (ext_aead ext)"
    and "udp_packet seal (Inr nonce) (with_encryption_auth login key c) topic message ack = Inr pkt"
    and "length nonce = 12"
    and "Option.bind (key_map (sv_keys sv)) (\<lambda>m. m (if login = [] then lit ''_'' else login)) = Some k"
    and "cipher_aes_256 k = key"
    and "0 \<notin> set login" and "utf8_valid login"
    and "0 \<notin> set topic" and "utf8_valid topic" and "topic \<noteq> []"
  shows "process_udp_packet ext timestamp pkt sv =
    Returns (udp_outcome ext login None ack topic message timestamp sv)"
  by (rule udp_sealed_packet [OF assms])

theorem udp_sealed_roundtrip_witness:
  "\<exists>pkt. udp_packet sum_seal (Inr (replicate 12 3)) (with_encryption_auth (lit ''u'') (replicate 32 5) UdpClient_new)
       (lit ''a/b'') [1, 0] False = Inr pkt \<and>
     process_udp_packet sample_ext 7 pkt sample_server =
       Returns (udp_outcome sample_ext (lit ''u'') None False (lit ''a/b'') [1, 0] 7 sample_server)"
proof -
  let ?k = "\<lparr>cipher_aes_128 = replicate 16 5, cipher_aes_256 = replicate 32 5\<rparr>"
  obtain pkt where pkt: "udp_packet sum_seal (Inr (replicate 12 3))
      (with_encryption_auth (lit ''u'') (replicate 32 5) UdpClient_new) (lit ''a/b'') [1, 0] False = Inr pkt"
    by (simp add: udp_packet_def with_encryption_auth_def sum_seal_def Let_def)
  have laws: "aead_scheme sum_seal (ext_aead sample_ext)" using aei.aead_scheme_axioms by simp
  have key: "Option.bind (key_map (sv_keys sample_server))
      (\<lambda>m. m (if lit ''u'' = [] then lit ''_'' else lit ''u'')) = Some ?k"
    by (simp add: sample_server_def lit_def)
  have "process_udp_packet sample_ext 7 pkt sample_server =
      Returns (udp_outcome sample_ext (lit ''u'') None False (lit ''a/b'') [1, 0] 7 sample_server)"
    by (rule udp_sealed_roundtrip [OF laws pkt _ key]) (simp, simp, code_simp+)
  with pkt show ?thesis by blast
qed



end
