(* ===== verification/Client_Props.thy ===== *)
theory Client_Props
  imports Client Server_Udp
begin

text \<open>
  The client against the server: what the server understands of the bytes a client sends, what a
  client makes of the responses, and what the data task of a client receives from the writer of a
  data stream.
\<close>

section \<open>Reading what has arrived\<close>

definition arrived :: "('m, 'ch) World \<Rightarrow> bytes \<Rightarrow> bool" where
  "arrived w bs \<longleftrightarrow> all_arrived (w_stream w) \<and> pending (w_stream w) = bs"

definition consumed :: "nat \<Rightarrow> ('m, 'ch) World \<Rightarrow> ('m, 'ch) World" where
  "consumed n w = w\<lparr>w_stream := (w_stream w)\<lparr>s_in := drop n (s_in (w_stream w))\<rparr>\<rparr>"

lemma arrived_consumed: "arrived w (bs @ rest) \<Longrightarrow> length bs = n \<Longrightarrow> arrived (consumed n w) rest"
  by (auto simp: arrived_def consumed_def all_arrived_drop)

lemma consumed_consumed [simp]: "consumed m (consumed n w) = consumed (n + m) w"
  by (simp add: consumed_def add.commute)

lemma consumed_server: "(consumed n w)\<lparr>w_server := sv\<rparr> = consumed n (w\<lparr>w_server := sv\<rparr>)"
  by (cases w) (simp add: consumed_def)

lemma consumed_fields [simp]:
  "w_server (consumed n w) = w_server w" "s_now (w_stream (consumed n w)) = s_now (w_stream w)"
  "s_wfault (w_stream (consumed n w)) = s_wfault (w_stream w)" "s_out (w_stream (consumed n w)) = s_out (w_stream w)"
  by (simp_all add: consumed_def)

lemma stream_read_arrived:
  "arrived w (bs @ rest) \<Longrightarrow> length bs = n \<Longrightarrow> on_stream (stream_read n) w = (Inr bs, consumed n w)"
  by (simp add: arrived_def consumed_def stream_read_def read_prefix)

lemma read_within_arrived:
  "arrived w (bs @ rest) \<Longrightarrow> length bs = n \<Longrightarrow> read_within n t i w = (Inr bs, consumed n w)"
  by (simp add: arrived_def consumed_def read_within_def read_prefix)

lemma frame_within_arrived:
  assumes "arrived w (u32_to_le_bytes len @ buf @ rest)" and "unat len = length buf"
    and "length buf \<le> limit (sv_statics (w_server w))"
  shows "frame_within limit t i w = (Inr buf, consumed (4 + length buf) w)"
  using assms by (simp add: arrived_def consumed_def frame_within_def read_frame_prefix)

section \<open>Commands on the wire\<close>

text \<open>All that the control task writes for a command that needs no second round.\<close>

definition wire :: "ControlCommand \<Rightarrow> bytes" where
  "wire cmd = as_bytes cmd @ (case cmd of Publish _ _ message \<Rightarrow> message | _ \<Rightarrow> [])"

text \<open>Topics that survive the zero-separated frames, and commands within the limits of the server.\<close>

definition sound_topic :: "str \<Rightarrow> bool" where
  "sound_topic t \<longleftrightarrow> t \<noteq> [] \<and> 0 \<notin> set t \<and> utf8_valid t"

fun sendable :: "Statics \<Rightarrow> ControlCommand \<Rightarrow> bool" where
  "sendable st (Subscribe t) \<longleftrightarrow> sound_topic t \<and> length t \<le> MAX_TOPIC_LENGTH st \<and> length t < 2 ^ 32"
| "sendable st (Unsubscribe t) \<longleftrightarrow> sound_topic t \<and> length t \<le> MAX_TOPIC_LENGTH st \<and> length t < 2 ^ 32"
| "sendable st (SubscribeBulk ts) \<longleftrightarrow> list_all sound_topic ts \<and>
     length (bulk_body ts) \<le> MAX_TOPIC_LENGTH st \<and> length (bulk_body ts) < 2 ^ 32"
| "sendable st (UnsubscribeBulk ts) \<longleftrightarrow> list_all sound_topic ts \<and>
     length (bulk_body ts) \<le> MAX_TOPIC_LENGTH st \<and> length (bulk_body ts) < 2 ^ 32"
| "sendable st (Publish _ t m) \<longleftrightarrow> sound_topic t \<and> length t + 1 + length m \<le> MAX_PUB_SIZE st \<and>
     length t + 1 + length m < 2 ^ 32"
| "sendable st (PublishRepl _ _ _ _) \<longleftrightarrow> False"
| "sendable st Nop \<longleftrightarrow> True"
| "sendable st Bye \<longleftrightarrow> True"

text \<open>What the server does for a command, and whether the session goes on.\<close>

fun served ::
  "('m, 'ch) Ext \<Rightarrow> ServerClient \<Rightarrow> Acl \<Rightarrow> u64 \<Rightarrow> ControlCommand \<Rightarrow> ('m, 'ch, unit) handler" where
  "served ext c acl ts (Subscribe t) = io_bind (with_server (subscribe_topics ext c acl [t])) respond_status"
| "served ext c acl ts (SubscribeBulk tps) = io_bind (with_server (subscribe_topics ext c acl tps)) respond_status"
| "served ext c acl ts (Unsubscribe t) =
     io_bind (with_server (unsubscribe_topics ext c [t])) (\<lambda>ok. if ok then respond_ok else respond_err)"
| "served ext c acl ts (UnsubscribeBulk tps) =
     io_bind (with_server (unsubscribe_topics ext c tps)) (\<lambda>ok. if ok then respond_ok else respond_err)"
| "served ext c acl ts (Publish p t m) = publish_frame ext acl p ts (t @ 0 # m)"
| "served ext c acl ts cmd = respond_ok"

definition goes_on :: "ControlCommand \<Rightarrow> bool" where
  "goes_on cmd \<longleftrightarrow> cmd \<noteq> Bye"

subsection \<open>Bulk frames\<close>

lemma bulk_len_foldl:
  "foldl (\<lambda>len t. len + (word_of_nat (length t) + 1)) (a :: u32) ts = a + word_of_nat (length (bulk_body ts))"
  by (induction ts arbitrary: a) (simp_all add: bulk_body_def algebra_simps)

lemma bulk_len_body: "bulk_len ts = word_of_nat (length (bulk_body ts))"
  by (simp add: bulk_len_def bulk_len_foldl)

lemma split_bulk_body:
  "list_all (\<lambda>t. 0 \<notin> set t) ts \<Longrightarrow> split_on 0 (bulk_body ts) = ts @ [[]]"
  by (induction ts) (simp_all add: bulk_body_def split_on_append)

lemma utf8_pieces_sound: "list_all sound_topic ts \<Longrightarrow> utf8_pieces (ts @ [[]]) = Inr ts"
  by (induction ts) (auto simp: sound_topic_def utf8_valid_Inr)

lemma parse_topics_bulk:
  assumes "list_all sound_topic ts"
  shows "parse_topics (bulk_body ts) = Inr ts"
proof -
  have "list_all (\<lambda>t. 0 \<notin> set t) ts" using assms by (auto simp: list_all_iff sound_topic_def)
  then show ?thesis using assms by (simp add: parse_topics_def split_bulk_body utf8_pieces_sound)
qed

lemma parse_topics_one: "sound_topic t \<Longrightarrow> parse_topics t = Inr [t]"
  by (auto simp: parse_topics_def sound_topic_def split_on_no_sep utf8_valid_Inr)

subsection \<open>The server understands a client\<close>

lemma op_subscribe_arrived:
  assumes "arrived w (u32_to_le_bytes len @ buf @ rest)" and "unat len = length buf"
    and "length buf \<le> MAX_TOPIC_LENGTH (sv_statics (w_server w))" and "parse_topics buf = Inr ts"
  shows "op_subscribe ext c acl t i w =
      io_bind (with_server (subscribe_topics ext c acl ts)) respond_status (consumed (4 + length buf) w)"
    and "op_unsubscribe ext c t i w =
      io_bind (with_server (unsubscribe_topics ext c ts)) (\<lambda>ok. if ok then respond_ok else respond_err)
        (consumed (4 + length buf) w)"
  using frame_within_arrived [OF assms(1,2), of MAX_TOPIC_LENGTH t i] assms(3,4)
  by (simp_all add: op_subscribe_def op_unsubscribe_def io_bind_Inr)

lemma op_publish_arrived:
  assumes "arrived w (p # u32_to_le_bytes len @ buf @ rest)" and "unat len = length buf"
    and "length buf \<le> MAX_PUB_SIZE (sv_statics (w_server w))"
  shows "op_publish ext acl t i w =
    publish_frame ext acl p (ext_now_ns ext (s_now (w_stream w))) buf (consumed (5 + length buf) w)"
proof -
  have 1: "read_within 1 t i w = (Inr [p], consumed 1 w)"
    by (rule read_within_arrived [where rest = "u32_to_le_bytes len @ buf @ rest"]) (use assms(1) in simp_all)
  have "arrived (consumed 1 w) (u32_to_le_bytes len @ buf @ rest)"
    using arrived_consumed [of w "[p]"] assms(1) by simp
  then have "frame_within MAX_PUB_SIZE t i (consumed 1 w) = (Inr buf, consumed (5 + length buf) w)"
    using frame_within_arrived [where w = "consumed 1 w" and limit = MAX_PUB_SIZE and t = t and i = i] assms(2,3)
    by fastforce
  then show ?thesis using 1 by (simp add: op_publish_def io_bind_Inr)
qed

lemma op_distinct:
  "OP_SUBSCRIBE \<noteq> OP_NOP" "OP_UNSUBSCRIBE \<noteq> OP_NOP" "OP_UNSUBSCRIBE \<noteq> OP_SUBSCRIBE" "OP_PUBLISH \<noteq> OP_NOP"
  "OP_PUBLISH \<noteq> OP_SUBSCRIBE" "OP_PUBLISH \<noteq> OP_UNSUBSCRIBE" "OP_BYE \<noteq> OP_NOP" "OP_BYE \<noteq> OP_SUBSCRIBE"
  "OP_BYE \<noteq> OP_UNSUBSCRIBE" "OP_BYE \<noteq> OP_PUBLISH" "OP_BYE \<noteq> OP_PUBLISH_REPL"
  by (simp_all add: op_consts)

lemma control_step_arrived:
  assumes "arrived w (op # body)"
  shows "control_step ext c acl timeout w =
    control_op ext c acl timeout (s_now (w_stream w)) op (consumed 1 w)"
  using stream_read_arrived [of w "[op]" body 1] assms by (simp add: control_step_def io_bind_Inr)

lemma io_bind_go_on: "io_bind f (\<lambda>_. io_return b) w = (case f w of (Inl e, w') \<Rightarrow> (Inl e, w') | (Inr _, w') \<Rightarrow> (Inr b, w'))"
  by (simp add: io_bind_def split: prod.split sum.split)

lemma step_subscribe:
  assumes arr: "arrived w (op # u32_to_le_bytes (word_of_nat (length buf)) @ buf @ rest)"
    and "length buf \<le> MAX_TOPIC_LENGTH (sv_statics (w_server w))" and "length buf < 2 ^ 32" and "parse_topics buf = Inr ts"
  shows "op = OP_SUBSCRIBE \<Longrightarrow> control_step ext c acl t w =
      io_bind (io_bind (with_server (subscribe_topics ext c acl ts)) respond_status) (\<lambda>_. io_return True)
        (consumed (5 + length buf) w)"
    and "op = OP_UNSUBSCRIBE \<Longrightarrow> control_step ext c acl t w =
      io_bind (io_bind (with_server (unsubscribe_topics ext c ts)) (\<lambda>ok. if ok then respond_ok else respond_err))
        (\<lambda>_. io_return True) (consumed (5 + length buf) w)"
proof -
  have arr1: "arrived (consumed 1 w) (u32_to_le_bytes (word_of_nat (length buf)) @ buf @ rest)"
    by (rule arrived_consumed [of w "[op]"]) (use arr in simp_all)
  note sub = op_subscribe_arrived [OF arr1 _ _ assms(4)]
  show "op = OP_SUBSCRIBE \<Longrightarrow> control_step ext c acl t w =
      io_bind (io_bind (with_server (subscribe_topics ext c acl ts)) respond_status) (\<lambda>_. io_return True)
        (consumed (5 + length buf) w)"
    unfolding io_bind_go_on
    using sub(1) assms(2,3) by (simp add: control_step_arrived [OF arr] control_op_def op_distinct io_bind_go_on)
  show "op = OP_UNSUBSCRIBE \<Longrightarrow> control_step ext c acl t w =
      io_bind (io_bind (with_server (unsubscribe_topics ext c ts)) (\<lambda>ok. if ok then respond_ok else respond_err))
        (\<lambda>_. io_return True) (consumed (5 + length buf) w)"
    unfolding io_bind_go_on
    using sub(2) assms(2,3) by (simp add: control_step_arrived [OF arr] control_op_def op_distinct io_bind_go_on)
qed

lemma step_publish:
  assumes arr: "arrived w (OP_PUBLISH # p # u32_to_le_bytes (word_of_nat (length buf)) @ buf @ rest)"
    and "length buf \<le> MAX_PUB_SIZE (sv_statics (w_server w))" and "length buf < 2 ^ 32"
  shows "control_step ext c acl t w =
      io_bind (publish_frame ext acl p (ext_now_ns ext (s_now (w_stream w))) buf) (\<lambda>_. io_return True)
        (consumed (6 + length buf) w)"
proof -
  have "arrived (consumed 1 w) (p # u32_to_le_bytes (word_of_nat (length buf)) @ buf @ rest)"
    by (rule arrived_consumed [of w "[OP_PUBLISH]"]) (use arr in simp_all)
  from op_publish_arrived [OF this] show ?thesis
    unfolding io_bind_go_on
    using assms(2,3) by (simp add: control_step_arrived [OF arr] control_op_def op_distinct io_bind_go_on)
qed

lemma server_serves:
  assumes ok: "sendable (sv_statics (w_server w)) cmd" and arr: "arrived w (wire cmd @ rest)"
  shows "control_step ext c acl timeout w =
    io_bind (served ext c acl (ext_now_ns ext (s_now (w_stream w))) cmd) (\<lambda>_. io_return (goes_on cmd))
      (consumed (length (wire cmd)) w)"
proof (cases cmd)
  case (Subscribe t)
  then show ?thesis
    using step_subscribe(1) [of w OP_SUBSCRIBE t rest "[t]"] ok arr
    by (simp add: wire_def goes_on_def parse_topics_one)
next
  case (SubscribeBulk ts)
  then show ?thesis
    using step_subscribe(1) [of w OP_SUBSCRIBE "bulk_body ts" rest ts] ok arr
    by (simp add: wire_def goes_on_def parse_topics_bulk bulk_len_body)
next
  case (Unsubscribe t)
  then show ?thesis
    using step_subscribe(2) [of w OP_UNSUBSCRIBE t rest "[t]"] ok arr
    by (simp add: wire_def goes_on_def parse_topics_one)
next
  case (UnsubscribeBulk ts)
  then show ?thesis
    using step_subscribe(2) [of w OP_UNSUBSCRIBE "bulk_body ts" rest ts] ok arr
    by (simp add: wire_def goes_on_def parse_topics_bulk bulk_len_body)
next
  case (Publish p t m)
  have l: "word_of_nat (length t) + 1 + word_of_nat (length m) = (word_of_nat (length (t @ 0 # m)) :: u32)" by simp
  have "arrived w (OP_PUBLISH # p # u32_to_le_bytes (word_of_nat (length (t @ 0 # m))) @ (t @ 0 # m) @ rest)"
    using arr unfolding Publish l [symmetric] by (simp add: wire_def)
  from step_publish [OF this] show ?thesis using ok Publish by (simp add: wire_def goes_on_def)
qed (use ok arr control_step_arrived [of w _ rest] in
    \<open>auto simp: wire_def control_op_def op_distinct io_bind_go_on goes_on_def\<close>)

section \<open>The control task\<close>

text \<open>What a response code means to the caller, and whether the task goes on after it.\<close>

definition reply_of :: "u8 \<Rightarrow> unit result" where
  "reply_of code =
     (if code = RESPONSE_OK then Inr ()
      else if code = RESPONSE_ERR_ACCESS then Inl (Error_access (lit ''Operation access denied''))
      else Inl (Error_io (lit ''Server response error '' @ show_hex (unat code))))"

lemma reply_ok: "reply_of RESPONSE_OK = Inr ()"
  by (simp add: reply_of_def)

definition settled :: "u8 \<Rightarrow> bool" where
  "settled code \<longleftrightarrow> code = RESPONSE_OK \<or> code = RESPONSE_ERR_ACCESS"

definition single_round :: "ControlCommand \<Rightarrow> bool" where
  "single_round cmd \<longleftrightarrow> (case cmd of Nop \<Rightarrow> False | PublishRepl _ _ _ _ \<Rightarrow> False | _ \<Rightarrow> True)"

definition answer :: "Command \<times> u8 \<Rightarrow> (nat \<times> unit result) list" where
  "answer = (\<lambda>(cmd, code). case response_channel cmd of None \<Rightarrow> [] | Some n \<Rightarrow> [(n, reply_of code)])"

text \<open>The task after a command has been answered.\<close>

definition after_answer :: "instant \<times> Command \<Rightarrow> u8 \<Rightarrow> control_task \<Rightarrow> control_task" where
  "after_answer received code ct =
     (let s = ct_stream ct; now = max (fst received) (s_now s) in
      \<lparr>ct_stream = s\<lparr>s_now := now, s_out := s_out s @ wire (control_command (snd received)), s_in := drop 1 (s_in s)\<rparr>,
       ct_op_start = now, ct_responses = ct_responses ct @ answer (snd received, code)\<rparr>)"

lemma process_reply_code:
  assumes "all_arrived (ct_stream ct)" and "pending (ct_stream ct) = code # rest"
  shows "process_reply timeout ch ct =
    (if settled code then Inr () else reply_of code,
     ct\<lparr>ct_stream := (ct_stream ct)\<lparr>s_in := drop 1 (s_in (ct_stream ct))\<rparr>,
        ct_responses := ct_responses ct @ (case ch of None \<Rightarrow> [] | Some n \<Rightarrow> [(n, reply_of code)])\<rparr>)"
proof -
  have "ct_read 1 timeout ct = (Inr [code], ct\<lparr>ct_stream := (ct_stream ct)\<lparr>s_in := drop 1 (s_in (ct_stream ct))\<rparr>\<rparr>)"
    using read_prefix [OF assms(1), of "[code]" rest 1] assms(2) by (simp add: ct_read_def ct_io_def read_in_def)
  then show ?thesis
    by (simp add: process_reply_def io_bind_Inr handle_err_def respond_def io_bind_def settled_def reply_of_def
        response_consts Let_def split: option.split)
qed

lemma ct_write_ok:
  assumes "s_wfault (ct_stream ct) = None"
  shows "ct_io (stream_write buf) ct = (Inr (), ct\<lparr>ct_stream := (ct_stream ct)\<lparr>s_out := s_out (ct_stream ct) @ buf\<rparr>\<rparr>)"
    and "ct_write buf t ct = (Inr (), ct\<lparr>ct_stream := (ct_stream ct)\<lparr>s_out := s_out (ct_stream ct) @ buf\<rparr>\<rparr>)"
  using assms by (simp_all add: ct_io_def ct_write_def write_in_def write_now_ok write_ok)

text \<open>A command with one round: the bytes are written and the code is read and passed on.\<close>

lemma control_command_answered:
  assumes "s_wfault (ct_stream ct) = None" and arr: "all_arrived (ct_stream ct)"
    and p: "pending (ct_stream ct) = code # rest" and "single_round (control_command (snd received))"
  shows "control_command_step bi timeout received ct =
    (if settled code then Inr () else reply_of code, after_answer received code ct)"
proof -
  obtain at cmd where r: "received = (at, cmd)" by (cases received)
  let ?now = "max at (s_now (ct_stream ct))"
  let ?ct = "ct\<lparr>ct_op_start := ?now,
    ct_stream := (ct_stream ct)\<lparr>s_now := ?now, s_out := s_out (ct_stream ct) @ wire (control_command cmd)\<rparr>\<rparr>"
  have arr': "all_arrived (ct_stream ?ct)" and p': "pending (ct_stream ?ct) = code # rest"
    using arr p by (auto simp: all_arrived_def pending_def)
  have reply: "process_reply timeout (response_channel cmd) ?ct =
    (if settled code then Inr () else reply_of code, after_answer received code ct)"
    using process_reply_code [OF arr' p', of timeout "response_channel cmd"]
    by (cases ct) (simp add: r after_answer_def answer_def Let_def)
  have w: "wire (control_command cmd) = as_bytes (control_command cmd) @
      (case control_command cmd of Publish _ _ m \<Rightarrow> m | _ \<Rightarrow> [])"
    by (simp add: wire_def)
  show ?thesis
    using assms(1,4) reply w
    by (cases "control_command cmd")
      (simp_all add: control_command_step_def r single_round_def io_bind_Inr ct_write_ok)
qed

lemma control_stream_answered:
  assumes "length codes = length cmds" and "\<forall>c \<in> set cmds. single_round (control_command (snd c))"
    and "\<forall>code \<in> set codes. settled code"
    and "s_wfault (ct_stream ct) = None" and "all_arrived (ct_stream ct)" and "pending (ct_stream ct) = codes @ rest"
  shows "\<exists>ct'. (\<forall>more. run_control_stream bi timeout (cmds @ more) ct = run_control_stream bi timeout more ct') \<and>
    s_wfault (ct_stream ct') = None \<and> all_arrived (ct_stream ct') \<and> pending (ct_stream ct') = rest \<and>
    s_out (ct_stream ct') = s_out (ct_stream ct) @ concat (map (\<lambda>c. wire (control_command (snd c))) cmds) \<and>
    ct_responses ct' = ct_responses ct @ concat (map answer (zip (map snd cmds) codes))"
  using assms
proof (induction codes cmds arbitrary: ct rule: list_induct2)
  case Nil
  then show ?case by (intro exI [of _ ct]) simp
next
  case (Cons code codes cmd cmds)
  let ?ct = "after_answer cmd code ct"
  have step: "control_command_step bi timeout cmd ct = (Inr (), ?ct)"
    using control_command_answered [of ct code "codes @ rest" cmd bi timeout] Cons.prems by simp
  have s: "s_wfault (ct_stream ?ct) = None" "all_arrived (ct_stream ?ct)" "pending (ct_stream ?ct) = codes @ rest"
    using Cons.prems by (auto simp: after_answer_def Let_def all_arrived_def pending_def le_max_iff_disj simp flip: drop_map dest: in_set_dropD)
  obtain ct' where ct': "\<forall>more. run_control_stream bi timeout (cmds @ more) ?ct = run_control_stream bi timeout more ct'"
    "s_wfault (ct_stream ct') = None" "all_arrived (ct_stream ct')" "pending (ct_stream ct') = rest"
    "s_out (ct_stream ct') = s_out (ct_stream ?ct) @ concat (map (\<lambda>c. wire (control_command (snd c))) cmds)"
    "ct_responses ct' = ct_responses ?ct @ concat (map answer (zip (map snd cmds) codes))"
    using Cons.IH [OF _ _ s] Cons.prems by auto
  then show ?case using step by (intro exI [of _ ct']) (simp add: io_bind_Inr after_answer_def Let_def)
qed

section \<open>The data task\<close>

text \<open>A queue of publications and beacons (\<^const>\<open>None\<close>), and the messages it stands for.\<close>

type_synonym publication = "(u8 \<times> str \<times> bytes \<times> u64) option"

fun frame_of :: "publication \<Rightarrow> MessageFrame" where
  "frame_of None = empty_message"
| "frame_of (Some (p, t, d, ts)) =
     \<lparr>mf_timestamp = Some ts, mf_frame = message_frame p t d, mf_data = Some d\<rparr>"

fun messages_of :: "publication \<Rightarrow> Message list" where
  "messages_of None = []"
| "messages_of (Some (p, t, d, ts)) = [\<lparr>msg_priority = p, msg_topic = t, msg_data = d\<rparr>]"

fun deliverable :: "publication \<Rightarrow> bool" where
  "deliverable None \<longleftrightarrow> True"
| "deliverable (Some (p, t, d, ts)) \<longleftrightarrow> 0 \<notin> set t \<and> utf8_valid t \<and> length t + length d + 1 < 2 ^ 32"

lemma frame_of_not_empty: "frame_of (Some x) \<noteq> empty_message"
  by (cases x) (simp add: empty_message_def)

text \<open>A reader whose stream holds the bytes \<open>bs\<close> already.\<close>

definition reader_holds :: "data_reader \<Rightarrow> bytes \<Rightarrow> bool" where
  "reader_holds dr bs \<longleftrightarrow> dr_open dr \<and> all_arrived (dr_stream dr) \<and> pending (dr_stream dr) = bs"

definition read_on :: "nat \<Rightarrow> Message list \<Rightarrow> data_reader \<Rightarrow> data_reader" where
  "read_on n ms dr = dr\<lparr>dr_stream := (dr_stream dr)\<lparr>s_in := drop n (s_in (dr_stream dr))\<rparr>,
     dr_messages := dr_messages dr @ ms\<rparr>"

lemma reader_holds_on: "reader_holds dr (bs @ rest) \<Longrightarrow> length bs = n \<Longrightarrow> reader_holds (read_on n ms dr) rest"
  by (auto simp: reader_holds_def read_on_def all_arrived_drop)

lemma dr_read_holds:
  assumes "reader_holds dr (bs @ rest)" and "length bs = n"
  shows "dr_io (stream_read n) dr = (Inr bs, read_on n [] dr)" and "dr_io (read_in n t i) dr = (Inr bs, read_on n [] dr)"
  using assms by (simp_all add: reader_holds_def dr_io_def stream_read_def read_in_def read_prefix read_on_def)

lemma dr_frame_holds:
  assumes "reader_holds dr (u32_to_le_bytes len @ buf @ rest)" and "unat len = length buf"
  shows "dr_io (dr_frame t i) dr = (Inr buf, read_on (4 + length buf) [] dr)"
  using assms by (simp add: reader_holds_def dr_io_def dr_frame_def read_frame_prefix read_on_def)

lemma read_on_read_on [simp]: "read_on m ms (read_on n ns dr) = read_on (n + m) (ns @ ms) dr"
  by (simp add: read_on_def add.commute)

lemma data_read_beacon:
  assumes "reader_holds dr (OP_NOP # rest)"
  shows "data_read_step dr = (Inr (), read_on 1 [] dr)"
  using dr_read_holds(1) [of dr "[OP_NOP]" rest 1] assms by (simp add: data_read_step_def io_bind_Inr)

lemma data_read_publication:
  assumes h: "reader_holds dr (message_frame p t d @ d @ rest)" and ok: "deliverable (Some (p, t, d, ts))"
  shows "data_read_step dr =
    (Inr (), read_on (length (message_frame p t d @ d)) [\<lparr>msg_priority = p, msg_topic = t, msg_data = d\<rparr>] dr)"
proof -
  let ?buf = "t @ 0 # d" and ?m = "\<lparr>msg_priority = p, msg_topic = t, msg_data = d\<rparr>"
  let ?len = "word_of_nat (length t) + word_of_nat (length d) + 1 :: u32"
  have h: "reader_holds dr ([RESPONSE_OK] @ [p] @ u32_to_le_bytes ?len @ ?buf @ rest)"
    using h by (simp add: message_frame_def)
  have "?len = word_of_nat (length ?buf)" by simp
  moreover have "length ?buf < 2 ^ 32" using ok by simp
  ultimately have len: "unat ?len = length ?buf" using u32_of_len by metis
  note h1 = reader_holds_on [OF h, of 1 "[]", simplified]
  have h2: "reader_holds (read_on 2 [] dr) (u32_to_le_bytes ?len @ ?buf @ rest)"
    using reader_holds_on [of "read_on 1 [] dr" "[p]" _ 1 "[]"] h1 by (simp add: numeral_2_eq_2)
  have "dr_io (dr_frame to i) (read_on 2 [] dr) = (Inr ?buf, read_on (6 + length ?buf) [] dr)" for to i
    using dr_frame_holds [OF h2 len] by simp
  moreover have "dr_io (read_in 1 to i) (read_on 1 [] dr) = (Inr [p], read_on 2 [] dr)" for to i
    using dr_read_holds(2) [of "read_on 1 [] dr" "[p]"] h1 by (simp add: numeral_2_eq_2)
  moreover have "dr_open (read_on n [] dr)" for n using h by (simp add: reader_holds_def read_on_def)
  moreover have "Message_from_buf ?buf p = Inr ?m" using ok by (simp add: Message_from_buf_append)
  moreover have "n = length (message_frame p t d @ d) \<Longrightarrow> n = 6 + length ?buf" for n by (simp add: message_frame_def)
  ultimately show ?thesis
    using dr_read_holds(1) [OF h, of 1]
    by (simp add: data_read_step_def io_bind_Inr deliver_def op_consts response_consts)
      (simp add: read_on_def add.assoc)
qed

lemma run_data_stream_step:
  "data_read_step dr = (Inr (), dr') \<Longrightarrow> run_data_stream dr = run_data_stream dr'"
  by (subst run_data_stream.simps) simp

lemma read_on_none [simp]: "read_on 0 [] dr = dr"
  by (simp add: read_on_def)

text \<open>What the writer puts on the wire is what the reader passes on.\<close>

lemma run_data_stream_wire:
  assumes "list_all2 wire_of (map frame_of pubs) bs" and "\<forall>x \<in> set pubs. deliverable x"
    and "reader_holds dr (concat bs @ rest)"
  shows "run_data_stream dr = run_data_stream (read_on (length (concat bs)) (concat (map messages_of pubs)) dr)"
  using assms
proof (induction pubs arbitrary: bs dr)
  case Nil
  then show ?case by simp
next
  case (Cons x pubs)
  obtain b bs' where bs: "bs = b # bs'" and b: "wire_of (frame_of x) b" and l: "list_all2 wire_of (map frame_of pubs) bs'"
    using Cons.prems(1) by (auto simp: list_all2_Cons1)
  have "reader_holds dr (b @ concat bs' @ rest)" using Cons.prems(3) bs by simp
  then have h: "reader_holds (read_on (length b) ms dr) (concat bs' @ rest)" for ms by (rule reader_holds_on) simp
  have "run_data_stream dr = run_data_stream (read_on (length b) (messages_of x) dr)"
  proof (cases x)
    case None
    then show ?thesis
      using b data_read_beacon [of dr "concat bs' @ rest", THEN run_data_stream_step] Cons.prems(3) bs
      by (auto simp: wire_of_def)
  next
    case (Some y)
    obtain p t d ts where y: "y = (p, t, d, ts)" by (cases y)
    then have b': "b = message_frame p t d @ d"
      using b Some frame_of_not_empty [of y] by (simp add: wire_of_def)
    show ?thesis
      using data_read_publication [of dr p t d "concat bs' @ rest" ts, THEN run_data_stream_step] Cons.prems(2,3) bs Some y b'
      by simp
  qed
  also have "\<dots> = run_data_stream (read_on (length b + length (concat bs')) (messages_of x @ concat (map messages_of pubs)) dr)"
    using Cons.IH [OF l _ h] Cons.prems(2) by simp
  finally show ?case using bs by simp
qed

lemma run_data_stream_end:
  assumes "reader_holds dr []"
  shows "dr_messages (snd (run_data_stream dr)) = dr_messages dr \<and> dr_commands (snd (run_data_stream dr)) = dr_commands dr"
proof -
  obtain e s where "stream_read 1 (dr_stream dr) = (Inl e, s)"
    using assms by (fastforce simp: reader_holds_def pending_def stream_read_def read_with_timeout_def Let_def
        split: option.split)
  then have "data_read_step dr = (Inl e, dr\<lparr>dr_stream := s\<rparr>)"
    by (simp add: data_read_step_def dr_io_def io_bind_def)
  then show ?thesis by (subst (1 2) run_data_stream.simps) simp
qed

lemma writer_reader:
  assumes "\<forall>x \<in> set pubs. deliverable x" and "map rc_message rcs = map frame_of pubs" and "s_wfault (wr_stream wr) = None"
  obtains wr' where "handle_data_stream timeout bi lw rcs wr = (Return (Inr ()), wr')"
    and "\<And>dr. reader_holds dr (drop (length (s_out (wr_stream wr))) (s_out (wr_stream wr'))) \<Longrightarrow>
      dr_messages (snd (run_data_stream dr)) = dr_messages dr @ concat (map messages_of pubs) \<and>
      dr_commands (snd (run_data_stream dr)) = dr_commands dr"
proof -
  have "queued_message (frame_of x)" if "deliverable x" for x
    using that by (cases x rule: frame_of.cases) (auto simp: queued_message_def)
  then have "queued_message (rc_message rc)" if "rc \<in> set rcs" for rc
    using that assms(1,2) by (metis (mono_tags, lifting) image_iff list.set_map)
  from writer_wire [OF this assms(3), of rcs timeout bi lw] obtain bs wr'
    where w: "handle_data_stream timeout bi lw rcs wr = (Return (Inr ()), wr')"
      and l: "list_all2 wire_of (map frame_of pubs) bs"
      and o: "s_out (wr_stream wr') = s_out (wr_stream wr) @ concat bs"
    using assms(2) by auto
  show thesis
  proof (rule that [OF w])
    fix dr assume "reader_holds dr (drop (length (s_out (wr_stream wr))) (s_out (wr_stream wr')))"
    then have h: "reader_holds dr (concat bs @ [])" using o by simp
    from run_data_stream_wire [OF l assms(1) h]
    show "dr_messages (snd (run_data_stream dr)) = dr_messages dr @ concat (map messages_of pubs) \<and>
      dr_commands (snd (run_data_stream dr)) = dr_commands dr"
      using run_data_stream_end [OF reader_holds_on [OF h refl]] by (simp add: read_on_def)
  qed
qed

section \<open>Greetings and logins\<close>

text \<open>What the server decides on a login and a password.\<close>

definition login_decision :: "('m, 'ch) Ext \<Rightarrow> ('m, 'ch) Server \<Rightarrow> str \<Rightarrow> str \<Rightarrow> str \<Rightarrow> (str \<times> Acl) option result" where
  "login_decision ext sv addr login password =
     (if (if login = [] \<and> password = [] then ALLOW_ANONYMOUS (sv_statics sv) else authenticate ext sv login password) then
        (case get_acl sv login of
           Some acl \<Rightarrow> Inr (Some (login, acl))
         | None \<Rightarrow> Inl (Error_access (lit ''No ACL for '' @ format_login login)))
      else
        Inl (Error_access
          (if login = [] \<and> password = [] then lit ''anonymous login failed from '' @ addr
           else lit ''login failed for '' @ login @ lit '' from '' @ addr)))"

text \<open>The server after the greeting: wrapped, with the reply written.\<close>

definition greeted :: "duration \<Rightarrow> bytes \<Rightarrow> ('m, 'ch) World \<Rightarrow> ('m, 'ch) World" where
  "greeted timeout header w = w\<lparr>w_stream := (w_stream w)\<lparr>s_in := drop 3 (s_in (w_stream w)), s_timeout := timeout,
     s_out := s_out (w_stream w) @ header @ u16_to_le_bytes PROTOCOL_VERSION\<rparr>\<rparr>"

lemma greeted_arrived:
  "arrived w (header @ mode # rest) \<Longrightarrow> length header = 2 \<Longrightarrow> arrived (greeted timeout header w) rest"
  by (auto simp: arrived_def greeted_def all_arrived_def pending_def simp flip: drop_map dest: in_set_dropD)

lemma header_types:
  "greeting_type (CONTROL_HEADER @ xs) = Inr Control" "greeting_type (DATA_HEADER @ xs) = Inr Data"
  "length CONTROL_HEADER = 2" "length DATA_HEADER = 2" "CONTROL_HEADER \<noteq> DATA_HEADER"
  by (simp_all add: greeting_type_def CONTROL_HEADER_def DATA_HEADER_def)

lemma init_tcp_greeted:
  assumes arr: "arrived w (header @ COMM_INSECURE # rest)" and "s_wfault (w_stream w) = None"
    and h: "header = CONTROL_HEADER \<and> st = Control \<or> header = DATA_HEADER \<and> st = Data"
  shows "init_tcp_stream timeout acceptor True (Inr ()) w = (Inr st, greeted timeout header w)"
proof -
  have l: "length header = 2" and t: "greeting_type (header @ [COMM_INSECURE]) = Inr st"
    using h header_types by auto
  then have n: "(header @ [COMM_INSECURE]) ! 2 = COMM_INSECURE" "take 2 header = header"
    by (auto simp: nth_append)
  have "on_stream (read_with_timeout 3 timeout) w = (Inr (header @ [COMM_INSECURE]), consumed 3 w)"
    using read_prefix [of "w_stream w" "header @ [COMM_INSECURE]" rest 3] arr l
    by (simp add: arrived_def consumed_def)
  then show ?thesis
    using assms(2) t n l
    by (simp add: init_tcp_stream_def io_bind_Inr wrap_stream_def reply_header_def write_now_ok greeted_def consumed_def)
qed

lemma auth_frame_arrived:
  assumes arr: "arrived w (auth_frame user password @ rest)" and l: "length user + length password + 1 \<le> MAX_AUTH_FRAME_SIZE"
  shows "on_stream (read_frame (Some MAX_AUTH_FRAME_SIZE)) w =
    (Inr (user @ 0 # password), consumed (length (auth_frame user password)) w)"
proof -
  let ?len = "word_of_nat (length user) + word_of_nat (length password) + 1 :: u32" and ?buf = "user @ 0 # password"
  have "?len = word_of_nat (length ?buf)" by simp
  moreover have "length ?buf < 2 ^ 32" using l by (simp add: MAX_AUTH_FRAME_SIZE_def)
  ultimately have "unat ?len = length ?buf" using u32_of_len by metis
  then show ?thesis
    using read_frame_prefix [of "w_stream w" ?len ?buf rest "Some MAX_AUTH_FRAME_SIZE" "s_timeout (w_stream w)"] arr l
    by (simp add: arrived_def auth_frame_def read_frame_def consumed_def)
qed

lemma tcp_login_arrived:
  assumes arr: "arrived w (CONTROL_HEADER @ COMM_INSECURE # auth_frame user password @ rest)"
    and f: "s_wfault (w_stream w) = None"
    and u: "0 \<notin> set user" "utf8_valid user" "utf8_valid password" "length user + length password + 1 \<le> MAX_AUTH_FRAME_SIZE"
  shows "tcp_login ext addr timeout acceptor True (Inr ()) w =
    (login_decision ext (w_server w) addr user password,
     consumed (length (auth_frame user password)) (greeted timeout CONTROL_HEADER w))"
proof -
  let ?w = "greeted timeout CONTROL_HEADER w"
  have 1: "init_tcp_stream timeout acceptor True (Inr ()) w = (Inr Control, ?w)"
    by (rule init_tcp_greeted [OF arr f]) simp
  have "arrived ?w (auth_frame user password @ rest)"
    by (rule greeted_arrived [OF arr]) (simp add: header_types)
  note 2 = auth_frame_arrived [OF this u(4)]
  have sv: "w_server ?w = w_server w" by (simp add: greeted_def)
  show ?thesis
    using u(1-3) by (simp add: tcp_login_def io_bind_Inr 1 2 utf8_valid_Inr login_decision_def sv
        split: option.split)
qed

text \<open>The client's side of the two logins.\<close>

definition stream_holds :: "SStream \<Rightarrow> bytes \<Rightarrow> bool" where
  "stream_holds s bs \<longleftrightarrow> s_wfault s = None \<and> all_arrived s \<and> pending s = bs"

definition moved :: "nat \<Rightarrow> bytes \<Rightarrow> SStream \<Rightarrow> SStream" where
  "moved n out s = s\<lparr>s_in := drop n (s_in s), s_out := s_out s @ out\<rparr>"

lemma moved_holds: "stream_holds s (bs @ rest) \<Longrightarrow> length bs = n \<Longrightarrow> stream_holds (moved n out s) rest"
  by (auto simp: stream_holds_def moved_def all_arrived_def pending_def simp flip: drop_map dest: in_set_dropD)

lemma moved_moved [simp]: "moved m out' (moved n out s) = moved (n + m) (out @ out') s"
  by (simp add: moved_def add.commute)

lemma read_in_holds: "stream_holds s (bs @ rest) \<Longrightarrow> length bs = n \<Longrightarrow> read_in n t i s = (Inr bs, moved n [] s)"
  by (simp add: stream_holds_def read_in_def read_prefix moved_def)

lemma write_in_holds: "stream_holds s bs \<Longrightarrow> write_in out t i s = (Inr (), moved 0 out s)"
  by (simp add: stream_holds_def write_in_def write_ok moved_def)

lemma check_reply_holds:
  assumes "stream_holds s (header @ u16_to_le_bytes PROTOCOL_VERSION @ rest)" and "length header = 2"
  shows "check_reply header e t i s = (Inr (), moved 4 [] s)"
proof -
  have "stream_holds (moved 2 [] s) (u16_to_le_bytes PROTOCOL_VERSION @ rest)" by (rule moved_holds [OF assms])
  then have "read_in 2 t i (moved 2 [] s) = (Inr (u16_to_le_bytes PROTOCOL_VERSION), moved 4 [] s)"
    using read_in_holds [of "moved 2 [] s"] by simp
  then show ?thesis using read_in_holds [OF assms] by (simp add: check_reply_def io_bind_Inr)
qed

lemma control_login_holds:
  assumes h: "stream_holds s ((CONTROL_HEADER @ u16_to_le_bytes PROTOCOL_VERSION) @ token @ rest)" and l: "length token = 32"
  shows "control_login cfg i s = (Inr token, moved 36 (auth_frame (cf_user cfg) (cf_password cfg)) s)"
proof -
  let ?a = "auth_frame (cf_user cfg) (cf_password cfg)"
  have "stream_holds (moved 4 [] s) (token @ rest)" by (rule moved_holds [OF h]) (simp add: header_types)
  then have w: "write_in ?a t i (moved 4 [] s) = (Inr (), moved 4 ?a s)" for t
    using write_in_holds [of "moved 4 [] s"] by simp
  have "stream_holds (moved 4 ?a s) (token @ rest)" by (rule moved_holds [OF h]) (simp add: header_types)
  then have "read_in 32 t i (moved 4 ?a s) = (Inr token, moved 36 ?a s)" for t
    using read_in_holds [of "moved 4 ?a s" token rest 32] l by simp
  then show ?thesis
    using check_reply_holds [of s CONTROL_HEADER "token @ rest"] h w
    by (simp add: control_login_def io_bind_Inr header_types)
qed

lemma data_login_holds:
  assumes h: "stream_holds s ((DATA_HEADER @ u16_to_le_bytes PROTOCOL_VERSION) @ [RESPONSE_OK] @ rest)"
  shows "data_login cfg token i s = (Inr (), moved 5 (token @ [word_of_nat (timeout_secs (cf_timeout cfg))]) s)"
proof -
  let ?n = "[word_of_nat (timeout_secs (cf_timeout cfg))]"
  have m: "stream_holds (moved 4 out s) ([RESPONSE_OK] @ rest)" for out
    by (rule moved_holds [OF h]) (simp add: header_types)
  have "write_in token t i (moved 4 [] s) = (Inr (), moved 4 token s)"
    and "write_in ?n t i (moved 4 token s) = (Inr (), moved 4 (token @ ?n) s)"
    and "read_in 1 t i (moved 4 (token @ ?n) s) = (Inr [RESPONSE_OK], moved 5 (token @ ?n) s)" for t
    using write_in_holds [OF m] read_in_holds [OF m] by simp_all
  then show ?thesis
    using check_reply_holds [of s DATA_HEADER "[RESPONSE_OK] @ rest"] h
    by (simp add: data_login_def io_bind_Inr header_types Let_def)
qed

text \<open>The server attaches a data stream to the session of the token it receives.\<close>

lemma launch_arrived:
  assumes arr: "arrived w (token @ n # rest)" and l: "length token = 32" and f: "s_wfault (w_stream w) = None"
    and a: "attach ext (Token token) (w_server w) = (Inr (channel, client), sv)"
  shows "\<exists>sv'. launch_data_stream ext timeout w =
    (Inr (), replied RESPONSE_OK (consumed 33 (w\<lparr>w_server := sv'\<rparr>))) \<and> sv_db sv' = sv_db sv \<and>
    data_channel (st_cells (sv_store sv') (cl_ref client)) = data_channel (st_cells (sv_store sv) (cl_ref client)) \<and>
    st_chans (sv_store sv') = st_chans (sv_store sv)"
proof -
  have 1: "on_stream (stream_read 32) w = (Inr token, consumed 32 w)" by (rule stream_read_arrived [OF arr l])
  have "arrived (consumed 32 w) ([n] @ rest)" using arrived_consumed [OF arr l] by simp
  then have 2: "read_within 1 t i (consumed 32 w) = (Inr [n], consumed 33 w)" for t i
    using read_within_arrived [of "consumed 32 w" "[n]"] by simp
  have 3: "with_server (attach ext (Token token)) (consumed 33 w) = (Inr (Inr (channel, client)), consumed 33 (w\<lparr>w_server := sv\<rparr>))"
    using a by (simp add: with_server_def consumed_def)
  have 4: "respond_ok (consumed 33 (w\<lparr>w_server := sv\<rparr>)) = (Inr (), replied RESPONSE_OK (consumed 33 (w\<lparr>w_server := sv\<rparr>)))"
    by (rule respond_replied) (simp add: f)
  have t: "Token_from token = Token token" by (simp add: Token_from_def)
  define w4 where "w4 = replied RESPONSE_OK (consumed 33 (w\<lparr>w_server := sv\<rparr>))"
  define sv1 where "sv1 = spawn_for client (Pinger channel (beacon_interval_of n)) sv"
  define sv2 where "sv2 = spawn_for client (DataStream (w_stream w4) (Token token) channel timeout (beacon_interval_of n)
       (format_login (cl_login client)) (cl_addr client)) sv1"
  have "w_server w4 = sv" by (simp add: w4_def replied_def)
  then have "launch_data_stream ext timeout w = (Inr (), w4\<lparr>w_server := sv2\<rparr>)"
    by (simp add: launch_data_stream_def io_bind_Inr 1 2 [unfolded One_nat_def] 3 4 t Let_def w4_def [symmetric] sv1_def sv2_def)
  moreover have "w4\<lparr>w_server := sv2\<rparr> = replied RESPONSE_OK (consumed 33 (w\<lparr>w_server := sv2\<rparr>))"
    by (simp add: w4_def replied_def consumed_def)
  moreover have "sv_db sv2 = sv_db sv"
    "data_channel (st_cells (sv_store sv2) (cl_ref client)) = data_channel (st_cells (sv_store sv) (cl_ref client))"
    "st_chans (sv_store sv2) = st_chans (sv_store sv)"
    by (simp_all add: sv2_def sv1_def spawn_for_def spawn_def register_task_def Let_def)
  ultimately show ?thesis by metis
qed

lemma tcp_data_arrived:
  assumes arr: "arrived w (DATA_HEADER @ COMM_INSECURE # token @ n # rest)" and l: "length token = 32"
    and f: "s_wfault (w_stream w) = None" and a: "attach ext (Token token) (w_server w) = (Inr (channel, client), sv)"
  shows "\<exists>w'. tcp_login ext addr timeout acceptor True (Inr ()) w = (Inr None, w') \<and>
    s_out (w_stream w') = s_out (w_stream w) @ (DATA_HEADER @ u16_to_le_bytes PROTOCOL_VERSION) @ [RESPONSE_OK] \<and>
    get_data_channel client (sv_store (w_server w')) = get_data_channel client (sv_store sv)"
proof -
  let ?w = "greeted timeout DATA_HEADER w"
  have 1: "init_tcp_stream timeout acceptor True (Inr ()) w = (Inr Data, ?w)"
    by (rule init_tcp_greeted [OF arr f]) simp
  have arr': "arrived ?w (token @ n # rest)" by (rule greeted_arrived [OF arr]) (simp add: header_types)
  have sv: "w_server ?w = w_server w" "s_wfault (w_stream ?w) = None" using f by (simp_all add: greeted_def)
  obtain sv' where 2: "launch_data_stream ext timeout ?w = (Inr (), replied RESPONSE_OK (consumed 33 (?w\<lparr>w_server := sv'\<rparr>)))"
    and "data_channel (st_cells (sv_store sv') (cl_ref client)) = data_channel (st_cells (sv_store sv) (cl_ref client))"
    using launch_arrived [OF arr' l sv(2) a [folded sv(1)]] by blast
  then show ?thesis
    by (simp add: tcp_login_def io_bind_Inr 1 2 replied_def get_data_channel_def)
      (simp add: greeted_def consumed_def)
qed

subsection \<open>Connecting\<close>

text \<open>The stream on which the client has sent its greeting without TLS.\<close>

definition opened :: "Config \<Rightarrow> bytes \<Rightarrow> instant \<Rightarrow> SStream \<Rightarrow> SStream" where
  "opened cfg header at s = s\<lparr>s_now := at, s_out := s_out s @ header @ [COMM_INSECURE], s_timeout := cf_timeout cfg\<rparr>"

text \<open>A network that accepts the \<open>n\<close>-th connection, started at a time, within a timeout.\<close>

definition accepts :: "Net \<Rightarrow> nat \<Rightarrow> str \<Rightarrow> instant \<Rightarrow> duration \<Rightarrow> instant \<Rightarrow> SStream \<Rightarrow> bool" where
  "accepts net n path now timeout at s \<longleftrightarrow>
     net_connect net n path now = (at, Inr s) \<and> now \<le> at \<and> at \<le> now + timeout \<and> net_nodelay net n = Inr () \<and> s_out s = []"

lemma open_stream_plain:
  assumes "\<not> is_unix_socket (cf_path cfg)" and "\<not> cf_tls cfg" and "accepts net n (cf_path cfg) now timeout at s"
    and "s_wfault s = None"
  shows "open_stream net cfg n header timeout op_start now = Inr (opened cfg header at s)"
  using assms by (simp add: open_stream_def dial_def accepts_def write_ok opened_def Let_def max_absorb2)

lemma opened_holds: "stream_holds (s\<lparr>s_now := at\<rparr>) bs \<Longrightarrow> stream_holds (opened cfg header at s) bs"
  by (simp add: stream_holds_def opened_def all_arrived_def pending_def)

lemma opened_fields [simp]:
  "s_out (moved n out (opened cfg header at s)) = s_out s @ header @ COMM_INSECURE # out"
  "s_now (moved n out (opened cfg header at s)) = at"
  by (simp_all add: moved_def opened_def)

lemma pending_moved: "pending (moved n out (opened cfg header at s)) = drop n (pending s)"
  by (simp add: moved_def opened_def pending_def drop_map)

lemma Client_connect_plain:
  assumes plain: "\<not> is_unix_socket (cf_path cfg)" "\<not> cf_tls cfg" and d: "cf_need_data_stream cfg"
    and c0: "accepts net 0 (cf_path cfg) now (cf_timeout cfg) t0 s0"
    and h0: "stream_holds (s0\<lparr>s_now := t0\<rparr>) ((CONTROL_HEADER @ u16_to_le_bytes PROTOCOL_VERSION) @ token @ rest0)"
    and l: "length token = 32"
    and c1: "accepts net 1 (cf_path cfg) t0 (cf_timeout cfg - (t0 - now)) t1 s1"
    and h1: "stream_holds (s1\<lparr>s_now := t1\<rparr>) ((DATA_HEADER @ u16_to_le_bytes PROTOCOL_VERSION) @ [RESPONSE_OK] @ rest1)"
  shows "\<exists>c ds. Client_connect net cfg now = Inr c \<and> cn_token c = token \<and> cn_connected c \<and> cn_data c = Some ds \<and>
    s_out (cn_control c) = CONTROL_HEADER @ COMM_INSECURE # auth_frame (cf_user cfg) (cf_password cfg) \<and>
    s_out ds = DATA_HEADER @ COMM_INSECURE # token @ [word_of_nat (timeout_secs (cf_timeout cfg))] \<and>
    pending (cn_control c) = rest0 \<and> pending ds = rest1"
proof -
  let ?a = "auth_frame (cf_user cfg) (cf_password cfg)" and ?n = "[word_of_nat (timeout_secs (cf_timeout cfg))]"
  let ?o0 = "opened cfg CONTROL_HEADER t0 s0" and ?o1 = "opened cfg DATA_HEADER t1 s1"
  let ?s0 = "moved 36 ?a ?o0" and ?s1 = "moved 5 (token @ ?n) ?o1"
  have w: "s_wfault s0 = None" "s_wfault s1 = None" using h0 h1 by (simp_all add: stream_holds_def)
  have o0: "open_stream net cfg 0 CONTROL_HEADER (cf_timeout cfg) now now = Inr ?o0"
    by (rule open_stream_plain [OF plain c0 w(1)])
  have g0: "control_login cfg now ?o0 = (Inr token, ?s0)" by (rule control_login_holds [OF opened_holds [OF h0] l])
  have "t0 - now \<le> cf_timeout cfg" using c0 by (auto simp: accepts_def)
  then have r: "remaining_at (cf_timeout cfg) now ?s0 = cf_timeout cfg - (t0 - now)"
    by (simp add: remaining_at_def reduce_timeout_def Let_def)
  have o1: "open_stream net cfg 1 DATA_HEADER (cf_timeout cfg - (t0 - now)) now t0 = Inr ?o1"
    by (rule open_stream_plain [OF plain c1 w(2)])
  have g1: "data_login cfg token now ?o1 = (Inr (), ?s1)" by (rule data_login_holds [OF opened_holds [OF h1]])
  have "pending s0 = (CONTROL_HEADER @ u16_to_le_bytes PROTOCOL_VERSION) @ token @ rest0"
    and "pending s1 = (DATA_HEADER @ u16_to_le_bytes PROTOCOL_VERSION) @ [RESPONSE_OK] @ rest1"
    using h0 h1 by (simp_all add: stream_holds_def pending_def)
  then have p: "pending ?s0 = rest0" "pending ?s1 = rest1"
    using l by (simp_all add: pending_moved header_types)
  have o: "s_out s0 = []" "s_out s1 = []" using c0 c1 by (simp_all add: accepts_def)
  show ?thesis
    using plain d p o
    by (simp add: Client_connect_def o0 [unfolded One_nat_def] o1 [unfolded One_nat_def] run_io_def g0 g1 r Let_def pending_def)
qed

subsection \<open>Waiting for the socket\<close>

lemma wait_socket_found:
  assumes "m \<le> k" and "k * sleep_step \<le> limit" and "ex (i + k * sleep_step)"
    and "\<forall>j. m \<le> j \<and> j < k \<longrightarrow> \<not> ex (i + j * sleep_step)"
  shows "wait_socket ex i limit (i + m * sleep_step) = Inr (i + k * sleep_step)"
  using assms(1,4)
proof (induction rule: inc_induct)
  case base
  then show ?case using assms(3) by (subst wait_socket.simps) simp
next
  case (step n)
  have "Suc n * sleep_step \<le> k * sleep_step" using step.hyps by (intro mult_right_mono) auto
  then show ?case
    using step assms(2) by (subst wait_socket.simps) (simp add: add.commute add.left_commute)
qed

lemma wait_socket_missing:
  assumes "\<forall>k. m \<le> k \<and> k * sleep_step \<le> limit \<longrightarrow> \<not> ex (i + k * sleep_step)" and "m * sleep_step \<le> limit"
  shows "wait_socket ex i limit (i + m * sleep_step) = Inl (Error_io (lit ''UNIX socket not found''))"
  using assms
proof (induction "limit - m * sleep_step" arbitrary: m rule: less_induct)
  case less
  show ?case
  proof (cases "Suc m * sleep_step \<le> limit")
    case True
    have "limit - Suc m * sleep_step < limit - m * sleep_step"
      using True by (simp add: sleep_step_def millis_def)
    then have "wait_socket ex i limit (i + Suc m * sleep_step) = Inl (Error_io (lit ''UNIX socket not found''))"
      using less.hyps [of "Suc m"] less.prems(1) True by simp
    then show ?thesis
      using less.prems True by (subst wait_socket.simps) (simp add: add.commute add.left_commute)
  next
    case False
    then show ?thesis
      using less.prems by (subst wait_socket.simps) (simp add: add.commute add.left_commute not_le)
  qed
qed

lemma wait_socket_polls:
  "wait_socket ex now limit now =
     (if \<exists>k. k * sleep_step \<le> limit \<and> ex (now + k * sleep_step)
      then Inr (now + (LEAST k. ex (now + k * sleep_step)) * sleep_step)
      else Inl (Error_io (lit ''UNIX socket not found'')))"
proof (cases "\<exists>k. k * sleep_step \<le> limit \<and> ex (now + k * sleep_step)")
  case True
  then obtain k where k: "k * sleep_step \<le> limit" "ex (now + k * sleep_step)" by auto
  let ?k = "LEAST k. ex (now + k * sleep_step)"
  have "?k \<le> k" by (rule Least_le) (rule k(2))
  then have "?k * sleep_step \<le> k * sleep_step" by (rule mult_right_mono) simp
  then have "?k * sleep_step \<le> limit" using k(1) by (rule order_trans)
  then have "wait_socket ex now limit (now + 0 * sleep_step) = Inr (now + ?k * sleep_step)"
    using k by (intro wait_socket_found) (auto intro: LeastI dest: not_less_Least)
  with True show ?thesis by simp
next
  case False
  then have "wait_socket ex now limit (now + 0 * sleep_step) = Inl (Error_io (lit ''UNIX socket not found''))"
    by (intro wait_socket_missing) auto
  with False show ?thesis by simp
qed

section \<open>Properties\<close>

text \<open>
  C7: the server understands what a client sends.  When the bytes that the control task writes for
  a command have arrived, one round of the session reads exactly these bytes and does for the command
  what it stands for: a bulk command is taken apart into its topics, a publication into priority,
  topic and message, and only \<^verbatim>\<open>Bye\<close> ends the session.
\<close>

theorem session_serves_client:
  assumes "sendable (sv_statics (w_server w)) cmd" and "arrived w (wire cmd @ rest)"
  shows "control_step ext c acl timeout w =
    io_bind (served ext c acl (ext_now_ns ext (s_now (w_stream w))) cmd) (\<lambda>_. io_return (cmd \<noteq> Bye))
      (consumed (length (wire cmd)) w)"
  using server_serves [OF assms] by (simp add: goes_on_def)

definition sample_session :: "bytes \<Rightarrow> (list_map, fifo) World" where
  "sample_session bs = \<lparr>w_stream = SStream_new (map (Pair 0) bs) None 0 5, w_server = sample_server\<rparr>"

lemma sample_session_arrived: "arrived (sample_session bs) bs"
  by (auto simp: arrived_def sample_session_def SStream_new_def all_arrived_def pending_def comp_def)

theorem session_serves_client_witness:
  "control_step sample_ext sample_client sample_acl 5 (sample_session (wire (SubscribeBulk [lit ''a/b'', lit ''a/c'']))) =
    io_bind (io_bind (with_server (subscribe_topics sample_ext sample_client sample_acl [lit ''a/b'', lit ''a/c'']))
      respond_status) (\<lambda>_. io_return True)
      (consumed 13 (sample_session (wire (SubscribeBulk [lit ''a/b'', lit ''a/c'']))))"
proof -
  let ?cmd = "SubscribeBulk [lit ''a/b'', lit ''a/c'']"
  have "sound_topic (lit ''a/b'')" "sound_topic (lit ''a/c'')" by code_simp+
  then have "sendable (sv_statics sample_server) ?cmd"
    by (simp add: sample_server_def bulk_body_def) (simp add: lit_def)
  then have "sendable (sv_statics (w_server (sample_session (wire ?cmd)))) ?cmd" by (simp add: sample_session_def)
  from session_serves_client [OF this, of "[]" sample_ext sample_client sample_acl 5] sample_session_arrived [of "wire ?cmd"]
  show ?thesis by (simp add: wire_def bulk_body_def lit_def)
qed

text \<open>
  C8: the control task of a client sends the queued commands in their order, each whole, and hands
  each caller the outcome of its own command: success, access denied, or the server's error code.
  After any other code than the first two the task ends: the commands behind it are never sent.
\<close>

theorem control_task_answers:
  assumes "length codes = length cmds" and "\<forall>c \<in> set cmds. single_round (control_command (snd c))"
    and "\<forall>code \<in> set codes. settled code" and "stream_holds (ct_stream ct) (codes @ rest)"
  shows "\<exists>ct'. run_control_stream bi timeout cmds ct = (Inr (), ct') \<and>
    s_out (ct_stream ct') = s_out (ct_stream ct) @ concat (map (\<lambda>c. wire (control_command (snd c))) cmds) \<and>
    ct_responses ct' = ct_responses ct @ concat (map answer (zip (map snd cmds) codes)) \<and>
    (\<forall>bad code rest' others. rest = code # rest' \<and> \<not> settled code \<and> single_round (control_command (snd bad)) \<longrightarrow>
       (\<exists>ct''. run_control_stream bi timeout (cmds @ bad # others) ct = (reply_of code, ct'') \<and>
          s_out (ct_stream ct'') = s_out (ct_stream ct') @ wire (control_command (snd bad)) \<and>
          ct_responses ct'' = ct_responses ct' @ answer (snd bad, code)))"
proof -
  obtain ct' where run: "\<forall>more. run_control_stream bi timeout (cmds @ more) ct = run_control_stream bi timeout more ct'"
    and s: "s_wfault (ct_stream ct') = None" "all_arrived (ct_stream ct')" "pending (ct_stream ct') = rest"
    and o: "s_out (ct_stream ct') = s_out (ct_stream ct) @ concat (map (\<lambda>c. wire (control_command (snd c))) cmds)"
      "ct_responses ct' = ct_responses ct @ concat (map answer (zip (map snd cmds) codes))"
    using control_stream_answered [OF assms(1-3)] assms(4) by (metis stream_holds_def)
  have bad: "\<exists>ct''. run_control_stream bi timeout (cmds @ bad # others) ct = (reply_of code, ct'') \<and>
      s_out (ct_stream ct'') = s_out (ct_stream ct') @ wire (control_command (snd bad)) \<and>
      ct_responses ct'' = ct_responses ct' @ answer (snd bad, code)"
    if "rest = code # rest'" and n: "\<not> settled code" and "single_round (control_command (snd bad))" for code rest' bad others
  proof -
    obtain e where e: "reply_of code = Inl e" using n by (simp add: reply_of_def settled_def)
    have "control_command_step bi timeout bad ct' = (Inl e, after_answer bad code ct')"
      using control_command_answered [OF s(1,2), of code rest' bad] s(3) that e by simp
    then show ?thesis using run e by (simp add: io_bind_Inl after_answer_def Let_def)
  qed
  have "run_control_stream bi timeout cmds ct = (Inr (), ct')" using run [rule_format, of "[]"] by simp
  with o bad show ?thesis by blast
qed

theorem control_task_answers_witness:
  "\<exists>ct'. run_control_stream 1 5
      [(2, \<lparr>control_command = Subscribe (lit ''a''), response_channel = Some 7\<rparr>),
       (3, \<lparr>control_command = Bye, response_channel = Some 8\<rparr>)]
      \<lparr>ct_stream = SStream_new [(0, RESPONSE_ERR_ACCESS), (0, RESPONSE_OK)] None 0 5, ct_op_start = 0, ct_responses = []\<rparr> =
      (Inr (), ct') \<and>
    map fst (ct_responses ct') = [7, 8] \<and> snd (ct_responses ct' ! 1) = Inr ()"
proof -
  let ?s = "SStream_new [(0, RESPONSE_ERR_ACCESS), (0, RESPONSE_OK)] None 0 5"
  have "stream_holds ?s ([RESPONSE_ERR_ACCESS, RESPONSE_OK] @ [])"
    by (simp add: stream_holds_def SStream_new_def all_arrived_def pending_def)
  then obtain ct' where "run_control_stream 1 5
      [(2, \<lparr>control_command = Subscribe (lit ''a''), response_channel = Some 7\<rparr>),
       (3, \<lparr>control_command = Bye, response_channel = Some 8\<rparr>)]
      \<lparr>ct_stream = ?s, ct_op_start = 0, ct_responses = []\<rparr> = (Inr (), ct')"
    and "ct_responses ct' = [(7, reply_of RESPONSE_ERR_ACCESS), (8, Inr ())]"
    using control_task_answers [where codes = "[RESPONSE_ERR_ACCESS, RESPONSE_OK]" and rest = "[]" and bi = 1 and timeout = 5 and
        ct = "\<lparr>ct_stream = ?s, ct_op_start = 0, ct_responses = []\<rparr>" and
        cmds = "[(2, \<lparr>control_command = Subscribe (lit ''a''), response_channel = Some 7\<rparr>),
          (3, \<lparr>control_command = Bye, response_channel = Some 8\<rparr>)]"]
    by (auto simp: single_round_def settled_def answer_def reply_ok simp del: run_control_stream.simps)
  then show ?thesis by (intro exI [of _ ct']) (simp del: run_control_stream.simps)
qed

text \<open>
  C9: the data path from the server to a client.  Whatever publications and beacons a queue holds,
  the writer of the data stream returns without an error, and the data task of a client that reads
  the written bytes passes on exactly the published messages, with priority, topic and content, in
  the order of the queue; beacons leave no trace, and no \<^verbatim>\<open>Bye\<close> is sent.
\<close>

theorem data_stream_roundtrip:
  assumes "\<forall>x \<in> set pubs. deliverable x" and "map rc_message rcs = map frame_of pubs" and "s_wfault (wr_stream wr) = None"
  shows "\<exists>wr'. handle_data_stream timeout bi lw rcs wr = (Return (Inr ()), wr') \<and>
    (\<forall>dr. reader_holds dr (drop (length (s_out (wr_stream wr))) (s_out (wr_stream wr'))) \<longrightarrow>
      dr_messages (snd (run_data_stream dr)) = dr_messages dr @ concat (map messages_of pubs) \<and>
      dr_commands (snd (run_data_stream dr)) = dr_commands dr)"
  using writer_reader [OF assms] by metis

definition sample_reader :: "bytes \<Rightarrow> data_reader" where
  "sample_reader bs = \<lparr>dr_stream = SStream_new (map (Pair 0) bs) None 0 5, dr_messages = [], dr_open = True, dr_commands = []\<rparr>"

lemma sample_reader_holds: "reader_holds (sample_reader bs) bs"
  by (auto simp: reader_holds_def sample_reader_def SStream_new_def all_arrived_def pending_def comp_def)

theorem data_stream_roundtrip_witness:
  "\<exists>wr'. handle_data_stream 5 10 0
      [\<lparr>rc_message = empty_message, rc_at = 20, rc_now_ns = 0\<rparr>,
       \<lparr>rc_message = frame_of (Some (127, lit ''t'', [9], 1)), rc_at = 21, rc_now_ns = 0\<rparr>]
      \<lparr>wr_stream = SStream_new [] None 0 5, wr_counters = Counters_default, wr_last_command = 0\<rparr> = (Return (Inr ()), wr') \<and>
    map msg_data (dr_messages (snd (run_data_stream (sample_reader (s_out (wr_stream wr')))))) = [[9]]"
proof -
  let ?pubs = "[None, Some (127, lit ''t'', [9], 1)] :: publication list"
  let ?rcs = "[\<lparr>rc_message = empty_message, rc_at = 20, rc_now_ns = 0\<rparr>,
       \<lparr>rc_message = frame_of (Some (127, lit ''t'', [9], 1)), rc_at = 21, rc_now_ns = 0\<rparr>]"
  let ?wr = "\<lparr>wr_stream = SStream_new [] None 0 5, wr_counters = Counters_default, wr_last_command = 0\<rparr>"
  have "0 \<notin> set (lit ''t'')" "utf8_valid (lit ''t'')" by code_simp+
  then have d: "\<forall>x \<in> set ?pubs. deliverable x" by (simp add: lit_def)
  have "map rc_message ?rcs = map frame_of ?pubs" by simp
  from data_stream_roundtrip [OF d this, of ?wr 5 10 0]
  obtain wr' where w: "handle_data_stream 5 10 0 ?rcs ?wr = (Return (Inr ()), wr')"
    and r: "\<And>dr. reader_holds dr (s_out (wr_stream wr')) \<Longrightarrow>
      dr_messages (snd (run_data_stream dr)) = dr_messages dr @ concat (map messages_of ?pubs)"
    by (auto simp: SStream_new_def simp del: handle_data_stream.simps)
  have "dr_messages (sample_reader bs) = []" for bs by (simp add: sample_reader_def)
  with w r [OF sample_reader_holds] show ?thesis by (intro exI [of _ wr']) (simp del: handle_data_stream.simps)
qed


definition sample_net :: Net where
  "sample_net =
     \<lparr>net_exists = (\<lambda>_ _. True),
      net_connect = (\<lambda>n _ now. (now + 1, Inr (SStream_new (map (Pair 0)
        (if n = 0 then (CONTROL_HEADER @ u16_to_le_bytes PROTOCOL_VERSION) @ replicate 32 1
         else (DATA_HEADER @ u16_to_le_bytes PROTOCOL_VERSION) @ [RESPONSE_OK])) None 0 0))),
      net_nodelay = (\<lambda>_. Inr ()), net_from_pem = (\<lambda>_. Inr ()), net_build = Inr (),
      net_tls = (\<lambda>_ _ s. Inr s)\<rparr>"

definition sample_config :: Config where
  "sample_config = set_timeout 5 (set_auth (lit ''u'') (lit ''pw'') (Config_new (lit ''host:2873'')))"

lemma sample_config_simps [simp]:
  "cf_user sample_config = lit ''u''" "cf_password sample_config = lit ''pw''" "cf_timeout sample_config = 5"
  "cf_path sample_config = lit ''host:2873''" "\<not> cf_tls sample_config" "cf_need_data_stream sample_config"
  by (simp_all add: sample_config_def set_timeout_def set_auth_def Config_new_def)

lemma new_stream_holds: "stream_holds ((SStream_new (map (Pair 0) bs) None 0 t)\<lparr>s_now := n\<rparr>) bs"
  by (auto simp: stream_holds_def SStream_new_def all_arrived_def pending_def comp_def)

lemma sample_login: "login_decision sample_ext sample_server a (lit ''u'') (lit ''pw'') = Inr (Some (lit ''u'', sample_acl))"
proof -
  have "lit ''u'' \<noteq> []" by (simp add: lit_def)
  then show ?thesis
    by (simp add: login_decision_def authenticate_def verify_def get_acl_def Db_get_acl_def sample_server_def sample_ext_def)
qed


text \<open>
  C37: waiting for the UNIX socket of the server ends.  The file is polled every 100 ms: the wait
  succeeds at the first poll that finds it, provided that is not after the limit, and fails
  otherwise; so it never lasts longer than \<^verbatim>\<open>socket_wait_timeout\<close> plus one step.
\<close>

theorem wait_socket_decides:
  "wait_socket exists_at now limit now =
     (if \<exists>k. k * sleep_step \<le> limit \<and> exists_at (now + k * sleep_step)
      then Inr (now + (LEAST k. exists_at (now + k * sleep_step)) * sleep_step)
      else Inl (Error_io (lit ''UNIX socket not found'')))"
  by (rule wait_socket_polls)

end
