(* ===== verification/Replication_Props.thy ===== *)
theory Replication_Props
  imports Client_Props
begin

text \<open>
  Replication between two nodes: the two rounds of \<^verbatim>\<open>OP_PUBLISH_REPL\<close>, with \<^verbatim>\<open>publish_repl\<close> of
  \<^verbatim>\<open>src/src/client.rs\<close> on one side and the session of a replicator in \<^verbatim>\<open>src/src/server.rs\<close> on the other.
  The second round is only played when the server asks for it.
\<close>

section \<open>The conversation\<close>

text \<open>The second round; the codes of the server; what the client sends and tells its caller.\<close>

definition repl_body :: "u8 \<Rightarrow> bytes \<Rightarrow> u64 \<Rightarrow> bytes" where
  "repl_body p m ts = repl_message p ts m @ m"

definition repl_codes :: "Acl \<Rightarrow> ServerClient list \<Rightarrow> u8 list" where
  "repl_codes acl subscribers =
     (if \<not> is_replicator acl then [RESPONSE_ERR_ACCESS]
      else if subscribers = [] then [RESPONSE_NOT_REQUIRED]
      else [RESPONSE_OK_WAITING, RESPONSE_OK])"

definition repl_sent :: "Acl \<Rightarrow> ServerClient list \<Rightarrow> u8 \<Rightarrow> str \<Rightarrow> bytes \<Rightarrow> u64 \<Rightarrow> bytes" where
  "repl_sent acl subscribers p t m ts =
     as_bytes (PublishRepl p t m ts) @ (if is_replicator acl \<and> subscribers \<noteq> [] then repl_body p m ts else [])"

definition repl_outcome :: "Acl \<Rightarrow> unit result" where
  "repl_outcome acl = (if is_replicator acl then Inr () else Inl (Error_access (lit ''Operation access denied'')))"

section \<open>The server\<close>

lemma replied_fields [simp]:
  "w_server (replied b w) = w_server w" "s_wfault (w_stream (replied b w)) = s_wfault (w_stream w)"
  "s_out (w_stream (replied b w)) = s_out (w_stream w) @ [b]" "arrived (replied b w) bs = arrived w bs"
  by (simp_all add: replied_def arrived_def all_arrived_def pending_def)

lemma arrived_server: "arrived (w\<lparr>w_server := sv\<rparr>) bs = arrived w bs"
  by (simp add: arrived_def)

lemma length_u64 [simp]: "length (u64_to_le_bytes x) = 8"
  by (simp add: u64_to_le_bytes_def)

lemma u64_round: "u64_from_le_bytes (u64_to_le_bytes x) = x"
  using unat_bound [of x] by (simp add: u64_from_le_bytes_def u64_to_le_bytes_def from_to_le)

lemma repl_head_arrived:
  assumes "arrived w (as_bytes (PublishRepl p t m ts) @ bs)" and "utf8_valid t" and "length t < 2 ^ 32"
    and "length t \<le> MAX_TOPIC_LENGTH (sv_statics (w_server w))" and "ext_cluster ext"
  shows "control_step ext c acl timeout w =
    io_bind
      (if is_replicator acl then
         io_bind (io_get (\<lambda>w. get_subscribers (ext_submap ext) t (sv_db (w_server w)))) (\<lambda>subscribers.
         if subscribers = [] then respond_status RESPONSE_NOT_REQUIRED
         else
           io_bind (respond_status RESPONSE_OK_WAITING) (\<lambda>_.
           io_bind (read_within 1 timeout (s_now (w_stream w))) (\<lambda>prio.
           io_bind (read_within 8 timeout (s_now (w_stream w))) (\<lambda>ts_buf.
           io_bind (frame_within MAX_PUB_SIZE timeout (s_now (w_stream w))) (\<lambda>data.
           io_bind (on_server (push_to_subscribers ext subscribers (hd prio) t data (u64_from_le_bytes ts_buf))) (\<lambda>_.
           respond_ok))))))
       else respond_deny)
      (\<lambda>_. io_return True) (consumed (5 + length t) w)"
    and "arrived (consumed (5 + length t) w) bs"
proof -
  let ?len = "word_of_nat (length t) :: u32"
  have arr: "arrived w (OP_PUBLISH_REPL # u32_to_le_bytes ?len @ t @ bs)" using assms(1) by simp
  have arr1: "arrived (consumed 1 w) (u32_to_le_bytes ?len @ t @ bs)"
    by (rule arrived_consumed [of w "[OP_PUBLISH_REPL]"]) (use arr in simp_all)
  have l: "unat ?len = length t" using assms(3) by (simp add: unat_of_nat)
  have f: "frame_within MAX_TOPIC_LENGTH timeout (s_now (w_stream w)) (consumed 1 w) = (Inr t, consumed (5 + length t) w)"
    using frame_within_arrived [OF arr1 l, of MAX_TOPIC_LENGTH timeout "s_now (w_stream w)"] assms(4) by simp
  have op: "OP_PUBLISH_REPL \<noteq> OP_NOP" "OP_PUBLISH_REPL \<noteq> OP_SUBSCRIBE" "OP_PUBLISH_REPL \<noteq> OP_UNSUBSCRIBE"
    "OP_PUBLISH_REPL \<noteq> OP_PUBLISH"
    by (simp_all add: op_consts)
  show "control_step ext c acl timeout w =
    io_bind
      (if is_replicator acl then
         io_bind (io_get (\<lambda>w. get_subscribers (ext_submap ext) t (sv_db (w_server w)))) (\<lambda>subscribers.
         if subscribers = [] then respond_status RESPONSE_NOT_REQUIRED
         else
           io_bind (respond_status RESPONSE_OK_WAITING) (\<lambda>_.
           io_bind (read_within 1 timeout (s_now (w_stream w))) (\<lambda>prio.
           io_bind (read_within 8 timeout (s_now (w_stream w))) (\<lambda>ts_buf.
           io_bind (frame_within MAX_PUB_SIZE timeout (s_now (w_stream w))) (\<lambda>data.
           io_bind (on_server (push_to_subscribers ext subscribers (hd prio) t data (u64_from_le_bytes ts_buf))) (\<lambda>_.
           respond_ok))))))
       else respond_deny)
      (\<lambda>_. io_return True) (consumed (5 + length t) w)"
    unfolding control_step_arrived [OF arr] control_op_def Let_def io_bind_go_on
    using op assms(2,5) f by (simp add: op_publish_repl_def io_bind_Inr utf8_valid_Inr)
  show "arrived (consumed (5 + length t) w) bs"
    by (rule arrived_consumed [OF assms(1)]) simp
qed

lemma repl_body_arrived:
  assumes "arrived w (repl_body p m ts @ rest)" and "length m < 2 ^ 32" and "length m \<le> MAX_PUB_SIZE (sv_statics (w_server w))"
  shows "read_within 1 to i w = (Inr [p], consumed 1 w)"
    and "read_within 8 to i (consumed 1 w) = (Inr (u64_to_le_bytes ts), consumed 9 w)"
    and "frame_within MAX_PUB_SIZE to i (consumed 9 w) = (Inr m, consumed (13 + length m) w)"
    and "arrived (consumed (13 + length m) w) rest"
proof -
  let ?len = "word_of_nat (length m) :: u32"
  have a: "arrived w ([p] @ u64_to_le_bytes ts @ u32_to_le_bytes ?len @ m @ rest)"
    using assms(1) by (simp add: repl_body_def repl_message_def)
  have a1: "arrived (consumed 1 w) (u64_to_le_bytes ts @ u32_to_le_bytes ?len @ m @ rest)"
    by (rule arrived_consumed [OF a]) simp
  have a9: "arrived (consumed 9 w) (u32_to_le_bytes ?len @ m @ rest)"
    using arrived_consumed [OF a1, of 8] by simp
  show "read_within 1 to i w = (Inr [p], consumed 1 w)" by (rule read_within_arrived [OF a]) simp
  show "read_within 8 to i (consumed 1 w) = (Inr (u64_to_le_bytes ts), consumed 9 w)"
    using read_within_arrived [OF a1, of 8 to i] by simp
  have l: "unat ?len = length m" using assms(2) by (simp add: unat_of_nat)
  show "frame_within MAX_PUB_SIZE to i (consumed 9 w) = (Inr m, consumed (13 + length m) w)"
    using frame_within_arrived [OF a9 l, of MAX_PUB_SIZE to i] assms(3) by simp
  show "arrived (consumed (13 + length m) w) rest"
    using arrived_consumed [OF assms(1), of "13 + length m"] by (simp add: repl_body_def repl_message_def)
qed

lemma server_replicates:
  assumes s: "get_subscribers (ext_submap ext) t (sv_db (w_server w)) = subscribers"
    and arr: "arrived w (repl_sent acl subscribers p t m ts @ rest)" and "ext_cluster ext" and "utf8_valid t"
    and "length t < 2 ^ 32" and "length t \<le> MAX_TOPIC_LENGTH (sv_statics (w_server w))"
    and m: "length m < 2 ^ 32" "length m \<le> MAX_PUB_SIZE (sv_statics (w_server w))" and f: "s_wfault (w_stream w) = None"
  shows "\<exists>w'. control_step ext c acl timeout w = (Inr True, w') \<and> arrived w' rest \<and>
    s_out (w_stream w') = s_out (w_stream w) @ repl_codes acl subscribers \<and>
    w_server w' = (if is_replicator acl \<and> subscribers \<noteq> [] then push_to_subscribers ext subscribers p t m ts (w_server w)
      else w_server w)"
proof -
  let ?bs = "(if is_replicator acl \<and> subscribers \<noteq> [] then repl_body p m ts else []) @ rest"
  let ?w = "consumed (5 + length t) w"
  have "arrived w (as_bytes (PublishRepl p t m ts) @ ?bs)" using arr by (simp add: repl_sent_def)
  note head = repl_head_arrived(1) [OF this assms(4,5,6,3), of c acl timeout] repl_head_arrived(2) [OF this assms(4,5,6,3)]
  have wf: "s_wfault (w_stream ?w) = None" using f by simp
  show ?thesis
  proof (cases "is_replicator acl \<and> subscribers \<noteq> []")
    case False
    then show ?thesis
      using head s wf by (auto simp: respond_replied io_bind_Inr repl_codes_def)
  next
    case True
    let ?w1 = "replied RESPONSE_OK_WAITING ?w" and ?i = "s_now (w_stream w)"
    let ?sv = "push_to_subscribers ext subscribers p t m ts (w_server w)"
    have "arrived ?w1 (repl_body p m ts @ rest)" using head(2) True by simp
    note body = repl_body_arrived(1-3) [OF this m(1), where to = timeout and i = ?i] repl_body_arrived(4) [OF this m(1)]
    have m2: "length m \<le> MAX_PUB_SIZE (sv_statics (w_server ?w1))" using m(2) by simp
    let ?w2 = "(consumed (13 + length m) ?w1)\<lparr>w_server := ?sv\<rparr>"
    have "control_step ext c acl timeout w = (Inr True, replied RESPONSE_OK ?w2)"
      using True head(1) s wf body [OF m2]
      by (simp add: respond_replied io_bind_Inr [unfolded One_nat_def] io_bind_Inr u64_round)
    then show ?thesis using True body(4) [OF m2] by (simp add: repl_codes_def arrived_server)
  qed
qed

section \<open>The client\<close>

lemma drop_next: "drop n xs = y # ys \<Longrightarrow> drop (Suc n) xs = ys"
  by (metis drop_Suc tl_drop list.sel(3))

lemma client_replicates:
  assumes arr: "all_arrived (ct_stream ct)" and p: "pending (ct_stream ct) = repl_codes acl subscribers @ later"
    and f: "s_wfault (ct_stream ct) = None"
  shows "\<exists>ct'. control_command_step bi timeout
      (at, \<lparr>control_command = PublishRepl pr t m ts, response_channel = Some n\<rparr>) ct = (Inr (), ct') \<and>
    s_out (ct_stream ct') = s_out (ct_stream ct) @ repl_sent acl subscribers pr t m ts \<and>
    ct_responses ct' = ct_responses ct @ [(n, repl_outcome acl)] \<and> pending (ct_stream ct') = later"
proof -
  let ?now = "max at (s_now (ct_stream ct))" and ?cmd = "PublishRepl pr t m ts"
  let ?ct = "ct\<lparr>ct_op_start := ?now,
    ct_stream := (ct_stream ct)\<lparr>s_now := ?now, s_out := s_out (ct_stream ct) @ as_bytes ?cmd\<rparr>\<rparr>"
  obtain code codes where c: "repl_codes acl subscribers = code # codes" by (cases "repl_codes acl subscribers") (auto simp: repl_codes_def split: if_splits)
  have arr': "all_arrived (ct_stream ?ct)" and p': "pending (ct_stream ?ct) = [code] @ codes @ later"
    using arr p c by (auto simp: all_arrived_def pending_def)
  let ?ct1 = "?ct\<lparr>ct_stream := (ct_stream ?ct)\<lparr>s_in := drop 1 (s_in (ct_stream ?ct))\<rparr>\<rparr>"
  have read: "ct_read 1 timeout ?ct = (Inr [code], ?ct1)"
    using read_prefix [OF arr' p', of 1] by (simp add: ct_read_def ct_io_def read_in_def)
  have pend: "pending (ct_stream ?ct1) = codes @ later"
    using p' by (simp add: pending_def flip: drop_map)
  show ?thesis
  proof (cases "is_replicator acl \<and> subscribers \<noteq> []")
    case False
    then have code: "codes = []" "code = RESPONSE_ERR_ACCESS \<and> \<not> is_replicator acl \<or> code = RESPONSE_NOT_REQUIRED \<and> is_replicator acl"
      using c by (auto simp: repl_codes_def split: if_splits)
    then show ?thesis
      using False read pend f
      by (auto simp: control_command_step_def io_bind_Inr ct_write_ok respond_def handle_err_def response_consts repl_sent_def
          repl_outcome_def io_bind_def)
  next
    case True
    then have code: "code = RESPONSE_OK_WAITING" "codes = [RESPONSE_OK]" using c by (auto simp: repl_codes_def)
    let ?ct2 = "?ct1\<lparr>ct_stream := (ct_stream ?ct1)\<lparr>s_out := s_out (ct_stream ?ct1) @ repl_body pr m ts\<rparr>\<rparr>"
    have arr2: "all_arrived (ct_stream ?ct2)" using arr' by (auto simp: all_arrived_def dest: in_set_dropD)
    have p2: "pending (ct_stream ?ct2) = RESPONSE_OK # later" using pend code by (simp add: pending_def)
    have step: "control_command_step bi timeout (at, \<lparr>control_command = ?cmd, response_channel = Some n\<rparr>) ct =
        process_reply timeout (Some n) ?ct2"
      using read code f
      by (simp add: control_command_step_def io_bind_Inr ct_write_ok repl_body_def response_consts)
    show ?thesis
      unfolding step process_reply_code [OF arr2 p2]
      using True p2
      by (simp add: settled_def reply_ok repl_sent_def repl_outcome_def)
        (simp add: pending_def drop_next flip: drop_map)
  qed
qed

section \<open>Properties\<close>

text \<open>
  C10: the two rounds of a replicated publication.  A node with the \<^verbatim>\<open>cluster\<close> feature and a client that
  replicates to it agree on every branch: to a client that is no replicator the server answers a denial
  and the caller gets an access error; without subscribers the server says so and the second round is not
  played; otherwise the server asks for the second round, reads priority, timestamp and message from
  exactly the bytes the client sends, queues the message with the timestamp of the other node and
  acknowledges it.  The client reads exactly the codes the server writes, and the server exactly the bytes
  the client writes.
\<close>

theorem replication_roundtrip:
  assumes "get_subscribers (ext_submap ext) t (sv_db (w_server w)) = subscribers"
    and "arrived w (repl_sent acl subscribers p t m ts @ rest)" and "ext_cluster ext" and "utf8_valid t"
    and "length t < 2 ^ 32" and "length t \<le> MAX_TOPIC_LENGTH (sv_statics (w_server w))"
    and "length m < 2 ^ 32" and "length m \<le> MAX_PUB_SIZE (sv_statics (w_server w))" and "s_wfault (w_stream w) = None"
    and "all_arrived (ct_stream ct)" and "pending (ct_stream ct) = repl_codes acl subscribers @ later"
    and "s_wfault (ct_stream ct) = None"
  shows "(\<exists>w'. control_step ext c acl timeout w = (Inr True, w') \<and> arrived w' rest \<and>
      s_out (w_stream w') = s_out (w_stream w) @ repl_codes acl subscribers \<and>
      w_server w' = (if is_replicator acl \<and> subscribers \<noteq> [] then push_to_subscribers ext subscribers p t m ts (w_server w)
        else w_server w)) \<and>
    (\<exists>ct'. control_command_step bi timeout' (at, \<lparr>control_command = PublishRepl p t m ts, response_channel = Some n\<rparr>) ct = (Inr (), ct') \<and>
      s_out (ct_stream ct') = s_out (ct_stream ct) @ repl_sent acl subscribers p t m ts \<and>
      ct_responses ct' = ct_responses ct @ [(n, repl_outcome acl)] \<and> pending (ct_stream ct') = later)"
  using server_replicates [OF assms(1-9)] client_replicates [OF assms(10-12)] by blast

definition sample_replicator :: Acl where
  "sample_replicator = sample_acl\<lparr>acl_replicator := True\<rparr>"

theorem replication_roundtrip_witness:
  "\<exists>w'. control_step sample_ext sample_client sample_replicator 5
      (sample_session (repl_sent sample_replicator [sample_client] 7 (lit ''a/b'') [1, 2] 9)) = (Inr True, w') \<and>
    s_out (w_stream w') = [RESPONSE_OK_WAITING, RESPONSE_OK] \<and>
    w_server w' = push_to_subscribers sample_ext [sample_client] 7 (lit ''a/b'') [1, 2] 9 sample_server"
proof -
  let ?bs = "repl_sent sample_replicator [sample_client] 7 (lit ''a/b'') [1, 2] 9"
  let ?w = "sample_session ?bs"
  let ?codes = "repl_codes sample_replicator [sample_client]"
  let ?ct = "\<lparr>ct_stream = SStream_new (map (Pair 0) ?codes) None 0 5, ct_op_start = 0, ct_responses = []\<rparr>"
  have r: "is_replicator sample_replicator" by (simp add: sample_replicator_def is_replicator_def)
  have t: "utf8_valid (lit ''a/b'')" by code_simp
  have "get_subscribers list_submap (lit ''a/b'') sample_db = [sample_client]" by code_simp
  then have s: "get_subscribers (ext_submap sample_ext) (lit ''a/b'') (sv_db (w_server ?w)) = [sample_client]"
    by (simp add: sample_session_def sample_ext_def sample_server_def)
  have a: "arrived ?w (?bs @ [])" using sample_session_arrived by simp
  have ct: "all_arrived (ct_stream ?ct)" "pending (ct_stream ?ct) = ?codes @ []" "s_wfault (ct_stream ?ct) = None"
    by (simp_all add: SStream_new_def all_arrived_def pending_def comp_def)
  have l: "length (lit ''a/b'') < 2 ^ 32" "length (lit ''a/b'') \<le> MAX_TOPIC_LENGTH (sv_statics (w_server ?w))"
    "length [1 :: u8, 2] < 2 ^ 32" "length [1 :: u8, 2] \<le> MAX_PUB_SIZE (sv_statics (w_server ?w))"
    "s_wfault (w_stream ?w) = None" "ext_cluster sample_ext" "s_out (w_stream ?w) = []" "w_server ?w = sample_server"
    by (simp_all add: lit_def sample_session_def sample_server_def sample_ext_def SStream_new_def)
  show ?thesis
    using replication_roundtrip [OF s a l(6) t l(1-5) ct, of sample_client 5 1 5 0 1] r l(7,8) by (auto simp: repl_codes_def)
qed

end
