(* ===== verification/Udp_Examples.thy ===== *)
theory Udp_Examples
  imports Server_Udp
begin

text \<open>
  The programs that publish over UDP, \<^verbatim>\<open>src/examples/udp_client.rs\<close>, which uses \<^verbatim>\<open>UdpClient\<close>, and
  \<^verbatim>\<open>src/examples/udp_aes.rs\<close>, which builds a sealed packet on its own.  The network, the random
  generators, the \<^verbatim>\<open>hex\<close> crate and the ciphers are parameters; a program returns with what it has sent.
\<close>

section \<open>The client program\<close>

definition example_key :: str where
  "example_key = lit ''26fd38045707792a9bc50f3761a58987c4a9362cf60389f341c28e37b1125d93''"

text \<open>How \<^verbatim>\<open>main\<close> fails: with the error of a call, with an elapsed timeout, or with a panic.\<close>

datatype main_failure = Main_Error Error | Main_Elapsed | Main_Panic str

text \<open>
  The network of the program: for each of its two clients the outcomes of opening the socket and the
  datagrams that arrive there, and the nonces of the second client, without and with confirmation.
\<close>

record udp_net =
  nt_bind :: "nat \<Rightarrow> io_error + unit"
  nt_connect :: "nat \<Rightarrow> io_error + unit"
  nt_send :: "bytes \<Rightarrow> io_error + unit"
  nt_peer :: str
  nt_received :: "nat \<Rightarrow> (io_error + str \<times> bytes) list"
  nt_draw :: "bool \<Rightarrow> str + bytes"

text \<open>One call of the client, with the datagrams sent so far: \<open>None\<close> when it waits for ever.\<close>

definition example_publish ::
  "seal \<Rightarrow> udp_net \<Rightarrow> nat \<Rightarrow> UdpClient \<Rightarrow> str \<Rightarrow> bytes \<Rightarrow> bool \<Rightarrow> (bytes list, main_failure, unit result option) io" where
  "example_publish encrypt_aead net n c topic message ack sent =
     (Inr (publish_impl encrypt_aead (nt_draw net ack) (nt_send net) (nt_peer net) (nt_received net n) c topic message ack),
      case udp_packet encrypt_aead (nt_draw net ack) c topic message ack of
        Inl e \<Rightarrow> sent
      | Inr packet \<Rightarrow> if nt_send net packet = Inr () then sent @ [packet] else sent)"

text \<open>
  \<^verbatim>\<open>.await?\<close>, \<^verbatim>\<open>.await.unwrap()\<close>, and a call that does not return within its timeout, which only a
  confirmed publication may do.
\<close>

definition question :: "'a result \<Rightarrow> main_failure + 'a" where
  "question r = map_err Main_Error r"

definition panicking :: "'e + 'a \<Rightarrow> main_failure + 'a" where
  "panicking r = map_err (\<lambda>_. Main_Panic (lit ''called Result::unwrap() on an Err value'')) r"

definition example_call ::
  "seal \<Rightarrow> udp_net \<Rightarrow> nat \<Rightarrow> UdpClient \<Rightarrow> str \<Rightarrow> bool \<Rightarrow> (unit result \<Rightarrow> main_failure + unit) \<Rightarrow> (bytes list, main_failure, unit) io" where
  "example_call encrypt_aead net n c message ack f =
     io_bind (example_publish encrypt_aead net n c (lit ''mytopic'') message ack) (\<lambda>r.
     io_lift (case r of None \<Rightarrow> Inl Main_Elapsed | Some r \<Rightarrow> f r))"

definition udp_client_main :: "seal \<Rightarrow> (str \<Rightarrow> str + bytes) \<Rightarrow> udp_net \<Rightarrow> (bytes list, main_failure, unit) io" where
  "udp_client_main encrypt_aead hex_decode net =
     io_bind (io_lift (question (UdpClient_connect (nt_bind net 0) (nt_connect net 0)))) (\<lambda>c.
     let client = with_auth (lit ''user1'') (lit ''xxx'') c in
     io_bind (example_call encrypt_aead net 0 client (lit ''hello'') False question) (\<lambda>_.
     io_bind (example_call encrypt_aead net 0 client (lit ''hello confirmed'') True question) (\<lambda>_.
     io_bind (io_lift (panicking (hex_decode example_key))) (\<lambda>key.
     io_bind (io_lift (panicking (UdpClient_connect (nt_bind net 1) (nt_connect net 1)))) (\<lambda>c.
     let client = with_encryption_auth (lit ''user1'') key c in
     io_bind (example_call encrypt_aead net 1 client (lit ''hello secure'') False panicking) (\<lambda>_.
     example_call encrypt_aead net 1 client (lit ''hello secure confirmed'') True question))))))"

section \<open>The program with its own packet\<close>

text \<open>
  The \<^verbatim>\<open>aes_gcm\<close> crate appends the tag to the encrypted data, and its \<^verbatim>\<open>Key::from_slice\<close> panics on a
  slice of another length.  \<open>rng\<close> gives the samples of the generator.
\<close>

definition udp_aes_packet ::
  "(str \<Rightarrow> str + bytes) \<Rightarrow> (bytes \<Rightarrow> bytes \<Rightarrow> bytes \<Rightarrow> 'e + bytes) \<Rightarrow> (nat \<Rightarrow> u8) \<Rightarrow> bytes outcome" where
  "udp_aes_packet hex_decode encrypt rng =
     unwrap (hex_decode example_key) (\<lambda>aes_key.
     let aes_nonce = map rng [0..<12] in
     if length aes_key \<noteq> 32 then Panics (lit ''assertion failed: invalid key length'')
     else
       let packet = CONTROL_HEADER @ u16_to_le_bytes PROTOCOL_VERSION @ [AUTH_KEY_AES256_GCM] @ lit ''user1'' @ [0];
           data = [OP_PUBLISH_NO_ACK, DEFAULT_PRIORITY] @ lit ''mytopic'' @ [0] @ lit ''hello''
       in expect (lit ''encryption failure!'') (encrypt aes_key aes_nonce data) (\<lambda>enc_block.
          Returns (packet @ aes_nonce @ enc_block)))"

definition udp_aes_main ::
  "(str \<Rightarrow> str + bytes) \<Rightarrow> (bytes \<Rightarrow> bytes \<Rightarrow> bytes \<Rightarrow> 'e + bytes) \<Rightarrow> (nat \<Rightarrow> u8) \<Rightarrow> io_error + unit \<Rightarrow> (bytes \<Rightarrow> io_error + unit) \<Rightarrow>
     bytes outcome" where
  "udp_aes_main hex_decode encrypt rng bind send =
     unwrap bind (\<lambda>_.
     out_bind (udp_aes_packet hex_decode encrypt rng) (\<lambda>packet.
     unwrap (send packet) (\<lambda>_. Returns packet)))"

section \<open>Lemmas\<close>

lemma publish_impl_sent:
  assumes "publish_impl seal draw send peer received c topic message ack = Some (Inr ())"
  obtains packet where "udp_packet seal draw c topic message ack = Inr packet" and "send packet = Inr ()"
proof -
  obtain packet where u: "udp_packet seal draw c topic message ack = Inr packet"
    using assms by (cases "udp_packet seal draw c topic message ack") (auto simp: publish_impl_def)
  then have "send packet = Inr ()"
    using assms by (cases "send packet") (auto simp: publish_impl_def)
  with u show thesis by (rule that)
qed

text \<open>A call that succeeds has sent its packet.\<close>

lemma example_call_sent:
  assumes "example_call seal net n c message ack f sent = (Inr (), sent')"
    and "\<And>r. f r = Inr () \<Longrightarrow> r = Inr ()"
  obtains packet where "udp_packet seal (nt_draw net ack) c (lit ''mytopic'') message ack = Inr packet"
    and "sent' = sent @ [packet]"
proof -
  have p: "publish_impl seal (nt_draw net ack) (nt_send net) (nt_peer net) (nt_received net n) c (lit ''mytopic'')
      message ack = Some (Inr ())"
    using assms by (auto simp: example_call_def example_publish_def io_bind_def split: option.splits)
  obtain packet where "udp_packet seal (nt_draw net ack) c (lit ''mytopic'') message ack = Inr packet"
      and "nt_send net packet = Inr ()"
    by (rule publish_impl_sent [OF p])
  with assms(1) show thesis
    by (intro that [of packet]) (auto simp: example_call_def example_publish_def io_bind_def)
qed

lemma question_unit: "question r = Inr () \<Longrightarrow> r = Inr ()"
  by (cases r) (auto simp: question_def)

lemma panicking_unit: "panicking r = Inr () \<Longrightarrow> r = Inr ()"
  by (cases r) (auto simp: panicking_def)

text \<open>The four datagrams that the program has sent when it ends well.\<close>

lemma udp_client_main_sent:
  assumes "udp_client_main seal hex_decode net [] = (Inr (), sent)" and "hex_decode example_key = Inr key"
  obtains p1 p2 p3 p4 where "sent = [p1, p2, p3, p4]"
    and "udp_packet seal (nt_draw net False) (with_auth (lit ''user1'') (lit ''xxx'') UdpClient_new)
           (lit ''mytopic'') (lit ''hello'') False = Inr p1"
    and "udp_packet seal (nt_draw net True) (with_auth (lit ''user1'') (lit ''xxx'') UdpClient_new)
           (lit ''mytopic'') (lit ''hello confirmed'') True = Inr p2"
    and "udp_packet seal (nt_draw net False) (with_encryption_auth (lit ''user1'') key UdpClient_new)
           (lit ''mytopic'') (lit ''hello secure'') False = Inr p3"
    and "udp_packet seal (nt_draw net True) (with_encryption_auth (lit ''user1'') key UdpClient_new)
           (lit ''mytopic'') (lit ''hello secure confirmed'') True = Inr p4"
proof -
  have new: "c = UdpClient_new" if "UdpClient_connect b d = Inr c" for b d c
    using that by (auto simp: UdpClient_connect_def res_bind_Inr_iff)
  from assms(1) show thesis
    unfolding udp_client_main_def Let_def
    apply (elim io_bind_Inr_cases)
    apply (simp add: assms(2))
    apply (elim example_call_sent)
    using that new
    by (auto simp: question_def panicking_def)
qed

text \<open>The two crates implement the same cipher.\<close>

definition aes_gcm_agrees :: "(bytes \<Rightarrow> bytes \<Rightarrow> bytes \<Rightarrow> 'e + bytes) \<Rightarrow> seal \<Rightarrow> bool" where
  "aes_gcm_agrees encrypt seal \<longleftrightarrow> (\<forall>k n d block. encrypt k n d = Inr block \<longrightarrow>
     (\<exists>enc tag. seal aes_256_gcm k n [] d = Inr (enc, tag) \<and> block = enc @ tag))"

text \<open>The packet that \<^verbatim>\<open>udp_aes\<close> builds is the one that \<^verbatim>\<open>UdpClient\<close> makes with the key and the nonce.\<close>

lemma udp_aes_packet_agrees:
  assumes "udp_aes_packet hex_decode encrypt rng = Returns packet" and "hex_decode example_key = Inr key"
    and "aes_gcm_agrees encrypt seal"
  shows "udp_packet seal (Inr (map rng [0..<12])) (with_encryption_auth (lit ''user1'') key UdpClient_new)
      (lit ''mytopic'') (lit ''hello'') False = Inr packet"
proof -
  let ?d = "udp_message OP_PUBLISH_NO_ACK (lit ''mytopic'') (lit ''hello'')"
  obtain block where "encrypt key (map rng [0..<12]) ?d = Inr block"
    and p: "packet = (CONTROL_HEADER @ u16_to_le_bytes PROTOCOL_VERSION @ [AUTH_KEY_AES256_GCM] @ lit ''user1'' @ [0]) @
        map rng [0..<12] @ block"
    using assms(1,2) by (auto simp: udp_aes_packet_def outcome_simps Let_def udp_message_def split: if_splits)
  then obtain enc tag where "seal aes_256_gcm key (map rng [0..<12]) [] ?d = Inr (enc, tag)" and "block = enc @ tag"
    using assms(3) unfolding aes_gcm_agrees_def by blast
  then show ?thesis by (simp add: p udp_packet_def with_encryption_auth_def Let_def)
qed

text \<open>
  What the programs send is understood: on a server that holds the key of \<^verbatim>\<open>user1\<close>, each of the four
  datagrams of \<^verbatim>\<open>udp_client\<close>, and the one of \<^verbatim>\<open>udp_aes\<close>, comes to the publication it stands for.
\<close>

lemma example_names:
  "0 \<notin> set (lit ''user1'')" "utf8_valid (lit ''user1'')" "0 \<notin> set (lit ''xxx'')" "utf8_valid (lit ''xxx'')"
  "0 \<notin> set (lit ''mytopic'')" "utf8_valid (lit ''mytopic'')" "lit ''mytopic'' \<noteq> []" "lit ''user1'' \<noteq> []"
  by code_simp+

lemma udp_client_understood:
  assumes "aead_scheme seal (ext_aead ext)" and "hex_decode example_key = Inr key"
    and "\<And>ack nonce. nt_draw net ack = Inr nonce \<Longrightarrow> length nonce = 12"
    and "Option.bind (key_map (sv_keys sv)) (\<lambda>m. m (lit ''user1'')) = Some k" and "cipher_aes_256 k = key"
    and "udp_client_main seal hex_decode net [] = (Inr (), sent)"
  shows "map (\<lambda>p. process_udp_packet ext timestamp p sv) sent =
    map (\<lambda>(password, ack, message).
        Returns (udp_outcome ext (lit ''user1'') password ack (lit ''mytopic'') (lit message) timestamp sv))
      [(Some (lit ''xxx''), False, ''hello''), (Some (lit ''xxx''), True, ''hello confirmed''),
       (None, False, ''hello secure''), (None, True, ''hello secure confirmed'')]"
proof -
  have key: "Option.bind (key_map (sv_keys sv)) (\<lambda>m. m (if lit ''user1'' = [] then lit ''_'' else lit ''user1'')) = Some k"
    using assms(4) example_names(8) by simp
  have sealed: "process_udp_packet ext timestamp p sv =
      Returns (udp_outcome ext (lit ''user1'') None ack (lit ''mytopic'') message timestamp sv)"
    if pkt: "udp_packet seal (nt_draw net ack) (with_encryption_auth (lit ''user1'') key UdpClient_new) (lit ''mytopic'') message ack = Inr p"
    for p ack message
  proof -
    obtain nonce where n: "nt_draw net ack = Inr nonce"
      using pkt by (cases "nt_draw net ack") (auto simp: udp_packet_def with_encryption_auth_def Let_def)
    show ?thesis
      by (rule udp_sealed_packet [OF assms(1) pkt [unfolded n] assms(3) [OF n] key assms(5) example_names(1,2,5,6,7)])
  qed
  note plain = udp_plain_packet [OF _ example_names(1-7)]
  show ?thesis
    by (rule udp_client_main_sent [OF assms(6,2)]) (simp add: plain sealed)
qed

lemma udp_aes_understood:
  assumes "aead_scheme seal (ext_aead ext)" and "hex_decode example_key = Inr key"
    and "aes_gcm_agrees encrypt seal"
    and "Option.bind (key_map (sv_keys sv)) (\<lambda>m. m (lit ''user1'')) = Some k" and "cipher_aes_256 k = key"
    and "udp_aes_main hex_decode encrypt rng bind send = Returns packet"
  shows "process_udp_packet ext timestamp packet sv =
    Returns (udp_outcome ext (lit ''user1'') None False (lit ''mytopic'') (lit ''hello'') timestamp sv)"
proof -
  have "udp_aes_packet hex_decode encrypt rng = Returns packet"
    using assms(6) by (auto simp: udp_aes_main_def outcome_simps)
  from udp_aes_packet_agrees [OF this assms(2,3)]
  have p: "udp_packet seal (Inr (map rng [0..<12])) (with_encryption_auth (lit ''user1'') key UdpClient_new)
      (lit ''mytopic'') (lit ''hello'') False = Inr packet" by blast
  have key: "Option.bind (key_map (sv_keys sv)) (\<lambda>m. m (if lit ''user1'' = [] then lit ''_'' else lit ''user1'')) = Some k"
    using assms(4) example_names(8) by simp
  show ?thesis
    by (rule udp_sealed_packet [OF assms(1) p _ key assms(5) example_names(1,2,5,6,7)]) simp
qed

end
