(* ===== verification/Server_Types.thy ===== *)
theory Server_Types
  imports Server_Udp
begin

text \<open>
  The type of the queues: everything that waits in a queue is a beacon or the frame of a publication
  whose topic is valid UTF-8.  The actions of \<open>server_step\<close> preserve it, the UDP listener acts by
  these actions too, and a writer that receives such messages does not panic, whatever its stream
  does.
\<close>

section \<open>Preservation\<close>

definition typed_store :: "('ch \<Rightarrow> MessageFrame list) \<Rightarrow> 'ch store \<Rightarrow> bool" where
  "typed_store queued st \<longleftrightarrow> (\<forall>dc. list_all queued_message (queued (st_chans st dc)))"

lemma typed_store_same: "st_chans st' = st_chans st \<Longrightarrow> typed_store queued st' = typed_store queued st"
  by (simp add: typed_store_def)

lemma typed_store_upd:
  "typed_store queued st \<Longrightarrow> list_all queued_message (queued q) \<Longrightarrow>
     typed_store queued (st\<lparr>st_chans := (st_chans st)(dc := q)\<rparr>)"
  by (simp add: typed_store_def)

text \<open>Most actions leave the queues alone.\<close>

lemma chans_same:
  "st_chans (abort_tasks c st) = st_chans st" "st_chans (unregister_data_channel token db st) = st_chans st"
  "st_chans (register_task c n st) = st_chans st"
  "st_chans (snd (register_data_channel token tx db st)) = st_chans st"
  "st_chans (sv_store (spawn_for c task sv)) = st_chans (sv_store sv)"
  "st_chans (sv_store (end_session ext c sv)) = st_chans (sv_store sv)"
  by (simp_all add: abort_tasks_def unregister_data_channel_def register_task_def register_data_channel_def
      spawn_for_def spawn_def end_session_def Let_def split: option.split)

lemma register_session_chans:
  "register_session ext login addr sv = Some (r, sv') \<Longrightarrow> st_chans (sv_store sv') = st_chans (sv_store sv)"
  by (auto simp: register_session_def Let_def split: option.splits)

context server_env
begin

lemma send_typed:
  assumes "list_all queued_message (queued q)" and "queued_message m" and "\<not> ch_is_full (ext_chan ext) q"
  shows "list_all queued_message (queued (snd (ch_send (ext_chan ext) m q)))"
  using assms ch.send_open [of q m] ch.send_closed [of q m] by (cases "closed q") auto

lemma push_one_typed:
  assumes "typed_store queued st" and "queued_message m"
  shows "typed_store queued (push_one ext db m s st)"
proof (cases "\<exists>dc. get_data_channel s st = Some dc \<and> \<not> ch_is_full (ext_chan ext) (st_chans st dc)")
  case True
  then obtain dc where dc: "get_data_channel s st = Some dc" "\<not> ch_is_full (ext_chan ext) (st_chans st dc)" by blast
  have "list_all queued_message (queued (snd (ch_send (ext_chan ext) m (st_chans st dc))))"
    using send_typed [OF _ assms(2) dc(2)] assms(1) by (simp add: typed_store_def)
  then show ?thesis using typed_store_upd [OF assms(1)] dc by (simp add: push_one_def)
next
  case False
  then show ?thesis
    using assms(1) by (auto simp: push_one_def typed_store_def chans_same split: option.splits)
qed

lemma step_typed:
  assumes "server_step ext sv sv'" and "typed_store queued (sv_store sv)"
  shows "typed_store queued (sv_store sv')"
  using assms
proof (induction rule: server_step.induct)
  case (act_register login addr sv r sv')
  then show ?case using register_session_chans typed_store_same by blast
next
  case (act_push m sv s)
  then show ?case by (simp add: push_one_typed)
next
  case (act_attach sv token)
  have "typed_store queued (sv_store (snd (new_channel ext sv)))"
    using act_attach.prems by (simp add: new_channel_def typed_store_def Let_def ch.bounded_new)
  then show ?case by (simp add: attach_def typed_store_def chans_same split: prod.split) (metis chans_same(4) snd_conv)
next
  case (act_beacon sv dc)
  have "list_all queued_message (queued (snd (ch_send (ext_chan ext) empty_message (st_chans (sv_store sv) dc))))"
    using act_beacon by (intro send_typed) (auto simp: typed_store_def queued_message_def)
  then show ?case
    using typed_store_upd [OF act_beacon.prems] by (auto simp: pinger_step_def split: prod.split)
next
  case (act_receive sv dc m q)
  have "list_all queued_message (queued q)"
    using act_receive.prems ch.recv_Some [OF act_receive.hyps] by (auto simp: typed_store_def dest!: spec [of _ dc])
  then show ?case
    using typed_store_upd [OF act_receive.prems] act_receive.hyps by (simp add: recv_message_def)
qed (simp_all add: typed_store_def chans_same count_def)

lemma reachable_typed: "server_reachable ext sv \<Longrightarrow> typed_store queued (sv_store sv)"
proof (induction rule: server_reachable.induct)
  case (start sv)
  then show ?case by (auto simp: server_start_def typed_store_def ch.bounded_new)
qed (rule step_typed)

lemma received_typed:
  assumes "server_reachable ext sv" and "ch_recv (ext_chan ext) (st_chans (sv_store sv) dc) = (Some m, q)"
  shows "queued_message m"
  using reachable_typed [OF assms(1)] ch.recv_Some [OF assms(2)]
  by (auto simp: typed_store_def dest!: spec [of _ dc])

end

section \<open>Progress\<close>

lemma eof_is_ok_no_panic:
  "(\<And>wr. fst (k wr) \<noteq> Panic e) \<Longrightarrow> fst (eof_is_ok f k wr) \<noteq> Panic e"
  by (auto simp: eof_is_ok_def split: prod.split sum.split)

lemma data_step_no_panic:
  assumes "queued_message (rc_message rc)"
  shows "fst (data_step timeout bi lw rc wr) \<noteq> Panic e"
proof (cases "rc_message rc = empty_message")
  case True
  then show ?thesis
    by (auto simp: data_step_def empty_message_def Let_def intro!: eof_is_ok_no_panic)
next
  case False
  with assms obtain p t d ts
    where m: "rc_message rc = \<lparr>mf_timestamp = Some ts, mf_frame = message_frame p t d, mf_data = Some d\<rparr>"
    by (auto simp: queued_message_def)
  obtain f where f: "message_frame p t d = RESPONSE_OK # f" by (simp add: message_frame_def)
  have a: "fst (account lw rc (\<lambda>wr. (Continue, wr\<lparr>wr_last_command := s_now (wr_stream wr)\<rparr>)) wr) \<noteq> Panic e" for wr
    using account_no_panic [OF assms False, of lw "\<lambda>wr. (Continue, wr\<lparr>wr_last_command := s_now (wr_stream wr)\<rparr>)" wr]
    by auto
  show ?thesis
    using m f a by (auto simp: data_step_def Let_def op_consts response_consts intro!: eof_is_ok_no_panic)
qed

lemma writer_no_panic:
  assumes "\<And>rc. rc \<in> set rcs \<Longrightarrow> queued_message (rc_message rc)"
  shows "fst (handle_data_stream timeout bi lw rcs wr) \<noteq> Panic e"
  using assms
proof (induction rcs arbitrary: wr)
  case (Cons rc rcs)
  then show ?case
    using data_step_no_panic [of rc timeout bi lw wr e] by (auto split: prod.split flow.split)
qed simp

section \<open>The UDP listener\<close>

lemma udp_publish_acts:
  assumes "prepare_topic d t = Inr topic" and "utf8_valid t"
  shows "io_keeps (acts ext) (io_bind (io_modify (publish ext p topic data ts)) (\<lambda>_. io_return ack))"
  using prepare_topic_utf8 [OF assms] by (auto simp: io_keeps_def acts_publish)

lemma udp_block_acts: "acts ext sv (snd (process_udp_block ext login password block ts sv))"
proof -
  let ?R = "acts ext"
  have R: "reflp ?R" "transp ?R" by (auto simp: reflp_def transp_def)
  have "io_keeps ?R (process_udp_block ext login password block ts)"
    unfolding process_udp_block_def Let_def
    by (auto intro!: io_keeps_bind_lift [OF R(1)] io_keeps_bind_get io_keeps_pure [OF R(1)]
        simp: udp_err_def split: option.split)
      (erule udp_publish_acts, assumption)
  then show ?thesis by (rule io_keepsD)
qed

lemma udp_listener_acts:
  "udp_listener_step ext n ts datagram sv = Returns (a, sv') \<Longrightarrow> acts ext sv sv'"
  using udp_block_acts [of ext sv]
  by (auto simp: udp_listener_step_def process_udp_packet_def split: outcome.splits sum.splits prod.splits)
    (metis snd_conv)+

section \<open>Properties\<close>

text \<open>
  C6: well-typed queues do not go wrong.  In every reachable server each queue holds only beacons and
  publications under a topic in valid UTF-8; a datagram takes a reachable server to a reachable
  server; and a writer whose messages were received from queues of reachable servers never panics,
  also when its stream fails and however high the latencies are.
\<close>

theorem queues_well_typed:
  assumes "submap_laws (ext_submap ext) clients subs invar" and "bounded_channel (ext_chan ext) queued capacity closed"
  shows "(server_reachable ext sv \<longrightarrow> (\<forall>dc. list_all queued_message (queued (st_chans (sv_store sv) dc)))) \<and>
    (server_reachable ext sv \<longrightarrow> udp_listener_step ext n ts datagram sv = Returns (a, sv') \<longrightarrow> server_reachable ext sv') \<and>
    ((\<forall>rc \<in> set rcs. \<exists>sv dc q. server_reachable ext sv \<and>
        ch_recv (ext_chan ext) (st_chans (sv_store sv) dc) = (Some (rc_message rc), q)) \<longrightarrow>
      (\<forall>e. fst (handle_data_stream timeout beacon_interval latency_warn rcs wr) \<noteq> Panic e))"
proof -
  note env = server_env.intro [OF assms]
  have 1: "\<forall>dc. list_all queued_message (queued (st_chans (sv_store sv) dc))" if "server_reachable ext sv"
    using server_env.reachable_typed [OF env that] by (simp add: typed_store_def)
  have 2: "server_reachable ext sv'"
    if "server_reachable ext sv" and "udp_listener_step ext n ts datagram sv = Returns (a, sv')"
    using acts_reachable [OF udp_listener_acts [OF that(2)] that(1)] .
  have 3: "fst (handle_data_stream timeout beacon_interval latency_warn rcs wr) \<noteq> Panic e"
    if "\<forall>rc \<in> set rcs. \<exists>sv dc q. server_reachable ext sv \<and>
        ch_recv (ext_chan ext) (st_chans (sv_store sv) dc) = (Some (rc_message rc), q)" for e
    by (rule writer_no_panic) (use that server_env.received_typed [OF env] in blast)
  show ?thesis using 1 2 3 by blast
qed

text \<open>A publication waits in the queue of the sample client, with a latency above the limit.\<close>

theorem queues_well_typed_witness:
  "\<forall>e. fst (handle_data_stream 5 1 0 [\<lparr>rc_message = \<lparr>mf_timestamp = Some 0, mf_frame = message_frame 7 (lit ''a/b'') [1],
      mf_data = Some [1]\<rparr>, rc_at = 0, rc_now_ns = 9000\<rparr>]
     \<lparr>wr_stream = SStream_new [] None 0 5, wr_counters = Counters_default, wr_last_command = 0\<rparr>) \<noteq> Panic e"
proof -
  let ?m = "\<lparr>mf_timestamp = Some 0, mf_frame = message_frame 7 (lit ''a/b'') [1], mf_data = Some [1]\<rparr>"
  let ?sv = "sample_server\<lparr>sv_store := push_one sample_ext (sv_db sample_server) ?m sample_client (sv_store sample_server)\<rparr>"
  have "utf8_valid (lit ''a/b'')" by code_simp
  then have "queued_message ?m" by (auto simp: queued_message_def)
  then have r: "server_reachable sample_ext ?sv" using sample_reachable by (blast intro: server_reachable.step act_push)
  have "\<exists>q. ch_recv (ext_chan sample_ext) (st_chans (sv_store ?sv) 1) = (Some ?m, q)"
    by (simp add: push_one_def get_data_channel_def sample_server_def sample_store_def sample_client_def new_client_def
        sample_queue_def fifo_ops_def sample_ext_def)
  then have h: "\<forall>rc \<in> set [\<lparr>rc_message = ?m, rc_at = 0, rc_now_ns = 9000\<rparr>]. \<exists>sv dc q. server_reachable sample_ext sv \<and>
      ch_recv (ext_chan sample_ext) (st_chans (sv_store sv) dc) = (Some (rc_message rc), q)"
    using r by fastforce
  show ?thesis using queues_well_typed [OF sample_submap sample_channel] h by blast
qed

end
