(* ===== verification/Server_Http.thy ===== *)
theory Server_Http
  imports Server_Udp
begin

text \<open>
  The statistics of the server: \<^verbatim>\<open>get_status\<close> and the HTTP handler of \<^verbatim>\<open>mod stats\<close> in
  \<^verbatim>\<open>src/src/server.rs\<close>, and the calls that the EVA ICS bus makes, \<^verbatim>\<open>src/src/eva_svc.rs\<close>.  The \<^verbatim>\<open>http\<close>
  and \<^verbatim>\<open>base64\<close> crates, the JSON and bus encoders and the files included at compile time are
  parameters.
\<close>

section \<open>Status\<close>

record 'cl ServerStatus =
  ss_time :: u64
  ss_uptime :: nat
  ss_data_queue_size :: nat
  ss_host :: str
  ss_version :: str
  ss_counters :: Counters
  ss_clients :: ServerClientDBStats
  ss_cluster :: "'cl option"

text \<open>
  What the statistics need besides the server: the time the server was started, its host name, the
  version, the state of the cluster, the encoders and the included files.
\<close>

record 'cl Http =
  h_started :: instant
  h_host :: str
  h_version :: str
  h_cluster :: "'cl option"
  h_to_str :: "bytes \<Rightarrow> str option"
  h_base64 :: "str \<Rightarrow> str + bytes"
  h_json :: "'cl ServerStatus \<Rightarrow> bytes"
  h_html_stats :: bytes
  h_js_chart :: bytes

definition get_status :: "('m, 'ch) Ext \<Rightarrow> 'cl Http \<Rightarrow> instant \<Rightarrow> ('m, 'ch) Server \<Rightarrow> 'cl ServerStatus" where
  "get_status ext h now sv =
     \<lparr>ss_time = ext_now_ns ext now div 1000, ss_uptime = (now - h_started h) div 1000000000,
      ss_data_queue_size = DATA_QUEUE_SIZE (sv_statics sv), ss_host = h_host h, ss_version = h_version h,
      ss_counters = sv_counters sv, ss_clients = get_stats (ext_submap ext) (sv_db sv),
      ss_cluster = (if ext_cluster ext then h_cluster h else None)\<rparr>"

section \<open>The HTTP handler\<close>

record http_request =
  rq_method :: str
  rq_path :: str
  rq_authorization :: "bytes option"

record http_response =
  rs_status :: nat
  rs_headers :: "(str \<times> str) list"
  rs_body :: bytes

definition http_error :: "nat \<Rightarrow> http_response" where
  "http_error status = \<lparr>rs_status = status, rs_headers = [], rs_body = []\<rparr>"

definition response :: "nat \<Rightarrow> str \<Rightarrow> http_response" where
  "response code content = \<lparr>rs_status = code, rs_headers = [], rs_body = content\<rparr>"

text \<open>\<^verbatim>\<open>to_lowercase\<close> on the scheme, which \<^verbatim>\<open>HeaderValue::to_str\<close> only yields in ASCII.\<close>

definition to_lowercase :: "str \<Rightarrow> str" where
  "to_lowercase s = map (\<lambda>b. if 65 \<le> b \<and> b \<le> 90 then b + 32 else b) s"

text \<open>The credentials of a request, or the response that refuses it.\<close>

definition credentials :: "'cl Http \<Rightarrow> bytes option \<Rightarrow> http_response + (str \<times> str) option" where
  "credentials h header =
     (case header of
        None \<Rightarrow> Inr None
      | Some authorization \<Rightarrow>
          (case h_to_str h authorization of
             None \<Rightarrow> Inl (response 400 (lit ''Unable to decode authorization header''))
           | Some auth \<Rightarrow>
               (case splitn2 (of_char CHR '' '') auth of
                  [scheme, params] \<Rightarrow>
                    if to_lowercase scheme = lit ''basic'' then
                      (case h_base64 h params of
                         Inl e \<Rightarrow> Inl (response 400 (lit ''Unable to decode credentials: '' @ e))
                       | Inr v \<Rightarrow>
                           (case from_utf8 v of
                              Inl e \<Rightarrow> Inl (response 400 (lit ''Unable to parse credentials string: '' @ Utf8Error_fmt e))
                            | Inr s \<Rightarrow>
                                (case splitn2 (of_char CHR '':'') s of
                                   [username, password] \<Rightarrow> Inr (Some (username, password))
                                 | _ \<Rightarrow> Inl (response 400 (lit ''Basic authorization error: password not specified'')))))
                    else Inr None
                | _ \<Rightarrow> Inl (response 400 (lit ''Invalid authorization header'')))))"

text \<open>Whether the credentials, or nobody's, are those of an administrator.\<close>

definition admin_login :: "('m, 'ch) Server \<Rightarrow> str \<Rightarrow> bool" where
  "admin_login sv login = (case get_acl sv login of Some acl \<Rightarrow> is_admin acl | None \<Rightarrow> False)"

definition authorized :: "('m, 'ch) Ext \<Rightarrow> ('m, 'ch) Server \<Rightarrow> (str \<times> str) option \<Rightarrow> bool" where
  "authorized ext sv creds =
     (case creds of
        Some (login, password) \<Rightarrow> authenticate ext sv login password \<and> admin_login sv login
      | None \<Rightarrow> admin_login sv (lit ''_''))"

definition http_page :: "('m, 'ch) Ext \<Rightarrow> 'cl Http \<Rightarrow> instant \<Rightarrow> ('m, 'ch) Server \<Rightarrow> str \<Rightarrow> http_response" where
  "http_page ext h now sv path =
     (let ok = (\<lambda>tp body. \<lparr>rs_status = 200, rs_headers = [(lit ''content-type'', tp)], rs_body = body\<rparr>) in
      if path = lit ''/status'' then ok (lit ''application/json'') (h_json h (get_status ext h now sv))
      else if path = lit ''/chart.min.js'' then ok (lit ''application/javascript; charset=utf-8'') (h_js_chart h)
      else if path = lit ''/'' then ok (lit ''text/html; charset=utf-8'') (h_html_stats h)
      else http_error 404)"

definition http_handler ::
  "('m, 'ch) Ext \<Rightarrow> 'cl Http \<Rightarrow> instant \<Rightarrow> ('m, 'ch) Server \<Rightarrow> http_request \<Rightarrow> http_response" where
  "http_handler ext h now sv rq =
     (if rq_method rq = lit ''GET'' then
        (case credentials h (rq_authorization rq) of
           Inl r \<Rightarrow> r
         | Inr creds \<Rightarrow>
             if \<not> authorized ext sv creds then
               \<lparr>rs_status = 401, rs_headers = [(lit ''www-authenticate'', lit ''Basic realm=\"?\"'')], rs_body = []\<rparr>
             else http_page ext h now sv (rq_path rq))
      else http_error 405)"

section \<open>Calls on the EVA ICS bus\<close>

text \<open>The parameters: packing, the error for unexpected parameters, and the SDK's default handler.\<close>

record ('cl, 'e) Bus =
  bus_pack_counters :: "Counters \<Rightarrow> 'e + bytes"
  bus_pack_clients :: "ServerClientDBStats \<Rightarrow> 'e + bytes"
  bus_pack_cluster :: "'cl option \<Rightarrow> 'e + bytes"
  bus_params_error :: 'e
  bus_default :: "str \<Rightarrow> 'e + bytes option"

definition handle_call ::
  "('m, 'ch) Ext \<Rightarrow> ('cl, 'e) Bus \<Rightarrow> 'cl option \<Rightarrow> ('m, 'ch) Server \<Rightarrow> 'e + str \<Rightarrow> bytes \<Rightarrow> 'e + bytes option" where
  "handle_call ext bus cluster sv parsed payload =
     res_bind parsed (\<lambda>method.
     let packed = (\<lambda>r. if payload = [] then res_bind r (\<lambda>b. Inr (Some b)) else Inl (bus_params_error bus)) in
     if method = lit ''stats.counters'' then packed (bus_pack_counters bus (sv_counters sv))
     else if method = lit ''stats.clients'' then packed (bus_pack_clients bus (get_stats (ext_submap ext) (sv_db sv)))
     else if ext_cluster ext \<and> method = lit ''stats.cluster'' then packed (bus_pack_cluster bus cluster)
     else bus_default bus method)"

section \<open>Lemmas\<close>

lemma http_page_status:
  "rs_status (http_page ext h now sv path) = 200 \<longleftrightarrow> path \<in> {lit ''/status'', lit ''/chart.min.js'', lit ''/''}"
  by (simp add: http_page_def Let_def http_error_def)

lemma http_page_missing:
  "path \<notin> {lit ''/status'', lit ''/chart.min.js'', lit ''/''} \<Longrightarrow> http_page ext h now sv path = http_error 404"
  by (simp add: http_page_def Let_def)

lemma http_handler_get:
  assumes "rq_method rq = lit ''GET''" and "credentials h (rq_authorization rq) = Inr creds"
  shows "http_handler ext h now sv rq =
    (if authorized ext sv creds then http_page ext h now sv (rq_path rq)
     else \<lparr>rs_status = 401, rs_headers = [(lit ''www-authenticate'', lit ''Basic realm=\"?\"'')], rs_body = []\<rparr>)"
  using assms by (simp add: http_handler_def)

lemma credentials_refused: "credentials h header = Inl r \<Longrightarrow> rs_status r = 400"
  by (auto simp: credentials_def response_def split: option.splits list.splits if_splits sum.splits)

text \<open>A well-formed header says what it says.\<close>

lemma credentials_basic:
  assumes "h_to_str h header = Some (lit ''Basic '' @ params)" and "h_base64 h params = Inr (user @ of_char CHR '':'' # password)"
    and "utf8_valid (user @ of_char CHR '':'' # password)" and "of_char CHR '':'' \<notin> set user"
  shows "credentials h (Some header) = Inr (Some (user, password))"
proof -
  have "of_char CHR '' '' \<notin> set (lit ''Basic'')" by code_simp
  moreover have "lit ''Basic '' @ params = lit ''Basic'' @ of_char CHR '' '' # params" by (simp add: lit_def)
  ultimately have "splitn2 (of_char CHR '' '') (lit ''Basic '' @ params) = [lit ''Basic'', params]"
    by (metis splitn2_append)
  moreover have "to_lowercase (lit ''Basic'') = lit ''basic''" by code_simp
  ultimately show ?thesis using assms by (simp add: credentials_def from_utf8_valid splitn2_append)
qed

section \<open>Properties\<close>

text \<open>
  C23: only administrators see the statistics.  A request succeeds exactly if it is a GET for one of
  the three pages and either carries no basic credentials while the access list of \<^verbatim>\<open>_\<close> is an
  administrator's, or carries the login and password of an administrator.  Every other request is
  answered by 400, 401, 404 or 405 in a way that does not depend on the counters, the clients or the
  rest of the server's state.
\<close>

theorem statistics_for_admins_only:
  "(rs_status (http_handler ext h now sv rq) = 200 \<longleftrightarrow>
      rq_method rq = lit ''GET'' \<and> rq_path rq \<in> {lit ''/status'', lit ''/chart.min.js'', lit ''/''} \<and>
      (credentials h (rq_authorization rq) = Inr None \<and> admin_login sv (lit ''_'') \<or>
       (\<exists>login password. credentials h (rq_authorization rq) = Inr (Some (login, password)) \<and>
          authenticate ext sv login password \<and> admin_login sv login))) \<and>
   (rs_status (http_handler ext h now sv rq) \<noteq> 200 \<longrightarrow>
      rs_status (http_handler ext h now sv rq) \<in> {400, 401, 404, 405} \<and>
      (\<forall>sv' now'. sv_passwords sv' = sv_passwords sv \<and> sv_acls sv' = sv_acls sv \<longrightarrow>
         http_handler ext h now' sv' rq = http_handler ext h now sv rq))"
proof (cases "rq_method rq = lit ''GET''")
  case False
  then show ?thesis by (simp add: http_handler_def http_error_def)
next
  case True
  have same: "authorized ext sv' creds = authorized ext sv creds"
    if "sv_passwords sv' = sv_passwords sv \<and> sv_acls sv' = sv_acls sv" for sv' creds
    using that by (auto simp: authorized_def authenticate_def admin_login_def get_acl_def split: option.splits)
  show ?thesis
  proof (cases "credentials h (rq_authorization rq)")
    case (Inl r)
    then show ?thesis using True credentials_refused [OF Inl] by (simp add: http_handler_def)
  next
    case (Inr creds)
    have a: "authorized ext sv creds \<longleftrightarrow> creds = None \<and> admin_login sv (lit ''_'') \<or>
        (\<exists>login password. creds = Some (login, password) \<and> authenticate ext sv login password \<and> admin_login sv login)"
      by (auto simp: authorized_def split: option.split)
    note get = http_handler_get [OF True Inr]
    let ?pages = "{lit ''/status'', lit ''/chart.min.js'', lit ''/''}"
    have 1: "rs_status (http_handler ext h now sv rq) = 200 \<longleftrightarrow> rq_path rq \<in> ?pages \<and> authorized ext sv creds"
      by (simp add: get http_page_status)
    have 2: "rs_status (http_handler ext h now sv rq) \<in> {401, 404}"
      if "\<not> (rq_path rq \<in> ?pages \<and> authorized ext sv creds)"
      using that http_page_missing [of "rq_path rq" ext h now sv] by (auto simp: get http_error_def)
    have 3: "http_handler ext h now' sv' rq = http_handler ext h now sv rq"
      if "sv_passwords sv' = sv_passwords sv \<and> sv_acls sv' = sv_acls sv"
        and "\<not> (rq_path rq \<in> ?pages \<and> authorized ext sv creds)" for sv' now'
      using that(2) same [OF that(1), of creds] http_page_missing [of "rq_path rq" ext h] by (auto simp: get)
    show ?thesis
      by (rule conjI) (use 1 a True Inr in simp, use 1 2 3 in blast)
  qed
qed

definition sample_http :: "unit Http" where
  "sample_http =
     \<lparr>h_started = 0, h_host = lit ''host'', h_version = lit ''5'', h_cluster = None, h_to_str = Some,
      h_base64 = (\<lambda>s. Inr s), h_json = (\<lambda>_. lit ''{}''), h_html_stats = [], h_js_chart = []\<rparr>"

definition sample_request :: http_request where
  "sample_request = \<lparr>rq_method = lit ''GET'', rq_path = lit ''/status'', rq_authorization = Some (lit ''Basic u:pw'')\<rparr>"

theorem statistics_for_admins_only_witness:
  "rs_status (http_handler sample_ext sample_http 0
      (sample_server\<lparr>sv_acls := \<lparr>db_acls = [lit ''u'' \<mapsto> Acl_new_full\<lparr>acl_admin := True\<rparr>], db_path = []\<rparr>\<rparr>) sample_request) = 200 \<and>
   rs_status (http_handler sample_ext sample_http 0 sample_server sample_request) \<noteq> 200"
proof -
  have "h_to_str sample_http (lit ''Basic u:pw'') = Some (lit ''Basic '' @ lit ''u:pw'')"
    and "h_base64 sample_http (lit ''u:pw'') = Inr (lit ''u'' @ of_char CHR '':'' # lit ''pw'')"
    by (simp_all add: sample_http_def lit_def)
  moreover have "utf8_valid (lit ''u'' @ of_char CHR '':'' # lit ''pw'')" "of_char CHR '':'' \<notin> set (lit ''u'')" by code_simp+
  ultimately have c: "credentials sample_http (rq_authorization sample_request) = Inr (Some (lit ''u'', lit ''pw''))"
    by (simp add: sample_request_def credentials_basic)
  have u: "lit ''u'' \<noteq> []" by (simp add: lit_def)
  let ?sv = "sample_server\<lparr>sv_acls := \<lparr>db_acls = [lit ''u'' \<mapsto> Acl_new_full\<lparr>acl_admin := True\<rparr>], db_path = []\<rparr>\<rparr>"
  have "authenticate sample_ext ?sv (lit ''u'') (lit ''pw'')"
    by (simp add: authenticate_def verify_def sample_ext_def) (simp add: sample_server_def)
  moreover have "admin_login ?sv (lit ''u'')" "\<not> admin_login sample_server (lit ''u'')"
    using u by (simp_all add: admin_login_def get_acl_def Db_get_acl_def is_admin_def sample_server_def sample_acl_def)
  moreover have "rq_method sample_request = lit ''GET''" "rq_path sample_request = lit ''/status''"
    by (simp_all add: sample_request_def)
  ultimately show ?thesis
    using statistics_for_admins_only [THEN conjunct1, of sample_ext sample_http 0 ?sv sample_request]
      statistics_for_admins_only [THEN conjunct1, of sample_ext sample_http 0 sample_server sample_request] c
    by auto
qed

end
