(* ===== verification/Server_Launch.thy ===== *)
theory Server_Launch
  imports Server_Http Client
begin

text \<open>
  Configuring and starting the server, \<^verbatim>\<open>src/src/server.rs\<close>: the configuration, paths, the TLS
  identity, the configurations of the neighbours in a cluster, the listeners, loading and reloading
  the databases, and \<^verbatim>\<open>launch\<close>; and the start as an EVA ICS service, \<^verbatim>\<open>src/src/eva_svc.rs\<close>.  The
  operating system, the YAML reader and the TLS library are the record \<open>Sys\<close>.  Where the code
  unwraps a result, a failure is the outcome \<open>Panics\<close>.
\<close>

section \<open>Configuration\<close>

datatype StringOrList = Single str | Multiple "str list"

definition StringOrList_default :: StringOrList where
  "StringOrList_default = Multiple []"

fun string_or_list :: "StringOrList \<Rightarrow> str list" where
  "string_or_list (Single s) = [s]"
| "string_or_list (Multiple v) = v"

record ConfigCluster =
  cc_config :: str

record ConfigAuth =
  ca_allow_anonymous :: bool
  ca_password_file :: "str option"
  ca_key_file :: "str option"
  ca_acl :: str

text \<open>The \<^verbatim>\<open>timeout\<close> is the bit pattern of an \<^verbatim>\<open>f64\<close>.\<close>

record ConfigProto =
  cp_bind :: StringOrList
  cp_bind_udp :: StringOrList
  cp_udp_frame_size :: "u16 option"
  cp_timeout :: "u64 option"
  cp_tls_pkcs12 :: "str option"
  cp_tls_cert :: "str option"
  cp_tls_key :: "str option"
  cp_fips :: bool
  cp_allow_no_tls :: bool

record ConfigServer =
  cs_workers :: "nat option"
  cs_latency_warn :: u32
  cs_data_queue :: nat
  cs_max_topic_depth :: nat
  cs_max_pub_size :: nat
  cs_max_topic_length :: nat
  cs_pid_file :: "str option"
  cs_bind_stats :: "str option"
  cs_license :: "str option"

record Server_Config =
  sc_server :: ConfigServer
  sc_proto :: ConfigProto
  sc_auth :: ConfigAuth
  sc_cluster :: "ConfigCluster option"

definition DEFAULT_UDP_FRAME_SIZE :: u16 where
  "DEFAULT_UDP_FRAME_SIZE = 4096"

text \<open>\<^verbatim>\<open>PathBuf::push\<close> of a relative path, and \<^verbatim>\<open>format_path\<close>.\<close>

definition path_push :: "str \<Rightarrow> str \<Rightarrow> str" where
  "path_push cdir path = (if cdir \<noteq> [] \<and> last cdir \<noteq> slash then cdir @ slash # path else cdir @ path)"

definition format_path :: "str \<Rightarrow> str \<Rightarrow> str" where
  "format_path path cdir =
     (if str_starts_with (lit ''/'') path \<or> str_starts_with (lit ''.'') path then path else path_push cdir path)"

section \<open>The operating system and the libraries\<close>

text \<open>
  Reading and writing files (a failed write may have made the file), removing them, the readers of the
  YAML files, the TLS library and the sockets.
\<close>

record 'id Sys =
  sys_read_to_string :: "str \<Rightarrow> io_error + str"
  sys_read :: "str \<Rightarrow> io_error + bytes"
  sys_write :: "str \<Rightarrow> io_error + unit"
  sys_write_opened :: "str \<Rightarrow> bool"
  sys_remove :: "str \<Rightarrow> bool"
  sys_acl_yaml :: "str \<Rightarrow> Error + (str \<times> Acl) list"
  sys_key_yaml :: "str \<Rightarrow> Error + (str \<times> str) list"
  sys_cluster_yaml :: "str \<Rightarrow> Error + ConfigYaml list"
  sys_hex_decode :: "str \<Rightarrow> str + bytes"
  sys_from_pkcs12 :: "bytes \<Rightarrow> str + 'id"
  sys_pem_to_pkcs8 :: "bytes \<Rightarrow> str + bytes"
  sys_from_pkcs8 :: "bytes \<Rightarrow> bytes \<Rightarrow> str + 'id"
  sys_acceptor :: "'id \<Rightarrow> str + acceptor"
  sys_bind_unix :: "str \<Rightarrow> io_error + unit"
  sys_permissions :: "str \<Rightarrow> io_error + unit"
  sys_bind_tcp :: "str \<Rightarrow> io_error + unit"
  sys_bind_udp :: "str \<Rightarrow> io_error + unit"
  sys_is_addr :: "str \<Rightarrow> bool"

section \<open>Additional files\<close>

definition prepare_tls_identity :: "'id Sys \<Rightarrow> ConfigProto \<Rightarrow> str \<Rightarrow> 'id option outcome" where
  "prepare_tls_identity sys proto cdir =
     (case cp_tls_pkcs12 proto of
        Some tls_pkcs12 \<Rightarrow>
          expect (lit ''Unable to load TLS PKCS12'') (sys_read sys (format_path tls_pkcs12 cdir)) (\<lambda>p12.
          unwrap (sys_from_pkcs12 sys p12) (\<lambda>identity. Returns (Some identity)))
      | None \<Rightarrow>
          (case cp_tls_cert proto of
             Some tls_cert \<Rightarrow>
               expect (lit ''Unable to load TLS cert'') (sys_read sys (format_path tls_cert cdir)) (\<lambda>cert.
               expect (lit ''TLS key not specified'') (ok_or () (cp_tls_key proto)) (\<lambda>tls_key.
               expect (lit ''Unable to load TLS key'') (sys_read sys (format_path tls_key cdir)) (\<lambda>key.
               unwrap (sys_pem_to_pkcs8 sys key) (\<lambda>pkcs8.
               unwrap (sys_from_pkcs8 sys cert pkcs8) (\<lambda>identity. Returns (Some identity))))))
           | None \<Rightarrow> Returns None))"

text \<open>The loop over the clients of the cluster configuration.\<close>

definition neighbour_config :: "'id Sys \<Rightarrow> str \<Rightarrow> duration \<Rightarrow> nat \<Rightarrow> Config \<Rightarrow> Config outcome" where
  "neighbour_config sys cdir timeout queue_size c =
     out_bind
       (case cf_tls_ca c of
          Some tls_ca \<Rightarrow>
            unwrap (sys_read_to_string sys (format_path tls_ca cdir)) (\<lambda>ca. Returns (update_tls_ca ca c))
        | None \<Rightarrow> Returns c)
       (\<lambda>c. Returns (set_timeout timeout (set_queue_size queue_size c)))"

fun read_configs :: "ConfigYaml list \<Rightarrow> Config list outcome" where
  "read_configs [] = Returns []"
| "read_configs (y # ys) =
     out_bind (Config_deserialize y) (\<lambda>c. out_bind (read_configs ys) (\<lambda>cs. Returns (c # cs)))"

fun neighbour_configs :: "'id Sys \<Rightarrow> str \<Rightarrow> duration \<Rightarrow> nat \<Rightarrow> Config list \<Rightarrow> Config list outcome" where
  "neighbour_configs sys cdir timeout queue_size [] = Returns []"
| "neighbour_configs sys cdir timeout queue_size (c # cs) =
     out_bind (neighbour_config sys cdir timeout queue_size c) (\<lambda>c.
     out_bind (neighbour_configs sys cdir timeout queue_size cs) (\<lambda>cs. Returns (c # cs)))"

definition prepare_replication_configs ::
  "'id Sys \<Rightarrow> ConfigCluster option \<Rightarrow> str \<Rightarrow> duration \<Rightarrow> nat \<Rightarrow> Config list option outcome" where
  "prepare_replication_configs sys cluster cdir timeout queue_size =
     (case cluster of
        Some c \<Rightarrow>
          unwrap (sys_read_to_string sys (format_path (cc_config c) cdir)) (\<lambda>cfg.
          unwrap (sys_cluster_yaml sys cfg) (\<lambda>yamls.
          out_bind (read_configs yamls) (\<lambda>cfgs.
          out_bind (neighbour_configs sys cdir timeout queue_size cfgs) (\<lambda>configs. Returns (Some configs)))))
      | None \<Rightarrow> Returns None)"

definition load_license :: "'id Sys \<Rightarrow> str option \<Rightarrow> str \<Rightarrow> str option outcome" where
  "load_license sys license cdir =
     (case license of
        Some f \<Rightarrow> unwrap (sys_read_to_string sys (format_path f cdir)) (\<lambda>l. Returns (Some l))
      | None \<Rightarrow> Returns None)"

record 'id AdditinalConfigs =
  ac_tls_identity :: "'id option"
  ac_replication_configs :: "Config list option"
  ac_license :: "str option"

definition AdditinalConfigs_load ::
  "'id Sys \<Rightarrow> Server_Config \<Rightarrow> str \<Rightarrow> duration \<Rightarrow> 'id AdditinalConfigs outcome" where
  "AdditinalConfigs_load sys config cdir timeout =
     out_bind (prepare_tls_identity sys (sc_proto config) cdir) (\<lambda>identity.
     out_bind (prepare_replication_configs sys (sc_cluster config) cdir timeout (cs_data_queue (sc_server config))) (\<lambda>configs.
     out_bind (load_license sys (cs_license (sc_server config)) cdir) (\<lambda>license.
     Returns \<lparr>ac_tls_identity = identity, ac_replication_configs = configs, ac_license = license\<rparr>)))"

section \<open>Listeners\<close>

text \<open>
  What the process has to remove when it ends: \<^verbatim>\<open>PID_FILE\<close>, \<^verbatim>\<open>UNIX_SOCKETS\<close>, and the files it works on
  that are there.
\<close>

record Process =
  pr_pid_file :: "str option"
  pr_unix_sockets :: "str set"
  pr_files :: "str set"

definition remove_file :: "'id Sys \<Rightarrow> str \<Rightarrow> Process \<Rightarrow> Process" where
  "remove_file sys f p = (if sys_remove sys f then p\<lparr>pr_files := pr_files p - {f}\<rparr> else p)"

text \<open>The addresses and paths that are bound.\<close>

record Listeners =
  ls_tcp :: "str list"
  ls_udp :: "str list"
  ls_unix :: "str list"

type_synonym 'a process_io = "(Process, Error, 'a) io"

definition bind_stream :: "'id Sys \<Rightarrow> str \<Rightarrow> str \<Rightarrow> Listeners \<Rightarrow> Listeners process_io" where
  "bind_stream sys cdir s_bind ls =
     (if is_unix_socket s_bind then
        let bind = format_path s_bind cdir in
        io_bind (io_modify (remove_file sys bind)) (\<lambda>_.
        io_bind (io_lift (map_err Error_from_io (sys_bind_unix sys bind))) (\<lambda>_.
        io_bind (io_modify (\<lambda>p. p\<lparr>pr_files := insert bind (pr_files p)\<rparr>)) (\<lambda>_.
        io_bind (io_lift (map_err Error_from_io (sys_permissions sys bind))) (\<lambda>_.
        io_bind (io_modify (\<lambda>p. p\<lparr>pr_unix_sockets := insert bind (pr_unix_sockets p)\<rparr>)) (\<lambda>_.
        io_return (ls\<lparr>ls_unix := ls_unix ls @ [bind]\<rparr>))))))
      else
        io_bind (io_lift (map_err Error_from_io (sys_bind_tcp sys s_bind))) (\<lambda>_.
        io_return (ls\<lparr>ls_tcp := ls_tcp ls @ [s_bind]\<rparr>)))"

fun bind_streams :: "'id Sys \<Rightarrow> str \<Rightarrow> str list \<Rightarrow> Listeners \<Rightarrow> Listeners process_io" where
  "bind_streams sys cdir [] ls = io_return ls"
| "bind_streams sys cdir (b # bs) ls = io_bind (bind_stream sys cdir b ls) (bind_streams sys cdir bs)"

fun bind_datagrams :: "'id Sys \<Rightarrow> str list \<Rightarrow> Listeners \<Rightarrow> Listeners process_io" where
  "bind_datagrams sys [] ls = io_return ls"
| "bind_datagrams sys (b # bs) ls =
     io_bind (io_lift (map_err Error_from_io (sys_bind_udp sys b))) (\<lambda>_.
     bind_datagrams sys bs (ls\<lparr>ls_udp := ls_udp ls @ [b]\<rparr>))"

definition Listeners_create :: "'id Sys \<Rightarrow> ConfigProto \<Rightarrow> str \<Rightarrow> Listeners process_io" where
  "Listeners_create sys proto cdir =
     io_bind (bind_streams sys cdir (string_or_list (cp_bind proto)) \<lparr>ls_tcp = [], ls_udp = [], ls_unix = []\<rparr>) (\<lambda>ls.
     bind_datagrams sys (string_or_list (cp_bind_udp proto)) ls)"

section \<open>Loading and reloading\<close>

definition reload_acl :: "'id Sys \<Rightarrow> ('m, 'ch) Server \<Rightarrow> unit result \<times> ('m, 'ch) Server" where
  "reload_acl sys sv =
     (case Db_reload (sys_read_to_string sys) (sys_acl_yaml sys) (sv_acls sv) of (r, db) \<Rightarrow> (r, sv\<lparr>sv_acls := db\<rparr>))"

text \<open>\<^verbatim>\<open>reload_db!\<close> only logs an error.\<close>

definition reload_passwords :: "'id Sys \<Rightarrow> ('m, 'ch) Server \<Rightarrow> ('m, 'ch) Server" where
  "reload_passwords sys sv =
     sv\<lparr>sv_passwords := snd (Passwords_reload (sys_read_to_string sys) (sv_passwords sv))\<rparr>"

definition reload_keys :: "'id Sys \<Rightarrow> ('m, 'ch) Server \<Rightarrow> ('m, 'ch) Server" where
  "reload_keys sys sv =
     sv\<lparr>sv_keys := snd (Keys_reload (sys_read_to_string sys) (sys_key_yaml sys) (sys_hex_decode sys) (sv_acls sv) (sv_keys sv))\<rparr>"

definition load_auth :: "'id Sys \<Rightarrow> ConfigAuth \<Rightarrow> str \<Rightarrow> ('m, 'ch) Server \<Rightarrow> ('m, 'ch) Server" where
  "load_auth sys auth cdir sv =
     (let sv1 = (case ca_password_file auth of
                   Some f \<Rightarrow> reload_passwords sys
                     (sv\<lparr>sv_passwords := set_password_file (format_path f cdir) (sv_passwords sv)\<rparr>)
                 | None \<Rightarrow> sv)
      in case ca_key_file auth of
           Some f \<Rightarrow> reload_keys sys (sv1\<lparr>sv_keys := set_key_file (format_path f cdir) (sv_keys sv1)\<rparr>)
         | None \<Rightarrow> sv1)"

definition load_acl :: "'id Sys \<Rightarrow> ConfigAuth \<Rightarrow> str \<Rightarrow> ('m, 'ch) Server \<Rightarrow> ('m, 'ch) Server outcome" where
  "load_acl sys auth cdir sv =
     (case reload_acl sys (sv\<lparr>sv_acls := Db_set_path (sv_acls sv) (format_path (ca_acl auth) cdir)\<rparr>) of
        (Inl _, _) \<Rightarrow> Panics (lit ''unable to reload ACL file'')
      | (Inr _, sv') \<Rightarrow> Returns sv')"

text \<open>One hangup signal.\<close>

definition hangup :: "'id Sys \<Rightarrow> ('m, 'ch) Server \<Rightarrow> ('m, 'ch) Server" where
  "hangup sys sv = reload_keys sys (reload_passwords sys (snd (reload_acl sys sv)))"

section \<open>Starting\<close>

definition set_statics :: "Server_Config \<Rightarrow> ('m, 'ch) Server \<Rightarrow> ('m, 'ch) Server" where
  "set_statics config sv =
     (let st1 = set_data_queue_size (cs_data_queue (sc_server config))
            (set_latency_warn (cs_latency_warn (sc_server config)) (sv_statics sv));
          st2 = st1\<lparr>ALLOW_ANONYMOUS := ca_allow_anonymous (sc_auth config),
            MAX_TOPIC_LENGTH := cs_max_topic_length (sc_server config), MAX_PUB_SIZE := cs_max_pub_size (sc_server config)\<rparr>
      in sv\<lparr>sv_statics := set_max_topic_depth (cs_max_topic_depth (sc_server config)) st2\<rparr>)"

text \<open>The tasks of a running server: its listeners with what they were given.\<close>

datatype listener_task =
    Unix_Listener str duration
  | Tcp_Listener str "acceptor option" duration bool
  | Udp_Listener str u16
  | Stats_Listener str
  | Replication "Config list" "str option"

definition listener_tasks ::
  "Server_Config \<Rightarrow> Listeners \<Rightarrow> duration \<Rightarrow> acceptor option \<Rightarrow> listener_task list" where
  "listener_tasks config ls timeout acceptor =
     map (\<lambda>path. Unix_Listener path timeout) (ls_unix ls) @
     map (\<lambda>a. Tcp_Listener a acceptor timeout (cp_allow_no_tls (sc_proto config))) (ls_tcp ls) @
     map (\<lambda>a. Udp_Listener a (case cp_udp_frame_size (sc_proto config) of Some n \<Rightarrow> n | None \<Rightarrow> DEFAULT_UDP_FRAME_SIZE)) (ls_udp ls)"

text \<open>The \<^verbatim>\<open>pid\<close> file is remembered before it is written.\<close>

definition create_pid :: "'id Sys \<Rightarrow> str \<Rightarrow> unit process_io" where
  "create_pid sys pid_file p =
     (let p' = p\<lparr>pr_pid_file := Some pid_file\<rparr>; there = p'\<lparr>pr_files := insert pid_file (pr_files p')\<rparr> in
      case sys_write sys pid_file of
        Inr _ \<Rightarrow> (Inr (), there)
      | Inl e \<Rightarrow> (Inl (Error_from_io e), if sys_write_opened sys pid_file then there else p'))"

text \<open>\<^verbatim>\<open>launch_server\<close>: the tasks it spawns before it sleeps for ever, or the error it returns.\<close>

definition launch_server ::
  "('m, 'ch) Ext \<Rightarrow> 'id Sys \<Rightarrow> Server_Config \<Rightarrow> Listeners \<Rightarrow> duration \<Rightarrow> 'id option \<Rightarrow> Config list option \<Rightarrow> bool \<Rightarrow>
     str option \<Rightarrow> Process \<Rightarrow> (listener_task list result \<times> Process) outcome" where
  "launch_server ext sys config ls timeout tls_identity replication_configs create_pid_file license p =
     (case (case tls_identity of
              Some identity \<Rightarrow> res_bind (map_err Error_from_tls (sys_acceptor sys identity)) (\<lambda>a. Inr (Some a))
            | None \<Rightarrow> Inr None) of
        Inl e \<Rightarrow> Returns (Inl e, p)
      | Inr acceptor \<Rightarrow>
          out_bind
            (if create_pid_file then
               expect (lit ''PID file not specified'') (ok_or () (cs_pid_file (sc_server config))) (\<lambda>pid_file.
               Returns (create_pid sys pid_file p))
             else Returns (Inr (), p))
            (\<lambda>(written, p'). Returns (res_bind written (\<lambda>_.
               Inr ((case replication_configs of
                       Some configs \<Rightarrow> if ext_cluster ext then [Replication configs license] else []
                     | None \<Rightarrow> []) @
                    listener_tasks config ls timeout acceptor)), p')))"

text \<open>\<^verbatim>\<open>cleanup\<close> removes the sockets.\<close>

definition cleanup :: "'id Sys \<Rightarrow> Process \<Rightarrow> Process" where
  "cleanup sys p = p\<lparr>pr_files := {f \<in> pr_files p. \<not> (f \<in> pr_unix_sockets p \<and> sys_remove sys f)}\<rparr>"

text \<open>How a launch ends up: running, or the process exits with a code.\<close>

datatype ('m, 'ch) launched = Running "listener_task list" "('m, 'ch) Server" Process | Exit nat Process

definition load_databases ::
  "'id Sys \<Rightarrow> Server_Config \<Rightarrow> str \<Rightarrow> bool \<Rightarrow> ('m, 'ch) Server \<Rightarrow> ('m, 'ch) Server outcome" where
  "load_databases sys config cdir standalone sv =
     (if standalone then
        out_bind (load_acl sys (sc_auth config) cdir sv) (\<lambda>sv. Returns (load_auth sys (sc_auth config) cdir sv))
      else Returns sv)"

text \<open>\<^verbatim>\<open>stats::start\<close> panics when the address cannot be parsed.\<close>

definition start_stats :: "'id Sys \<Rightarrow> Server_Config \<Rightarrow> listener_task list outcome" where
  "start_stats sys config =
     (case cs_bind_stats (sc_server config) of
        Some bind_stats \<Rightarrow>
          if sys_is_addr sys bind_stats then Returns [Stats_Listener bind_stats]
          else Panics (lit ''called Result::unwrap() on an Err value'')
      | None \<Rightarrow> Returns [])"

definition launch ::
  "('m, 'ch) Ext \<Rightarrow> 'id Sys \<Rightarrow> Server_Config \<Rightarrow> 'id AdditinalConfigs \<Rightarrow> Listeners \<Rightarrow> str \<Rightarrow> duration \<Rightarrow> bool \<Rightarrow>
     ('m, 'ch) Server \<Rightarrow> Process \<Rightarrow> ('m, 'ch) launched outcome" where
  "launch ext sys config ac ls cdir timeout standalone sv p =
     out_bind (load_databases sys config cdir standalone (set_statics config sv)) (\<lambda>sv.
     out_bind (start_stats sys config) (\<lambda>stats.
     out_bind (launch_server ext sys config ls timeout (ac_tls_identity ac) (ac_replication_configs ac) standalone
         (ac_license ac) p) (\<lambda>(r, p).
     case r of
       Inl _ \<Rightarrow> Returns (Exit 1 (cleanup sys p))
     | Inr tasks \<Rightarrow> Returns (Running (stats @ tasks) sv p))))"

text \<open>
  \<^verbatim>\<open>main\<close> from the configuration on, standalone and as a service; as a service the databases are
  loaded before the privileges are dropped, which may fail.
\<close>

definition run_standalone ::
  "('m, 'ch) Ext \<Rightarrow> 'id Sys \<Rightarrow> Server_Config \<Rightarrow> str \<Rightarrow> duration \<Rightarrow> ('m, 'ch) Server \<Rightarrow> Process \<Rightarrow>
     ('m, 'ch) launched outcome" where
  "run_standalone ext sys config cdir timeout sv p =
     out_bind (AdditinalConfigs_load sys config cdir timeout) (\<lambda>ac.
     case Listeners_create sys (sc_proto config) cdir p of (r, p) \<Rightarrow>
     unwrap r (\<lambda>ls.
     launch ext sys config ac ls cdir timeout True sv p))"

definition run_service ::
  "('m, 'ch) Ext \<Rightarrow> 'id Sys \<Rightarrow> (Error \<Rightarrow> 'e) \<Rightarrow> Server_Config \<Rightarrow> str \<Rightarrow> duration \<Rightarrow> 'e + unit \<Rightarrow> ('m, 'ch) Server \<Rightarrow>
     Process \<Rightarrow> ('e + ('m, 'ch) launched) outcome" where
  "run_service ext sys failed config cdir timeout drop_privileges sv p =
     out_bind (AdditinalConfigs_load sys config cdir timeout) (\<lambda>ac.
     case Listeners_create sys (sc_proto config) cdir p of
       (Inl e, p) \<Rightarrow> Returns (Inl (failed e))
     | (Inr ls, p) \<Rightarrow>
         out_bind (load_acl sys (sc_auth config) cdir sv) (\<lambda>sv1.
         let sv2 = load_auth sys (sc_auth config) cdir sv1 in
         case drop_privileges of
           Inl e \<Rightarrow> Returns (Inl e)
         | Inr _ \<Rightarrow> out_bind (launch ext sys config ac ls cdir timeout False sv2 p) (\<lambda>l. Returns (Inr l))))"

section \<open>Accepting connections\<close>

text \<open>
  A listener spawns a task for every accepted connection and only logs a failed \<^verbatim>\<open>accept\<close>; the task
  handles the stream on the shared server.
\<close>

datatype connection =
    Tcp_Connection SStream str duration "acceptor option" bool
  | Unix_Connection SStream str duration

fun handle_unix_listener :: "str \<Rightarrow> duration \<Rightarrow> (io_error + SStream) list \<Rightarrow> connection list" where
  "handle_unix_listener path timeout [] = []"
| "handle_unix_listener path timeout (Inr stream # accepted) =
     Unix_Connection stream path timeout # handle_unix_listener path timeout accepted"
| "handle_unix_listener path timeout (Inl e # accepted) = handle_unix_listener path timeout accepted"

fun handle_tcp_listener ::
  "acceptor option \<Rightarrow> duration \<Rightarrow> bool \<Rightarrow> (io_error + SStream \<times> str) list \<Rightarrow> connection list" where
  "handle_tcp_listener acceptor timeout allow_no_tls [] = []"
| "handle_tcp_listener acceptor timeout allow_no_tls (Inr (stream, addr) # accepted) =
     Tcp_Connection stream addr timeout acceptor allow_no_tls # handle_tcp_listener acceptor timeout allow_no_tls accepted"
| "handle_tcp_listener acceptor timeout allow_no_tls (Inl e # accepted) =
     handle_tcp_listener acceptor timeout allow_no_tls accepted"

text \<open>
  The task of the statistics server, from what binding its address and each \<^verbatim>\<open>accept\<close> give: the
  connections on which it serves \<open>http_handler\<close>.
\<close>

fun stats_accept :: "(io_error + 'stream \<times> str) list \<Rightarrow> ('stream \<times> str) list" where
  "stats_accept [] = []"
| "stats_accept (Inr connection # accepted) = connection # stats_accept accepted"
| "stats_accept (Inl e # accepted) = stats_accept accepted"

definition stats_listener :: "io_error + unit \<Rightarrow> (io_error + 'stream \<times> str) list \<Rightarrow> ('stream \<times> str) list" where
  "stats_listener bound accepted = (case bound of Inl e \<Rightarrow> [] | Inr _ \<Rightarrow> stats_accept accepted)"

fun handle_connection ::
  "('m, 'ch) Ext \<Rightarrow> io_error + unit \<Rightarrow> connection \<Rightarrow> ('m, 'ch) Server \<Rightarrow> (bool result \<times> ('m, 'ch) World) option" where
  "handle_connection ext nodelay (Tcp_Connection stream addr timeout acceptor allow_no_tls) sv =
     handle_tcp_stream ext addr timeout acceptor allow_no_tls nodelay \<lparr>w_stream = stream, w_server = sv\<rparr>"
| "handle_connection ext nodelay (Unix_Connection stream path timeout) sv =
     handle_unix_stream ext path timeout \<lparr>w_stream = stream, w_server = sv\<rparr>"

section \<open>Lemmas\<close>

subsection \<open>What loading changes\<close>

definition same_but_tables :: "('m, 'ch) Server \<Rightarrow> ('m, 'ch) Server \<Rightarrow> bool" where
  "same_but_tables sv sv' \<longleftrightarrow>
     sv_statics sv' = sv_statics sv \<and> sv_db sv' = sv_db sv \<and> sv_store sv' = sv_store sv \<and>
     sv_counters sv' = sv_counters sv \<and> sv_draws sv' = sv_draws sv \<and> sv_spawned sv' = sv_spawned sv \<and>
     sv_replicated sv' = sv_replicated sv"

definition keys_have_acl :: "('m, 'ch) Server \<Rightarrow> bool" where
  "keys_have_acl sv \<longleftrightarrow>
     (\<forall>m l k. key_map (sv_keys sv) = Some m \<and> m l = Some k \<longrightarrow> Db_has_acl (sv_acls sv) l)"

text \<open>The tables after an attempt to load them from their files.\<close>

definition acl_table :: "'id Sys \<Rightarrow> Db \<Rightarrow> str \<rightharpoonup> Acl" where
  "acl_table sys db =
     (case sys_read_to_string sys (db_path db) of
        Inl _ \<Rightarrow> db_acls db
      | Inr data \<Rightarrow> (case sys_acl_yaml sys data of Inl _ \<Rightarrow> db_acls db | Inr acls \<Rightarrow> map_of (rev acls)))"

definition password_table :: "'id Sys \<Rightarrow> Passwords \<Rightarrow> (str \<rightharpoonup> str) option" where
  "password_table sys p =
     (case pw_file p of
        None \<Rightarrow> pw_map p
      | Some f \<Rightarrow> (case sys_read_to_string sys f of Inl _ \<Rightarrow> pw_map p | Inr data \<Rightarrow> Some (load_lines data)))"

definition key_table :: "'id Sys \<Rightarrow> Db \<Rightarrow> Keys \<Rightarrow> (str \<rightharpoonup> Key) option" where
  "key_table sys db ks =
     (case key_file ks of
        None \<Rightarrow> key_map ks
      | Some f \<Rightarrow>
          (case sys_read_to_string sys f of
             Inl _ \<Rightarrow> key_map ks
           | Inr data \<Rightarrow>
               (case sys_key_yaml sys data of
                  Inl _ \<Rightarrow> key_map ks
                | Inr es \<Rightarrow> Some (foldl (load_key (sys_hex_decode sys) db) Map.empty es))))"

lemma reload_acl_table: "snd (reload_acl sys sv) = sv\<lparr>sv_acls := (sv_acls sv)\<lparr>db_acls := acl_table sys (sv_acls sv)\<rparr>\<rparr>"
  by (auto simp: reload_acl_def Db_reload_result acl_table_def split: sum.split)

lemma reload_passwords_table:
  "reload_passwords sys sv = sv\<lparr>sv_passwords := (sv_passwords sv)\<lparr>pw_map := password_table sys (sv_passwords sv)\<rparr>\<rparr>"
  by (auto simp: reload_passwords_def Passwords_reload_def password_table_def io_bind_def split: option.split sum.split)

lemma reload_keys_table:
  "reload_keys sys sv = sv\<lparr>sv_keys := (sv_keys sv)\<lparr>key_map := key_table sys (sv_acls sv) (sv_keys sv)\<rparr>\<rparr>"
  by (auto simp: reload_keys_def Keys_reload_def key_table_def io_bind_def split: option.split sum.split)

lemma key_table_acl:
  assumes "key_table sys db ks \<noteq> key_map ks" and "key_table sys db ks = Some m" and "m l = Some k"
  shows "Db_has_acl db l"
proof -
  obtain es where "foldl (load_key (sys_hex_decode sys) db) Map.empty es l = Some k"
    using assms by (auto simp: key_table_def split: option.splits sum.splits)
  then show ?thesis
    using load_keys_wf [where m = Map.empty and hex_decode = "sys_hex_decode sys" and acl_db = db] by fastforce
qed

lemma load_auth_tables:
  "same_but_tables sv (load_auth sys auth cdir sv) \<and> sv_acls (load_auth sys auth cdir sv) = sv_acls sv"
  by (auto simp: load_auth_def same_but_tables_def reload_passwords_def reload_keys_def Let_def split: option.split)

lemma load_auth_keys:
  assumes "key_map (sv_keys sv) = None"
  shows "keys_have_acl (load_auth sys auth cdir sv)"
proof -
  let ?ks = "\<lambda>f. set_key_file (format_path f cdir) (sv_keys sv)"
  have k: "key_map (?ks f) = None" for f using assms by (simp add: set_key_file_def)
  show ?thesis
    using assms key_table_acl [of sys "sv_acls sv"] k
    by (auto simp: load_auth_def keys_have_acl_def reload_passwords_def reload_keys_table Let_def
        split: option.splits)
      (metis option.distinct(1))+
qed

lemma load_acl_Returns:
  assumes "load_acl sys auth cdir sv = Returns sv'"
  shows "\<exists>data acls. sys_read_to_string sys (format_path (ca_acl auth) cdir) = Inr data \<and> sys_acl_yaml sys data = Inr acls \<and>
    sv' = sv\<lparr>sv_acls := \<lparr>db_acls = map_of (rev acls), db_path = format_path (ca_acl auth) cdir\<rparr>\<rparr>"
  using assms by (auto simp: load_acl_def reload_acl_def Db_reload_result Db_set_path_def split: sum.splits)

lemma server_start_tables: "same_but_tables sv sv' \<Longrightarrow> server_start ext sv' = server_start ext sv"
  by (simp add: same_but_tables_def server_start_def)

lemma server_inv_tables:
  "same_but_tables sv sv' \<Longrightarrow> server_inv ext clients invar queued capacity sv' = server_inv ext clients invar queued capacity sv"
  by (simp add: same_but_tables_def server_inv_def)

lemma launch_server_Inr:
  assumes "launch_server ext sys config ls timeout identity configs pid license p = Returns (Inr tasks, p')"
  shows "\<exists>acceptor rep. tasks = rep @ listener_tasks config ls timeout acceptor \<and>
    (acceptor = None \<longleftrightarrow> identity = None) \<and> (\<forall>x \<in> set rep. \<exists>c l. x = Replication c l)"
proof -
  let ?a = "case identity of
      Some identity \<Rightarrow> res_bind (map_err Error_from_tls (sys_acceptor sys identity)) (\<lambda>a. Inr (Some a)) | None \<Rightarrow> Inr None"
  let ?rep = "case configs of Some configs \<Rightarrow> if ext_cluster ext then [Replication configs license] else [] | None \<Rightarrow> []"
  obtain acceptor where a: "?a = Inr acceptor" and t: "tasks = ?rep @ listener_tasks config ls timeout acceptor"
    using assms by (auto simp: launch_server_def out_bind_Returns res_bind_Inr_iff split: sum.splits prod.splits)
  have "acceptor = None \<longleftrightarrow> identity = None" using a by (auto simp: res_bind_Inr_iff split: option.splits)
  moreover have "\<forall>x \<in> set ?rep. \<exists>c l. x = Replication c l" by (auto split: option.split)
  ultimately show ?thesis using t by blast
qed

lemma case_Running:
  "(case x of (r, p) \<Rightarrow> case r of Inl _ \<Rightarrow> Returns (Exit n (c p)) | Inr t \<Rightarrow> Returns (Running (f t) sv p)) =
     Returns (Running ts sv' p') \<longleftrightarrow> (\<exists>t. x = (Inr t, p') \<and> ts = f t \<and> sv' = sv)"
  by (cases x; cases "fst x") auto

lemma launch_Running:
  assumes "launch ext sys config ac ls cdir timeout standalone sv p = Returns (Running tasks sv' p')"
  obtains stats rest where "start_stats sys config = Returns stats" and "tasks = stats @ rest"
    and "launch_server ext sys config ls timeout (ac_tls_identity ac) (ac_replication_configs ac) standalone (ac_license ac) p =
      Returns (Inr rest, p')"
    and "load_databases sys config cdir standalone (set_statics config sv) = Returns sv'"
  using assms by (auto simp: launch_def out_bind_Returns case_Running)

lemma start_stats_Returns: "start_stats sys config = Returns stats \<Longrightarrow> x \<in> set stats \<Longrightarrow> \<exists>a. x = Stats_Listener a"
  by (auto simp: start_stats_def split: option.splits if_splits)

lemma launch_tcp:
  assumes "launch ext sys config ac ls cdir timeout standalone sv p = Returns (Running tasks sv' p')"
    and "Tcp_Listener a acceptor t allow \<in> set tasks"
  shows "a \<in> set (ls_tcp ls) \<and> t = timeout \<and> allow = cp_allow_no_tls (sc_proto config) \<and>
    (acceptor = None \<longleftrightarrow> ac_tls_identity ac = None)"
proof -
  obtain stats rest where 1: "start_stats sys config = Returns stats" and 2: "tasks = stats @ rest"
    and 3: "launch_server ext sys config ls timeout (ac_tls_identity ac) (ac_replication_configs ac) standalone (ac_license ac) p =
      Returns (Inr rest, p')"
    by (rule launch_Running [OF assms(1)])
  have "Tcp_Listener a acceptor t allow \<notin> set stats" using start_stats_Returns [OF 1] by auto
  then show ?thesis
    using launch_server_Inr [OF 3] assms(2) 2 by (auto simp: listener_tasks_def)
qed

subsection \<open>Greetings without TLS\<close>

lemma tcp_listener_params:
  "Tcp_Connection stream addr t' acceptor' allow' \<in> set (handle_tcp_listener acceptor t allow accepted) \<Longrightarrow>
     t' = t \<and> acceptor' = acceptor \<and> allow' = allow"
  by (induction acceptor t allow accepted rule: handle_tcp_listener.induct) auto

lemma init_tcp_refuses:
  assumes "\<nexists>header rest. length header = 2 \<and> pending (w_stream w) = header @ COMM_TLS # rest"
  shows "\<exists>e w'. init_tcp_stream timeout acceptor False nodelay w = (Inl e, w') \<and> w_server w' = w_server w \<and>
    s_out (w_stream w') = s_out (w_stream w)"
proof (cases nodelay)
  case (Inl e)
  then show ?thesis by (simp add: init_tcp_stream_def)
next
  case (Inr u)
  obtain r s where r: "read_with_timeout 3 timeout (w_stream w) = (r, s)" by (cases "read_with_timeout 3 timeout (w_stream w)")
  have s: "s_out s = s_out (w_stream w)"
    using read_with_timeout_frame(3) [where n = 3 and t = timeout and s = "w_stream w"] r by simp
  show ?thesis
  proof (cases r)
    case (Inl e)
    then show ?thesis using \<open>nodelay = Inr u\<close> r s by (simp add: init_tcp_stream_def io_bind_Inl)
  next
    case g: (Inr greeting)
    have l: "length greeting = 3" and p: "pending (w_stream w) = greeting @ pending s"
      using read_length_le [of 3 timeout "w_stream w" greeting s] r g by auto
    have "greeting = take 2 greeting @ [greeting ! 2]"
      using l take_Suc_conv_app_nth [of 2 greeting] by (simp add: numeral_3_eq_3)
    then have "pending (w_stream w) = take 2 greeting @ greeting ! 2 # pending s" using p by (metis append.assoc append_Cons append_Nil)
    moreover have "length (take 2 greeting) = 2" using l by simp
    ultimately have v: "greeting ! 2 \<noteq> COMM_TLS" using assms by metis
    show ?thesis
      using Inr r g s v
      by (cases "greeting_type greeting") (auto simp: init_tcp_stream_def io_bind_Inr io_bind_Inl io_bind_def Let_def)
  qed
qed

section \<open>A launch\<close>

text \<open>A machine on which every file holds one access list and every bind succeeds.\<close>

definition sample_sys :: "unit Sys" where
  "sample_sys =
     \<lparr>sys_read_to_string = (\<lambda>_. Inr []), sys_read = (\<lambda>_. Inr []), sys_write = (\<lambda>_. Inr ()), sys_write_opened = (\<lambda>_. True), sys_remove = (\<lambda>_. True),
      sys_acl_yaml = (\<lambda>_. Inr [(lit ''u'', sample_acl)]), sys_key_yaml = (\<lambda>_. Inr []), sys_cluster_yaml = (\<lambda>_. Inr []),
      sys_hex_decode = Inl, sys_from_pkcs12 = (\<lambda>_. Inr ()), sys_pem_to_pkcs8 = Inr, sys_from_pkcs8 = (\<lambda>_ _. Inr ()),
      sys_acceptor = (\<lambda>_. Inr Inr), sys_bind_unix = (\<lambda>_. Inr ()), sys_permissions = (\<lambda>_. Inr ()),
      sys_bind_tcp = (\<lambda>_. Inr ()), sys_bind_udp = (\<lambda>_. Inr ()), sys_is_addr = (\<lambda>_. True)\<rparr>"

definition sample_server_config :: Server_Config where
  "sample_server_config =
     \<lparr>sc_server = \<lparr>cs_workers = None, cs_latency_warn = 0, cs_data_queue = 2, cs_max_topic_depth = 9, cs_max_pub_size = 100,
        cs_max_topic_length = 50, cs_pid_file = Some (lit ''psrtd.pid''), cs_bind_stats = None, cs_license = None\<rparr>,
      sc_proto = \<lparr>cp_bind = Single (lit ''0.0.0.0:2873''), cp_bind_udp = StringOrList_default, cp_udp_frame_size = None,
        cp_timeout = None, cp_tls_pkcs12 = Some (lit ''p12''), cp_tls_cert = None, cp_tls_key = None, cp_fips = False,
        cp_allow_no_tls = False\<rparr>,
      sc_auth = \<lparr>ca_allow_anonymous = False, ca_password_file = None, ca_key_file = None, ca_acl = lit ''acl.yml''\<rparr>,
      sc_cluster = None\<rparr>"

abbreviation sample_listeners :: Listeners where
  "sample_listeners \<equiv> \<lparr>ls_tcp = [lit ''0.0.0.0:2873''], ls_udp = [], ls_unix = []\<rparr>"

abbreviation sample_additional :: "unit AdditinalConfigs" where
  "sample_additional \<equiv> \<lparr>ac_tls_identity = Some (), ac_replication_configs = None, ac_license = None\<rparr>"

definition sample_boot :: "(list_map, fifo) Server" where
  "sample_boot = sample_start\<lparr>sv_keys := Keys_default\<rparr>"

abbreviation sample_process :: Process where
  "sample_process \<equiv> \<lparr>pr_pid_file = None, pr_unix_sockets = {}, pr_files = {}\<rparr>"

lemma sample_launch:
  "\<exists>sv' p'. launch sample_ext sample_sys sample_server_config sample_additional sample_listeners [] 5 True sample_boot sample_process =
     Returns (Running [Tcp_Listener (lit ''0.0.0.0:2873'') (Some Inr) 5 False] sv' p')"
  by (simp add: launch_def load_databases_def load_acl_def reload_acl_def Db_reload_result load_auth_def start_stats_def
      launch_server_def create_pid_def expect_def listener_tasks_def sample_sys_def sample_server_config_def)

section \<open>Properties\<close>

text \<open>
  C21: what a launch establishes.  A server that is running after \<^verbatim>\<open>launch\<close> has the limits of the
  configuration and is in a start state of the server's state machine, so all that holds in reachable
  states holds from here on; standalone, the access lists are those of the configured file (a file
  that cannot be loaded stops the launch), and every UDP key belongs to a login with an access list.
\<close>

theorem launch_establishes_start:
  assumes "launch ext sys config ac ls cdir timeout standalone sv p = Returns (Running tasks sv' p')"
    and "server_start ext sv" and "key_map (sv_keys sv) = None"
  shows "server_start ext sv' \<and> server_reachable ext sv' \<and>
    sv_statics sv' =
      \<lparr>ALLOW_ANONYMOUS = ca_allow_anonymous (sc_auth config), MAX_PUB_SIZE = cs_max_pub_size (sc_server config),
       MAX_TOPIC_LENGTH = cs_max_topic_length (sc_server config), MAX_TOPIC_DEPTH = cs_max_topic_depth (sc_server config),
       DATA_QUEUE_SIZE = cs_data_queue (sc_server config), LATENCY_WARN = cs_latency_warn (sc_server config)\<rparr> \<and>
    keys_have_acl sv' \<and>
    (standalone \<longrightarrow> (\<exists>data acls.
       sys_read_to_string sys (format_path (ca_acl (sc_auth config)) cdir) = Inr data \<and> sys_acl_yaml sys data = Inr acls \<and>
       db_acls (sv_acls sv') = map_of (rev acls)))"
proof -
  let ?sv1 = "set_statics config sv"
  have s1: "server_start ext ?sv1" "key_map (sv_keys ?sv1) = None"
    using assms(2,3) by (simp_all add: set_statics_def server_start_def)
  have l: "load_databases sys config cdir standalone ?sv1 = Returns sv'" by (rule launch_Running [OF assms(1)])
  have "server_start ext sv' \<and> sv_statics sv' = sv_statics ?sv1 \<and> keys_have_acl sv' \<and>
    (standalone \<longrightarrow> (\<exists>data acls.
       sys_read_to_string sys (format_path (ca_acl (sc_auth config)) cdir) = Inr data \<and> sys_acl_yaml sys data = Inr acls \<and>
       db_acls (sv_acls sv') = map_of (rev acls)))"
  proof (cases standalone)
    case True
    then obtain sv2 where a: "load_acl sys (sc_auth config) cdir ?sv1 = Returns sv2"
      and sv': "sv' = load_auth sys (sc_auth config) cdir sv2"
      using l by (auto simp: load_databases_def out_bind_Returns)
    from load_acl_Returns [OF a] obtain data acls
      where acls: "sys_read_to_string sys (format_path (ca_acl (sc_auth config)) cdir) = Inr data" "sys_acl_yaml sys data = Inr acls"
        and sv2: "sv2 = ?sv1\<lparr>sv_acls := \<lparr>db_acls = map_of (rev acls), db_path = format_path (ca_acl (sc_auth config)) cdir\<rparr>\<rparr>"
      by blast
    have "server_start ext sv2" "key_map (sv_keys sv2) = None" "sv_statics sv2 = sv_statics ?sv1"
      using s1 by (simp_all add: sv2 server_start_def)
    moreover note tables = load_auth_tables [of sv2 sys "sc_auth config" cdir]
    ultimately have "server_start ext sv'" "keys_have_acl sv'" "sv_statics sv' = sv_statics ?sv1"
      using load_auth_keys [of sv2 sys "sc_auth config" cdir] server_start_tables [of sv2 sv' ext]
      by (simp_all add: sv' same_but_tables_def)
    moreover have "db_acls (sv_acls sv') = map_of (rev acls)" using tables by (simp add: sv' sv2)
    ultimately show ?thesis using acls by blast
  next
    case False
    then show ?thesis using l s1 by (simp add: load_databases_def keys_have_acl_def)
  qed
  then show ?thesis by (auto simp: set_statics_def Let_def intro!: server_reachable.start Statics.equality)
qed

theorem launch_establishes_start_witness:
  "\<exists>tasks sv' p'. launch sample_ext sample_sys sample_server_config sample_additional sample_listeners [] 5 True sample_boot sample_process =
     Returns (Running tasks sv' p') \<and> server_reachable sample_ext sv' \<and> DATA_QUEUE_SIZE (sv_statics sv') = 2"
proof -
  obtain sv' p' where l: "launch sample_ext sample_sys sample_server_config sample_additional sample_listeners [] 5 True sample_boot sample_process =
     Returns (Running [Tcp_Listener (lit ''0.0.0.0:2873'') (Some Inr) 5 False] sv' p')"
    using sample_launch by blast
  have "server_start sample_ext sample_boot" "key_map (sv_keys sample_boot) = None"
    by (auto simp: server_start_def sample_boot_def sample_start_def empty_cell_def Keys_default_def sample_queue_new)
  from launch_establishes_start [OF l this] l show ?thesis by (auto simp: sample_server_config_def)
qed

text \<open>
  C34: a hangup signal reloads the tables and nothing else.  Each table is replaced by the content of
  its file, or stays in force when the file cannot be read or parsed; the keys are filtered by the
  access lists that have just been loaded, and the sessions, subscriptions and queues are untouched,
  so the invariant of the server is kept.
\<close>

theorem hangup_reloads_tables:
  "same_but_tables sv (hangup sys sv) \<and>
   db_acls (sv_acls (hangup sys sv)) = acl_table sys (sv_acls sv) \<and>
   pw_map (sv_passwords (hangup sys sv)) = password_table sys (sv_passwords sv) \<and>
   key_map (sv_keys (hangup sys sv)) = key_table sys (sv_acls (hangup sys sv)) (sv_keys sv) \<and>
   (key_map (sv_keys (hangup sys sv)) = key_map (sv_keys sv) \<or> keys_have_acl (hangup sys sv)) \<and>
   server_inv ext clients invar queued capacity (hangup sys sv) = server_inv ext clients invar queued capacity sv"
proof -
  let ?sv = "hangup sys sv"
  have h: "?sv = sv\<lparr>sv_acls := (sv_acls sv)\<lparr>db_acls := acl_table sys (sv_acls sv)\<rparr>,
      sv_passwords := (sv_passwords sv)\<lparr>pw_map := password_table sys (sv_passwords sv)\<rparr>,
      sv_keys := (sv_keys sv)\<lparr>key_map :=
        key_table sys ((sv_acls sv)\<lparr>db_acls := acl_table sys (sv_acls sv)\<rparr>) (sv_keys sv)\<rparr>\<rparr>"
    by (simp add: hangup_def reload_acl_table reload_passwords_table reload_keys_table)
  have s: "same_but_tables sv ?sv" by (simp add: h same_but_tables_def)
  have k: "key_map (sv_keys ?sv) = key_table sys (sv_acls ?sv) (sv_keys sv)" by (simp add: h)
  have "key_map (sv_keys ?sv) = key_map (sv_keys sv) \<or> keys_have_acl ?sv"
    using key_table_acl [of sys "sv_acls ?sv" "sv_keys sv"] unfolding keys_have_acl_def k by blast
  then show ?thesis using s k server_inv_tables [OF s] by (simp add: h)
qed

text \<open>
  C20: without \<^verbatim>\<open>allow_no_tls\<close> nobody gets past the greeting in clear text.  Whatever connections a TCP
  listener of a running server accepts, one whose greeting does not ask for TLS ends with an error,
  nothing is written to it, and the server is not changed.
\<close>

theorem plain_connections_refused:
  assumes "launch ext sys config ac ls cdir timeout standalone sv p = Returns (Running tasks sv' p')"
    and "Tcp_Listener a acceptor t allow \<in> set tasks" and "\<not> cp_allow_no_tls (sc_proto config)"
    and "Tcp_Connection stream addr t' acceptor' allow' \<in> set (handle_tcp_listener acceptor t allow accepted)"
    and "\<nexists>header rest. length header = 2 \<and> pending stream = header @ COMM_TLS # rest"
  shows "\<exists>e w'. handle_connection ext nodelay (Tcp_Connection stream addr t' acceptor' allow') sv1 = Some (Inl e, w') \<and>
    w_server w' = sv1 \<and> s_out (w_stream w') = s_out stream"
proof -
  have "allow' = False" using tcp_listener_params [OF assms(4)] launch_tcp [OF assms(1,2)] assms(3) by simp
  moreover have "\<nexists>header rest. length header = 2 \<and> pending (w_stream \<lparr>w_stream = stream, w_server = sv1\<rparr>) = header @ COMM_TLS # rest"
    using assms(5) by simp
  ultimately obtain e w' where "init_tcp_stream t' acceptor' allow' nodelay \<lparr>w_stream = stream, w_server = sv1\<rparr> = (Inl e, w')"
    "w_server w' = sv1" "s_out (w_stream w') = s_out stream"
    using init_tcp_refuses [of "\<lparr>w_stream = stream, w_server = sv1\<rparr>" t' acceptor' nodelay] by auto
  then show ?thesis by (simp add: handle_tcp_stream_def tcp_login_def io_bind_Inl)
qed

theorem plain_connections_refused_witness:
  "\<exists>e w'. handle_connection sample_ext (Inr ()) (Tcp_Connection
      (SStream_new (map (Pair 0) (CONTROL_HEADER @ [COMM_INSECURE])) None 0 5) (lit ''peer'') 5 (Some Inr) False) sample_server =
        Some (Inl e, w') \<and> w_server w' = sample_server \<and> s_out (w_stream w') = []"
proof -
  let ?s = "SStream_new (map (Pair 0) (CONTROL_HEADER @ [COMM_INSECURE])) None 0 5"
  obtain sv' p' where l: "launch sample_ext sample_sys sample_server_config sample_additional sample_listeners [] 5 True sample_boot sample_process =
     Returns (Running [Tcp_Listener (lit ''0.0.0.0:2873'') (Some Inr) 5 False] sv' p')"
    using sample_launch by blast
  have "pending ?s = [0xEE, 0xAA, COMM_INSECURE]"
    by (simp add: SStream_new_def pending_def CONTROL_HEADER_def)
  then have p: "\<nexists>header rest. length header = 2 \<and> pending ?s = header @ COMM_TLS # rest"
    by (auto simp: length_Suc_conv numeral_2_eq_2 COMM_INSECURE_def COMM_TLS_def)
  have c: "Tcp_Connection ?s (lit ''peer'') 5 (Some Inr) False \<in>
      set (handle_tcp_listener (Some Inr) 5 False [Inr (?s, lit ''peer'')])" by simp
  have "s_out ?s = []" by (simp add: SStream_new_def)
  then show ?thesis
    using plain_connections_refused [OF l _ _ c p, of "lit ''0.0.0.0:2873''" "Inr ()" sample_server]
    by (simp add: sample_server_config_def)
qed

end
