(* ===== verification/Server_Main.thy ===== *)
theory Server_Main
  imports Server_Launch
begin

text \<open>
  The process around the server: the command line, the choice of the logger and its lines, the search
  for the configuration file, \<^verbatim>\<open>main\<close> of \<^verbatim>\<open>src/src/server.rs\<close> and of \<^verbatim>\<open>src/src/eva_svc.rs\<close>, and the end of
  the process on a signal.  The environment of the process, the forking and the runtime are the record
  \<open>Host\<close>; the service bus is the record \<open>Initial\<close>.
\<close>

section \<open>Options and logging\<close>

record Server_Opts =
  so_config_file :: "str option"
  so_verbose :: bool
  so_log_syslog :: bool
  so_daemonize :: bool
  so_eva_svc :: bool

datatype Level = Level_Trace | Level_Debug | Level_Info | Level_Warn | Level_Error

datatype LevelFilter = Filter_Info | Filter_Trace

record SimpleLogger =
  log_time :: bool

definition SimpleLogger_new :: SimpleLogger where
  "SimpleLogger_new = \<lparr>log_time = True\<rparr>"

text \<open>Under systemd, which sets \<^verbatim>\<open>INVOCATION_ID\<close>, the lines carry no time.\<close>

definition SimpleLogger_init :: "(str \<Rightarrow> str option) \<Rightarrow> SimpleLogger \<Rightarrow> SimpleLogger" where
  "SimpleLogger_init env l = l\<lparr>log_time := (env (lit ''INVOCATION_ID'') = None)\<rparr>"

datatype style = Black_Dimmed | Dimmed | Yellow_Bold | Red | Normal

fun level_style :: "Level \<Rightarrow> style" where
  "level_style Level_Trace = Black_Dimmed"
| "level_style Level_Debug = Dimmed"
| "level_style Level_Warn = Yellow_Bold"
| "level_style Level_Error = Red"
| "level_style Level_Info = Normal"

definition SimpleLogger_log :: "str \<Rightarrow> Level \<Rightarrow> str \<Rightarrow> SimpleLogger \<Rightarrow> style \<times> str" where
  "SimpleLogger_log now level args l =
     (level_style level, if log_time l then now @ lit ''  '' @ args else args)"

text \<open>The logger of a process: its own one, or the system's.\<close>

datatype Logger = Simple_Log SimpleLogger LevelFilter | Syslog LevelFilter

definition set_verbose_logger :: "(str \<Rightarrow> str option) \<Rightarrow> LevelFilter \<Rightarrow> Logger" where
  "set_verbose_logger env level_filter = Simple_Log (SimpleLogger_init env SimpleLogger_new) level_filter"

datatype Fork = Fork_Parent | Fork_Child

record Host =
  ho_hostname :: "str option"
  ho_env :: "str \<Rightarrow> str option"
  ho_syslog :: bool
  ho_canonicalize :: "str \<Rightarrow> io_error + str"
  ho_config_yaml :: "str \<Rightarrow> Error + Server_Config"
  ho_fips :: "Error + unit"
  ho_daemon :: "Fork option"
  ho_runtime :: "nat \<Rightarrow> unit outcome"

definition host_name :: "Host \<Rightarrow> str" where
  "host_name host = (case ho_hostname host of Some name \<Rightarrow> name | None \<Rightarrow> lit ''unknown'')"

definition choose_logger :: "Host \<Rightarrow> Server_Opts \<Rightarrow> Logger" where
  "choose_logger host opts =
     (if so_verbose opts then set_verbose_logger (ho_env host) Filter_Trace
      else if (\<not> so_daemonize opts \<or> or_default (lit ''0'') (ho_env host (lit ''DISABLE_SYSLOG'')) = lit ''1'') \<and>
          \<not> so_log_syslog opts then set_verbose_logger (ho_env host) Filter_Info
      else if ho_syslog host then Syslog Filter_Info
      else set_verbose_logger (ho_env host) Filter_Info)"

section \<open>The configuration file\<close>

definition CONFIG_FILES :: "str list" where
  "CONFIG_FILES = [lit ''/etc/psrtd/config.yml'', lit ''/usr/local/etc/psrtd/config.yml'']"

text \<open>The first of the files that is there, with its name; a file that is there must be readable.\<close>

fun search_config :: "'id Sys \<Rightarrow> str list \<Rightarrow> (str \<times> str) option outcome" where
  "search_config sys [] = Returns None"
| "search_config sys (cfile # cfiles) =
     (case sys_read_to_string sys cfile of
        Inr v \<Rightarrow> Returns (Some (v, cfile))
      | Inl e \<Rightarrow>
          if io_kind e = NotFound then search_config sys cfiles
          else Panics (lit ''Unable to read '' @ cfile @ lit '': '' @ io_text e))"

definition read_config :: "'id Sys \<Rightarrow> Server_Opts \<Rightarrow> (str \<times> str) outcome" where
  "read_config sys opts =
     (case so_config_file opts of
        Some cfile \<Rightarrow>
          expect (lit ''unable to read config'') (sys_read_to_string sys cfile) (\<lambda>cfg. Returns (cfg, cfile))
      | None \<Rightarrow>
          out_bind (search_config sys CONFIG_FILES) (\<lambda>found.
          case found of
            Some x \<Rightarrow> Returns x
          | None \<Rightarrow> Panics (lit ''Unable to read config ('' @
              CONFIG_FILES ! 0 @ lit '', '' @ CONFIG_FILES ! 1 @ lit '')'')))"

text \<open>
  \<^verbatim>\<open>Path::parent\<close>: the path without its last component.  Empty components and dots after the first
  component do not count; the result is the same path as Rust's, written from its components.
\<close>

definition path_components :: "str \<Rightarrow> str list" where
  "path_components path =
     (let cs = split_on slash path; rest = filter (\<lambda>c. c \<noteq> [] \<and> c \<noteq> lit ''.'') cs in
      if str_starts_with (lit ''/'') path then [slash] # rest
      else if cs \<noteq> [] \<and> hd cs = lit ''.'' then lit ''.'' # rest
      else rest)"

definition path_of :: "str list \<Rightarrow> str" where
  "path_of cs = (if cs \<noteq> [] \<and> hd cs = [slash] then slash # join_with slash (tl cs) else join_with slash cs)"

definition path_parent :: "str \<Rightarrow> str option" where
  "path_parent path =
     (let cs = path_components path in if cs = [] \<or> last cs = [slash] then None else Some (path_of (butlast cs)))"

definition config_path :: "str \<Rightarrow> str" where
  "config_path cfile =
     (if str_starts_with (lit ''.'') cfile \<or> str_starts_with (lit ''/'') cfile then cfile else lit ''./'' @ cfile)"

definition config_dir :: "Host \<Rightarrow> str \<Rightarrow> str outcome" where
  "config_dir host cfile =
     expect (lit ''Unable to get config dir'') (ok_or () (path_parent (config_path cfile))) (\<lambda>dir.
     expect (lit ''Unable to parse config path'') (ho_canonicalize host dir) Returns)"

section \<open>The standalone process\<close>

text \<open>The bit pattern of \<^verbatim>\<open>5.0\<close>.\<close>

definition DEFAULT_TIMEOUT_SECS :: u64 where
  "DEFAULT_TIMEOUT_SECS = 0x4014000000000000"

definition DEFAULT_STANDALONE_WORKERS :: nat where
  "DEFAULT_STANDALONE_WORKERS = 1"

definition server_timeout :: "Server_Config \<Rightarrow> duration outcome" where
  "server_timeout config = from_secs_f64 (or_default DEFAULT_TIMEOUT_SECS (cp_timeout (sc_proto config)))"

text \<open>Where \<^verbatim>\<open>main\<close> hands over: to the service, to the other process of a fork, or to the server.\<close>

datatype ('m, 'ch) main_end = To_Service | Forked | Launched "('m, 'ch) launched"

definition psrtd_main ::
  "('m, 'ch) Ext \<Rightarrow> 'id Sys \<Rightarrow> Host \<Rightarrow> Server_Opts \<Rightarrow> ('m, 'ch) Server \<Rightarrow> Process \<Rightarrow> ('m, 'ch) main_end outcome" where
  "psrtd_main ext sys host opts sv p =
     (if so_eva_svc opts then Returns To_Service
      else
        out_bind (read_config sys opts) (\<lambda>(cfg, cfile).
        out_bind (config_dir host cfile) (\<lambda>cdir.
        unwrap (ho_config_yaml host cfg) (\<lambda>config.
        out_bind (if cp_fips (sc_proto config) then unwrap (ho_fips host) Returns else Returns ()) (\<lambda>_.
        if so_daemonize opts \<and> ho_daemon host = Some Fork_Child then Returns Forked
        else
          out_bind (server_timeout config) (\<lambda>timeout.
          out_bind (ho_runtime host (or_default DEFAULT_STANDALONE_WORKERS (cs_workers (sc_server config)))) (\<lambda>_.
          out_bind (run_standalone ext sys config cdir timeout sv p) (\<lambda>l. Returns (Launched l)))))))))"

text \<open>The end on a signal: the \<^verbatim>\<open>pid\<close> file and the sockets are removed, the exit code is 0.\<close>

definition terminate :: "'id Sys \<Rightarrow> Process \<Rightarrow> nat \<times> Process" where
  "terminate sys p =
     (0, cleanup sys (case pr_pid_file p of Some f \<Rightarrow> remove_file sys f p | None \<Rightarrow> p))"

text \<open>The handler of a signal; \<open>bound\<close> tells whether the signal could be bound.\<close>

definition handle_term_signal :: "'id Sys \<Rightarrow> bool \<Rightarrow> Process \<Rightarrow> (nat \<times> Process) option" where
  "handle_term_signal sys bound p = (if bound then Some (terminate sys p) else None)"

section \<open>The service\<close>

record ('c, 'e) Initial =
  in_config :: "'c option"
  in_deserialize :: "'c \<Rightarrow> 'e + Server_Config"
  in_invalid_data :: "str \<Rightarrow> 'e"
  in_failed :: "Error \<Rightarrow> 'e"
  in_rpc :: "str list \<Rightarrow> 'e + unit"
  in_logs :: "'e + unit"
  in_eva_dir :: str
  in_timeout :: duration
  in_drop_privileges :: "'e + unit"
  in_ready :: "'e + unit"
  in_terminating :: "'e + unit"

definition service_methods :: "('m, 'ch) Ext \<Rightarrow> str list" where
  "service_methods ext =
     [lit ''stats.counters'', lit ''stats.clients''] @ (if ext_cluster ext then [lit ''stats.cluster''] else [])"

text \<open>The service from its start to the exit with code 0 once it is told to end.\<close>

definition service_main ::
  "('m, 'ch) Ext \<Rightarrow> 'id Sys \<Rightarrow> ('c, 'e) Initial \<Rightarrow> ('m, 'ch) Server \<Rightarrow> Process \<Rightarrow>
     ('e + nat \<times> ('m, 'ch) launched) outcome" where
  "service_main ext sys ini sv p =
     (let config = res_bind (ok_or (in_invalid_data ini (lit ''config not specified'')) (in_config ini)) (in_deserialize ini) in
      case res_bind config (\<lambda>config.
           res_bind (in_rpc ini (service_methods ext)) (\<lambda>_.
           res_bind (in_logs ini) (\<lambda>_. Inr config))) of
        Inl e \<Rightarrow> Returns (Inl e)
      | Inr config \<Rightarrow>
          out_bind (case cp_timeout (sc_proto config) of None \<Rightarrow> Returns (in_timeout ini) | Some f \<Rightarrow> from_secs_f64 f) (\<lambda>timeout.
          out_bind (run_service ext sys (in_failed ini) config (in_eva_dir ini) timeout (in_drop_privileges ini) sv p) (\<lambda>r.
          Returns
            (res_bind r (\<lambda>l.
             res_bind (in_ready ini) (\<lambda>_.
             res_bind (in_terminating ini) (\<lambda>_. Inr (0, l))))))))"

section \<open>Lemmas\<close>

text \<open>The search stops at the first file that is there.\<close>

lemma search_config_first:
  assumes "search_config sys fs = Returns (Some (v, f))"
  shows "\<exists>before after. fs = before @ f # after \<and> sys_read_to_string sys f = Inr v \<and>
    (\<forall>g \<in> set before. \<exists>e. sys_read_to_string sys g = Inl e \<and> io_kind e = NotFound)"
  using assms
proof (induction fs)
  case (Cons g fs)
  show ?case
  proof (cases "sys_read_to_string sys g")
    case (Inl e)
    then have e: "io_kind e = NotFound" and "search_config sys fs = Returns (Some (v, f))"
      using Cons.prems by (auto split: if_splits)
    with Cons.IH obtain before after where "fs = before @ f # after" "sys_read_to_string sys f = Inr v"
      "\<forall>g \<in> set before. \<exists>e. sys_read_to_string sys g = Inl e \<and> io_kind e = NotFound"
      by blast
    with Inl e show ?thesis by (intro exI [of _ "g # before"] exI [of _ after]) simp
  next
    case (Inr w)
    then show ?thesis using Cons.prems by (intro exI [of _ "[]"] exI [of _ fs]) simp
  qed
qed simp

text \<open>The files that binding the listeners makes: the sockets of the configuration.\<close>

definition unix_binds :: "str \<Rightarrow> str list \<Rightarrow> str set" where
  "unix_binds cdir bs = (\<lambda>b. format_path b cdir) ` {b \<in> set bs. is_unix_socket b}"

lemma bind_stream_files:
  assumes "bind_stream sys cdir b ls p = (Inr ls', p')"
  shows "pr_pid_file p' = pr_pid_file p \<and> pr_unix_sockets p' = pr_unix_sockets p \<union> unix_binds cdir [b] \<and>
    pr_files p' = pr_files p \<union> unix_binds cdir [b] \<and> set (ls_unix ls') = set (ls_unix ls) \<union> unix_binds cdir [b]"
  using assms
  by (auto simp: bind_stream_def unix_binds_def remove_file_def Let_def elim!: io_bind_Inr_cases split: if_splits)

lemma bind_streams_files:
  assumes "bind_streams sys cdir bs ls p = (Inr ls', p')"
  shows "pr_pid_file p' = pr_pid_file p \<and> pr_unix_sockets p' = pr_unix_sockets p \<union> unix_binds cdir bs \<and>
    pr_files p' = pr_files p \<union> unix_binds cdir bs \<and> set (ls_unix ls') = set (ls_unix ls) \<union> unix_binds cdir bs"
  using assms
proof (induction bs arbitrary: ls p)
  case Nil
  then show ?case by (simp add: unix_binds_def)
next
  case (Cons b bs)
  obtain l1 p1 where 1: "bind_stream sys cdir b ls p = (Inr l1, p1)" and 2: "bind_streams sys cdir bs l1 p1 = (Inr ls', p')"
    using Cons.prems by (auto elim: io_bind_Inr_cases)
  have "unix_binds cdir (b # bs) = unix_binds cdir [b] \<union> unix_binds cdir bs" by (auto simp: unix_binds_def)
  then show ?case using bind_stream_files [OF 1] Cons.IH [OF 2] by auto
qed

lemma bind_datagrams_files:
  "bind_datagrams sys bs ls p = (Inr ls', p') \<Longrightarrow> p' = p \<and> ls_unix ls' = ls_unix ls"
proof (induction bs arbitrary: ls p)
  case (Cons b bs)
  then show ?case by (auto elim!: io_bind_Inr_cases)
qed simp

lemma Listeners_create_files:
  assumes "Listeners_create sys proto cdir p = (Inr ls, p')"
  shows "pr_pid_file p' = pr_pid_file p \<and>
    pr_unix_sockets p' = pr_unix_sockets p \<union> unix_binds cdir (string_or_list (cp_bind proto)) \<and>
    pr_files p' = pr_files p \<union> unix_binds cdir (string_or_list (cp_bind proto)) \<and>
    set (ls_unix ls) = unix_binds cdir (string_or_list (cp_bind proto))"
proof -
  obtain l1 p1 where 1: "bind_streams sys cdir (string_or_list (cp_bind proto)) \<lparr>ls_tcp = [], ls_udp = [], ls_unix = []\<rparr> p = (Inr l1, p1)"
    and 2: "bind_datagrams sys (string_or_list (cp_bind_udp proto)) l1 p1 = (Inr ls, p')"
    using assms by (auto simp: Listeners_create_def elim: io_bind_Inr_cases)
  show ?thesis using bind_streams_files [OF 1] bind_datagrams_files [OF 2] by simp
qed

lemma create_pid_process:
  assumes "create_pid sys f p = (r, p')"
  shows "pr_unix_sockets p' = pr_unix_sockets p \<and> pr_pid_file p' = Some f \<and>
    (r = Inr () \<longrightarrow> pr_files p' = insert f (pr_files p))"
  using assms by (auto simp: create_pid_def Let_def split: sum.splits if_splits)

lemma launch_server_process:
  assumes "launch_server ext sys config ls timeout identity configs True license p = Returns (r, p')"
  shows "pr_unix_sockets p' = pr_unix_sockets p \<and>
    (\<forall>tasks. r = Inr tasks \<longrightarrow> (\<exists>pid. cs_pid_file (sc_server config) = Some pid \<and> pr_pid_file p' = Some pid \<and>
       pr_files p' = insert pid (pr_files p)))"
proof (cases "p' = p \<and> (\<exists>e. r = Inl e)")
  case False
  then obtain pid w tasks where "cs_pid_file (sc_server config) = Some pid" and "create_pid sys pid p = (w, p')"
    and "r = res_bind w (\<lambda>_. Inr tasks)"
    using assms by (auto simp: launch_server_def outcome_simps split: sum.splits prod.splits)
  then show ?thesis using create_pid_process [of sys pid p w p'] by (auto simp: res_bind_Inr_iff)
qed auto

lemma case_sum_Returns:
  "(case r of Inl e \<Rightarrow> Returns (f e) | Inr x \<Rightarrow> Returns (g x)) = Returns (case r of Inl e \<Rightarrow> f e | Inr x \<Rightarrow> g x)"
  by (cases r) auto

lemma run_standalone_process:
  assumes "run_standalone ext sys config cdir timeout sv p = Returns l" and "pr_unix_sockets p = {}"
  defines "socks \<equiv> unix_binds cdir (string_or_list (cp_bind (sc_proto config)))"
  shows "(\<forall>tasks sv' p'. l = Running tasks sv' p' \<longrightarrow> pr_unix_sockets p' = socks \<and>
      (\<exists>pid. cs_pid_file (sc_server config) = Some pid \<and> pr_pid_file p' = Some pid \<and> pr_files p' = insert pid (pr_files p \<union> socks))) \<and>
    (\<forall>n p'. l = Exit n p' \<longrightarrow> (\<exists>q. n = 1 \<and> p' = cleanup sys q \<and> pr_unix_sockets q = socks))"
proof -
  obtain ac ls p1 where 1: "Listeners_create sys (sc_proto config) cdir p = (Inr ls, p1)"
    and 2: "launch ext sys config ac ls cdir timeout True sv p1 = Returns l"
    using assms(1) by (cases "Listeners_create sys (sc_proto config) cdir p") (auto simp: run_standalone_def outcome_simps)
  obtain r p2 stats sv1 where 3: "launch_server ext sys config ls timeout (ac_tls_identity ac) (ac_replication_configs ac) True
      (ac_license ac) p1 = Returns (r, p2)"
    and l: "l = (case r of Inl _ \<Rightarrow> Exit 1 (cleanup sys p2) | Inr tasks \<Rightarrow> Running (stats @ tasks) sv1 p2)"
    using 2 by (auto simp: launch_def outcome_simps case_sum_Returns)
  show ?thesis
    using Listeners_create_files [OF 1] launch_server_process [OF 3] assms(2) l
    by (cases r) (auto simp: socks_def)
qed

section \<open>Properties\<close>


definition sample_host :: Host where
  "sample_host =
     \<lparr>ho_hostname = None, ho_env = (\<lambda>_. None), ho_syslog = True, ho_canonicalize = Inr,
      ho_config_yaml = (\<lambda>_. Inr sample_server_config), ho_fips = Inr (), ho_daemon = None, ho_runtime = (\<lambda>_. Returns ())\<rparr>"

abbreviation sample_opts :: Server_Opts where
  "sample_opts \<equiv> \<lparr>so_config_file = Some (lit ''c.yml''), so_verbose = False, so_log_syslog = False, so_daemonize = False,
     so_eva_svc = False\<rparr>"


end
