(* ===== verification/Cli.thy ===== *)
theory Cli
  imports Client
begin

text \<open>
  The command-line client, \<^verbatim>\<open>src/src/cli.rs\<close>: its configuration of a client, what it publishes and
  subscribes to and the statistics of \<^verbatim>\<open>--top\<close>.  The terminal and the parser of byte units are
  parameters; a failed \<^verbatim>\<open>unwrap\<close> or \<^verbatim>\<open>expect\<close> is the outcome \<open>Panics\<close>.
\<close>

section \<open>Options\<close>

text \<open>The timeout, given in seconds, is already a duration.\<close>

record Opts =
  op_path :: str
  op_user :: "str option"
  op_password :: "str option"
  op_top :: bool
  op_topic :: "str option"
  op_message :: "str option"
  op_benchmark :: bool
  op_benchmark_iterations :: u32
  op_benchmark_workers :: u32
  op_benchmark_cluster_sub :: "str option"
  op_timeout :: duration
  op_tls :: bool
  op_tls_ca :: "str option"

definition str_or_default :: "str option \<Rightarrow> str" where
  "str_or_default s = (case s of Some s \<Rightarrow> s | None \<Rightarrow> [])"

text \<open>The configuration of the client; \<open>tls_ca\<close> is the content of the certificate file.\<close>

definition cli_config :: "Opts \<Rightarrow> str option \<Rightarrow> Config" where
  "cli_config opts tls_ca =
     (let queue_size = (if op_benchmark opts then 256000 else 4096) in
      set_tls_ca tls_ca (set_tls (op_tls opts) (set_socket_wait_timeout (op_timeout opts) (set_timeout (op_timeout opts)
        (set_queue_size queue_size (set_auth (str_or_default (op_user opts)) (str_or_default (op_password opts))
          (Config_new (op_path opts))))))))"

text \<open>Outside the benchmark and \<^verbatim>\<open>--top\<close>, a client that only publishes needs no data stream.\<close>

definition cli_run_config :: "Opts \<Rightarrow> Config \<Rightarrow> Config" where
  "cli_run_config opts config = (if op_message opts \<noteq> None then disable_data_stream config else config)"

definition ERR_TOPIC_NOT_SPECIFIED :: str where
  "ERR_TOPIC_NOT_SPECIFIED = lit ''Topic not specified''"

definition cli_parse_topics :: "str option \<Rightarrow> str list outcome" where
  "cli_parse_topics topic =
     (case topic of
        Some t \<Rightarrow> Returns (split_on (of_char CHR '','') t)
      | None \<Rightarrow> Panics ERR_TOPIC_NOT_SPECIFIED)"

text \<open>Test data of a given size: \<^verbatim>\<open>i as u8\<close> for every index.\<close>

definition counting_bytes :: "nat \<Rightarrow> bytes" where
  "counting_bytes n = map word_of_nat [0..<n]"

text \<open>What a message given as \<^verbatim>\<open>-m\<close> publishes; \<open>parse_size\<close> reads a number of bytes with a unit.\<close>

definition cli_payload :: "(str \<Rightarrow> nat option) \<Rightarrow> str \<Rightarrow> bytes outcome" where
  "cli_payload parse_size msg =
     (if str_starts_with (lit ''=='') msg then
        (case parse_size (drop 2 msg) of
           Some n \<Rightarrow> Returns (counting_bytes n)
         | None \<Rightarrow> Panics (lit ''called Result::unwrap() on an Err value''))
      else Returns msg)"

section \<open>The statistics of --top\<close>

record TopicStat =
  ts_topic :: str
  ts_count :: u64
  ts_bytes :: "128 word"

definition TopicStat_new :: "str \<Rightarrow> TopicStat" where
  "TopicStat_new topic = \<lparr>ts_topic = topic, ts_count = 0, ts_bytes = 0\<rparr>"

definition TopicStat_count :: "nat \<Rightarrow> TopicStat \<Rightarrow> TopicStat" where
  "TopicStat_count n s = s\<lparr>ts_bytes := ts_bytes s + word_of_nat n, ts_count := ts_count s + 1\<rparr>"

text \<open>The \<^verbatim>\<open>BTreeMap\<close> of the topics, in the order of its keys, and one received message.\<close>

fun top_record :: "Message \<Rightarrow> TopicStat list \<Rightarrow> TopicStat list" where
  "top_record m [] = [TopicStat_count (length (msg_data m)) (TopicStat_new (msg_topic m))]"
| "top_record m (s # ss) =
     (if msg_topic m = ts_topic s then TopicStat_count (length (msg_data m)) s # ss
      else if msg_topic m < ts_topic s then
        TopicStat_count (length (msg_data m)) (TopicStat_new (msg_topic m)) # s # ss
      else s # top_record m ss)"

text \<open>The rows of the table: the largest first, by count or by bytes, as many as fit.\<close>

definition top_rows :: "u8 \<Rightarrow> nat \<Rightarrow> TopicStat list \<Rightarrow> TopicStat list" where
  "top_rows sort_mode height stats =
     take (height - 4) (sort_key (\<lambda>s. - int (if sort_mode = 0 then unat (ts_count s) else unat (ts_bytes s))) stats)"

text \<open>The key \<^verbatim>\<open>s\<close> flips the sort mode.\<close>

definition top_key :: "u8 \<Rightarrow> u8 \<Rightarrow> u8" where
  "top_key ch sort_mode = (if ch = of_char CHR ''s'' then xor sort_mode 1 else sort_mode)"

section \<open>Lemmas\<close>

text \<open>What the table says of a topic.\<close>

definition top_of :: "str \<Rightarrow> TopicStat list \<Rightarrow> u64 \<times> 128 word" where
  "top_of t stats =
     (sum_list (map ts_count (filter (\<lambda>s. ts_topic s = t) stats)), sum_list (map ts_bytes (filter (\<lambda>s. ts_topic s = t) stats)))"

lemma top_record_topics: "set (map ts_topic (top_record m stats)) = insert (msg_topic m) (set (map ts_topic stats))"
  by (induction m stats rule: top_record.induct) (auto simp: TopicStat_count_def TopicStat_new_def)

lemma top_record_sorted:
  "sorted_wrt (<) (map ts_topic stats) \<Longrightarrow> sorted_wrt (<) (map ts_topic (top_record m stats))"
proof (induction m stats rule: top_record.induct)
  case (2 m s ss)
  have "ts_topic s < x" if "x \<in> set (map ts_topic (top_record m ss))" and "ts_topic s < msg_topic m" for x
    using that "2.prems" by (auto simp del: set_map simp: top_record_topics)
  then show ?case using 2 by (auto simp: TopicStat_count_def TopicStat_new_def)
qed (simp add: TopicStat_count_def TopicStat_new_def)

lemma top_of_record:
  "sorted_wrt (<) (map ts_topic stats) \<Longrightarrow>
     top_of t (top_record m stats) =
       (fst (top_of t stats) + (if msg_topic m = t then 1 else 0),
        snd (top_of t stats) + (if msg_topic m = t then word_of_nat (length (msg_data m)) else 0))"
  by (induction m stats rule: top_record.induct)
    (auto simp: top_of_def TopicStat_count_def TopicStat_new_def algebra_simps)

text \<open>
  After any messages the table has one row for each topic, in order, with the number of its messages
  and of their bytes, modulo the width of the counters.
\<close>

lemma top_table:
  "sorted_wrt (<) (map ts_topic (fold top_record ms [])) \<and>
   set (map ts_topic (fold top_record ms [])) = msg_topic ` set ms \<and>
   top_of t (fold top_record ms []) =
     (word_of_nat (length (filter (\<lambda>m. msg_topic m = t) ms)),
      sum_list (map (\<lambda>m. word_of_nat (length (msg_data m))) (filter (\<lambda>m. msg_topic m = t) ms)))"
proof (induction ms rule: rev_induct)
  case Nil
  then show ?case by (simp add: top_of_def)
next
  case (snoc m ms)
  let ?t = "fold top_record ms []"
  have 1: "sorted_wrt (<) (map ts_topic ?t)" and 2: "set (map ts_topic ?t) = msg_topic ` set ms"
    and 3: "top_of t ?t = (word_of_nat (length (filter (\<lambda>m. msg_topic m = t) ms)),
      sum_list (map (\<lambda>m. word_of_nat (length (msg_data m))) (filter (\<lambda>m. msg_topic m = t) ms)))"
    using snoc by blast+
  have f: "fold top_record (ms @ [m]) [] = top_record m ?t" by simp
  show ?case unfolding f top_of_record [OF 1] top_record_topics 2 3
    using top_record_sorted [OF 1, of m] by (simp add: add.commute)
qed

lemma top_rows_largest:
  assumes "s \<in> set (top_rows 0 height stats)" and "u \<in> set stats" and "u \<notin> set (top_rows 0 height stats)"
  shows "ts_count u \<le> ts_count s"
proof -
  let ?k = "\<lambda>s. - int (unat (ts_count s))"
  let ?l = "sort_key ?k stats"
  define l where "l = ?l"
  have top: "top_rows 0 height stats = take (height - 4) l" by (simp add: top_rows_def l_def)
  have "set l = set (take (height - 4) l) \<union> set (drop (height - 4) l)"
    unfolding set_append [symmetric] append_take_drop_id ..
  moreover have "u \<in> set l" using assms(2) by (simp add: l_def)
  ultimately have u: "u \<in> set (drop (height - 4) l)" using assms(3) unfolding top by blast
  have "sorted (map ?k (take (height - 4) l @ drop (height - 4) l))" by (simp add: l_def)
  then have "?k s \<le> ?k u" using assms(1) u unfolding top map_append sorted_append by auto
  then show ?thesis by (simp add: word_le_def)
qed

end
