(* ===== verification/Cli_Bench.thy ===== *)
theory Cli_Bench
  imports Cli
begin

text \<open>
  The programs that call the client library: the benchmark of \<^verbatim>\<open>src/src/cli.rs\<close> and the example
  \<^verbatim>\<open>src/examples/pubsub.rs\<close>.  A program holds connected clients; what the command queue of a client
  answers to each command, how long its tasks run and what arrives on its data channel are given.  The
  error of a program is the text of its panic.  The tasks that the benchmark spawns work on one worker
  each, so that the order in which the workers run does not matter; which of several panics is reported
  first and the measured times are not modelled.
\<close>

section \<open>Clients in use\<close>

record handle =
  h_client :: Client
  h_answers :: "(bool option \<times> unit result option option) list"
  h_alive :: "nat \<Rightarrow> bool" \<comment> \<open>whether the tasks still run after that many commands\<close>
  h_sent :: "ControlCommand list"

text \<open>A command to the queue, as \<^verbatim>\<open>exec_command!\<close> sends it; a queue that does not answer runs into the timeout.\<close>

definition exec :: "ControlCommand \<Rightarrow> (handle, Error, unit) io" where
  "exec cmd h =
     (let answer = (case h_answers h of a # _ \<Rightarrow> a | [] \<Rightarrow> (None, None)) in
      (exec_command (\<lambda>_. answer) cmd, h\<lparr>h_answers := tl (h_answers h), h_sent := h_sent h @ [cmd]\<rparr>))"

definition h_is_connected :: "handle \<Rightarrow> bool" where
  "h_is_connected h \<longleftrightarrow> Client_is_connected (h_client h) \<and> h_alive h (length (h_sent h))"

definition h_bye :: "(handle, Error, unit) io" where
  "h_bye =
     io_bind (exec Bye) (\<lambda>_.
     io_modify (\<lambda>h. h\<lparr>h_client := Client_shutdown ((h_client h)\<lparr>cn_connected := False\<rparr>)\<rparr>))"

definition unwrap_io :: "('s, Error, 'a) io \<Rightarrow> ('s, str, 'a) io" where
  "unwrap_io f s = (case f s of (r, s') \<Rightarrow> (map_err (\<lambda>_. lit ''called Result::unwrap() on an Err value'') r, s'))"

definition assert_io :: "('s \<Rightarrow> bool) \<Rightarrow> str \<Rightarrow> ('s, str, unit) io" where
  "assert_io P text s = (if P s then Inr () else Inl (lit ''assertion failed: '' @ text), s)"

fun each_io :: "('a \<Rightarrow> ('s, 'e, unit) io) \<Rightarrow> 'a list \<Rightarrow> ('s, 'e, unit) io" where
  "each_io f [] = io_return ()"
| "each_io f (x # xs) = io_bind (f x) (\<lambda>_. each_io f xs)"

section \<open>The workers of the benchmark\<close>

record BenchmarkWorker =
  bw_id :: str
  bw_client :: handle
  bw_r_client :: "handle option"
  bw_data_channel :: "Message list" \<comment> \<open>what will arrive\<close>

definition BenchmarkWorker_new :: "str \<Rightarrow> handle \<Rightarrow> handle option \<Rightarrow> Message list \<Rightarrow> BenchmarkWorker" where
  "BenchmarkWorker_new wid client r_client data_channel =
     \<lparr>bw_id = wid, bw_client = client, bw_r_client = r_client, bw_data_channel = data_channel\<rparr>"

type_synonym 'a worker_io = "(BenchmarkWorker, str, 'a) io"

definition on_client :: "(handle, Error, 'a) io \<Rightarrow> (BenchmarkWorker, Error, 'a) io" where
  "on_client f w = (case f (bw_client w) of (r, h) \<Rightarrow> (r, w\<lparr>bw_client := h\<rparr>))"

text \<open>On the client of the other node; \<open>None\<close> when there is none.\<close>

definition on_r_client :: "(handle, Error, 'a) io \<Rightarrow> (BenchmarkWorker, Error, 'a option) io" where
  "on_r_client f w =
     (case bw_r_client w of
        None \<Rightarrow> (Inr None, w)
      | Some r \<Rightarrow> (case f r of (res, h) \<Rightarrow> (res_bind res (\<lambda>x. Inr (Some x)), w\<lparr>bw_r_client := Some h\<rparr>)))"

definition BenchmarkWorker_is_connected :: "BenchmarkWorker \<Rightarrow> bool" where
  "BenchmarkWorker_is_connected w =
     (case bw_r_client w of
        None \<Rightarrow> h_is_connected (bw_client w)
      | Some r \<Rightarrow> h_is_connected r \<and> h_is_connected (bw_client w))"

definition BenchmarkWorker_bye :: "(BenchmarkWorker, Error, unit) io" where
  "BenchmarkWorker_bye =
     io_bind (on_client h_bye) (\<lambda>_. io_bind (on_r_client h_bye) (\<lambda>_. io_return ()))"

definition assert_connected :: "unit worker_io" where
  "assert_connected = assert_io BenchmarkWorker_is_connected (lit ''wrk.is_connected()'')"

text \<open>The same for every worker.\<close>

fun for_workers :: "unit worker_io \<Rightarrow> BenchmarkWorker list \<Rightarrow> str + BenchmarkWorker list" where
  "for_workers f [] = Inr []"
| "for_workers f (w # ws) =
     (case f w of
        (Inl e, _) \<Rightarrow> Inl e
      | (Inr _, w') \<Rightarrow> res_bind (for_workers f ws) (\<lambda>ws'. Inr (w' # ws')))"

section \<open>The stages\<close>

definition test_topic :: "str \<Rightarrow> str \<Rightarrow> str" where
  "test_topic worker name = lit ''benchmark/'' @ worker @ lit ''/test/'' @ name"

text \<open>The loop over the workers that subscribes for the messages to be read.\<close>

definition test_start :: "str \<Rightarrow> bool \<Rightarrow> unit worker_io" where
  "test_start name wait_read =
     io_bind assert_connected (\<lambda>_.
     if wait_read then
       (\<lambda>w. let topic = test_topic (bw_id w) name in
        if bw_r_client w \<noteq> None
        then io_bind (unwrap_io (on_r_client (exec (Subscribe topic)))) (\<lambda>_. io_return ()) w
        else unwrap_io (on_client (exec (Subscribe topic))) w)
     else io_return ())"

text \<open>The task that reads: every message that arrives must be the one that is sent.\<close>

definition read_one :: "bytes \<Rightarrow> unit worker_io" where
  "read_one message w =
     (case bw_data_channel w of
        [] \<Rightarrow> (Inl (lit ''called Result::unwrap() on an Err value''), w)
      | m # ms \<Rightarrow>
          (if msg_data m = message then Inr () else Inl (lit ''assertion `left == right` failed''),
           w\<lparr>bw_data_channel := ms\<rparr>))"

definition publish_one :: "str \<Rightarrow> bytes \<Rightarrow> unit worker_io" where
  "publish_one name message w =
     unwrap_io (on_client (exec (Publish DEFAULT_PRIORITY (test_topic (bw_id w) name) message))) w"

definition test_tasks :: "str \<Rightarrow> bytes \<Rightarrow> u32 \<Rightarrow> bool \<Rightarrow> unit worker_io" where
  "test_tasks name message iterations wait_read =
     io_bind (each_io (\<lambda>_. publish_one name message) [0..<unat iterations]) (\<lambda>_.
     if wait_read then each_io (\<lambda>_. read_one message) [0..<unat iterations] else io_return ())"

definition test_finish :: "str \<Rightarrow> unit worker_io" where
  "test_finish name =
     io_bind assert_connected (\<lambda>_ w. unwrap_io (on_client (exec (Unsubscribe (test_topic (bw_id w) name)))) w)"

definition benchmark_message ::
  "str \<Rightarrow> bytes \<Rightarrow> u32 \<Rightarrow> bool \<Rightarrow> BenchmarkWorker list \<Rightarrow> str + BenchmarkWorker list" where
  "benchmark_message name message iterations wait_read workers =
     res_bind (for_workers (test_start name wait_read) workers) (\<lambda>ws.
     res_bind (for_workers (test_tasks name message iterations wait_read) ws) (\<lambda>ws.
     for_workers (test_finish name) ws))"

record MessageTest =
  mt_name :: str
  mt_data :: bytes
  mt_iterations :: u32

definition MessageTest_new :: "(str \<Rightarrow> nat option) \<Rightarrow> str \<Rightarrow> u32 \<Rightarrow> str + MessageTest" where
  "MessageTest_new parse_size name iterations =
     (case parse_size name of
        Some n \<Rightarrow> Inr \<lparr>mt_name = name, mt_data = counting_bytes n, mt_iterations = iterations\<rparr>
      | None \<Rightarrow> Inl (lit ''called Result::unwrap() on an Err value''))"

fun run_test :: "MessageTest \<Rightarrow> BenchmarkWorker list \<Rightarrow> str + BenchmarkWorker list" where
  "run_test test ws =
     res_bind (benchmark_message (lit ''pub-'' @ mt_name test) (mt_data test) (mt_iterations test) False ws) (\<lambda>ws.
     benchmark_message (lit ''pub-read-'' @ mt_name test) (mt_data test) (mt_iterations test) True ws)"

fun run_tests :: "MessageTest list \<Rightarrow> BenchmarkWorker list \<Rightarrow> str + BenchmarkWorker list" where
  "run_tests [] ws = Inr ws"
| "run_tests (test # tests) ws = res_bind (run_test test ws) (run_tests tests)"

definition message_tests :: "(str \<Rightarrow> nat option) \<Rightarrow> u32 \<Rightarrow> str + MessageTest list" where
  "message_tests parse_size iterations =
     res_bind (MessageTest_new parse_size (lit ''10b'') iterations) (\<lambda>t1.
     res_bind (MessageTest_new parse_size (lit ''1kb'') iterations) (\<lambda>t2.
     res_bind (MessageTest_new parse_size (lit ''10kb'') iterations) (\<lambda>t3.
     res_bind (MessageTest_new parse_size (lit ''100kb'') (iterations div 10)) (\<lambda>t4.
     res_bind (MessageTest_new parse_size (lit ''1mb'') (iterations div 100)) (\<lambda>t5.
     Inr [t1, t2, t3, t4, t5])))))"

text \<open>The stages at the start and at the end of the benchmark, as they are written.\<close>

definition stage_topic :: "str \<Rightarrow> nat \<Rightarrow> str" where
  "stage_topic worker i = lit ''benchmark/'' @ worker @ lit ''/'' @ show_dec i"

definition subscribe_stage :: "u32 \<Rightarrow> unit worker_io" where
  "subscribe_stage iterations =
     io_bind assert_connected (\<lambda>_.
     each_io (\<lambda>i w. unwrap_io (on_client (exec (Subscribe (stage_topic (bw_id w) i)))) w) [0..<unat iterations])"

definition unsubscribe_stage :: "u32 \<Rightarrow> unit worker_io" where
  "unsubscribe_stage iterations =
     io_bind assert_connected (\<lambda>_.
     each_io (\<lambda>i w. unwrap_io (on_client (exec (Subscribe (stage_topic (bw_id w) i)))) w) [0..<unat iterations])"

definition bye_stage :: "unit worker_io" where
  "bye_stage =
     io_bind (unwrap_io BenchmarkWorker_bye) (\<lambda>_.
     assert_io (\<lambda>w. \<not> BenchmarkWorker_is_connected w) (lit ''!wrk.is_connected()''))"

text \<open>
  The workers: \<open>connect\<close> gives the client of the \<open>i\<close>-th worker for a configuration with what will
  arrive on its data channel, \<open>rng\<close> the random part of its name.
\<close>

type_synonym connector = "nat \<Rightarrow> Config \<Rightarrow> (handle \<times> Message list) result"

definition take_channel :: "handle \<times> Message list \<Rightarrow> str + handle \<times> Message list" where
  "take_channel x =
     (case x of (h, ms) \<Rightarrow>
      case Client_take_data_channel (h_client h) of
        (None, _) \<Rightarrow> Inl (lit ''called Option::unwrap() on a None value'')
      | (Some waiting, c) \<Rightarrow> Inr (h\<lparr>h_client := c\<rparr>, waiting @ ms))"

definition connect_unwrap :: "connector \<Rightarrow> nat \<Rightarrow> Config \<Rightarrow> str + handle \<times> Message list" where
  "connect_unwrap connect i config =
     map_err (\<lambda>_. lit ''called Result::unwrap() on an Err value'') (connect i config)"

definition bench_worker :: "connector \<Rightarrow> (nat \<Rightarrow> u32) \<Rightarrow> Config \<Rightarrow> str option \<Rightarrow> nat \<Rightarrow> str + BenchmarkWorker" where
  "bench_worker connect rng config sub_node i =
     res_bind (connect_unwrap connect i config) (\<lambda>(client, ms).
     let wid = show_dec (unat (rng i)) @ lit ''/'' @ show_dec i;
         checked = (\<lambda>client r ms. if h_is_connected client then Inr (BenchmarkWorker_new wid client r ms)
           else Inl (lit ''assertion failed: client.is_connected()''))
     in case sub_node of
          Some p \<Rightarrow>
            res_bind (connect_unwrap connect i (update_path p config)) (\<lambda>r.
            res_bind (take_channel r) (\<lambda>(r_client, r_ms). checked client (Some r_client) r_ms))
        | None \<Rightarrow> res_bind (take_channel (client, ms)) (\<lambda>(client, ms). checked client None ms))"

fun bench_workers :: "(nat \<Rightarrow> str + BenchmarkWorker) \<Rightarrow> nat list \<Rightarrow> str + BenchmarkWorker list" where
  "bench_workers new [] = Inr []"
| "bench_workers new (i # is) = res_bind (new i) (\<lambda>w. res_bind (bench_workers new is) (\<lambda>ws. Inr (w # ws)))"

definition benchmark ::
  "connector \<Rightarrow> (nat \<Rightarrow> u32) \<Rightarrow> (str \<Rightarrow> nat option) \<Rightarrow> Config \<Rightarrow> u32 \<Rightarrow> u32 \<Rightarrow> str option \<Rightarrow> str + BenchmarkWorker list" where
  "benchmark connect rng parse_size config benchmark_workers iterations sub_node =
     res_bind (bench_workers (bench_worker connect rng config sub_node) [0..<unat benchmark_workers]) (\<lambda>ws.
     res_bind (for_workers (subscribe_stage iterations) ws) (\<lambda>ws.
     res_bind (message_tests parse_size iterations) (\<lambda>tests.
     res_bind (run_tests tests ws) (\<lambda>ws.
     res_bind (for_workers (unsubscribe_stage iterations) ws) (\<lambda>ws.
     for_workers bye_stage ws)))))"

section \<open>The example\<close>

text \<open>What the example sends, and the lines its receiver prints for the messages that arrive.\<close>

definition example_topic :: str where
  "example_topic = lit ''test/topic1''"

definition example_config :: Config where
  "example_config = set_timeout (secs 5) (Config_new (lit ''localhost:2873''))"

definition example_main :: "(handle, str, unit) io" where
  "example_main =
     io_bind (unwrap_io (exec (Subscribe example_topic))) (\<lambda>_.
     io_bind (\<lambda>h. case Client_take_data_channel (h_client h) of
        (None, c) \<Rightarrow> (Inl (lit ''called Option::unwrap() on a None value''), h\<lparr>h_client := c\<rparr>)
      | (Some _, c) \<Rightarrow> (Inr (), h\<lparr>h_client := c\<rparr>)) (\<lambda>_.
     io_bind (each_io (\<lambda>_.
       io_bind (assert_io h_is_connected (lit ''client.is_connected()'')) (\<lambda>_.
       unwrap_io (exec (Publish DEFAULT_PRIORITY example_topic (lit ''hello''))))) [0..<3::nat]) (\<lambda>_.
     unwrap_io h_bye)))"

fun example_receiver :: "Message list \<Rightarrow> str + str list" where
  "example_receiver [] = Inr []"
| "example_receiver (m # ms) =
     res_bind (map_err (\<lambda>_. lit ''called Result::unwrap() on an Err value'') (Message_data_as_str m)) (\<lambda>data.
     res_bind (example_receiver ms) (\<lambda>lines.
     Inr ((lit ''topic: '' @ msg_topic m @ lit '', data: '' @ data) # lines)))"

section \<open>Lemmas\<close>

text \<open>What a worker has sent: its name, the commands of its client and of the client of the other node.\<close>

type_synonym worker_log = "str \<times> ControlCommand list \<times> ControlCommand list option"

definition worker_log :: "BenchmarkWorker \<Rightarrow> worker_log" where
  "worker_log w = (bw_id w, h_sent (bw_client w), map_option h_sent (bw_r_client w))"

text \<open>A stage that returns extends the log by a function of it.\<close>

definition logs :: "(worker_log \<Rightarrow> worker_log) \<Rightarrow> (BenchmarkWorker, 'e, 'a) io \<Rightarrow> bool" where
  "logs F f \<longleftrightarrow> (\<forall>w x w'. f w = (Inr x, w') \<longrightarrow> worker_log w' = F (worker_log w))"

definition sends :: "(str \<Rightarrow> ControlCommand list) \<Rightarrow> worker_log \<Rightarrow> worker_log" where
  "sends tr l = (case l of (wid, s, r) \<Rightarrow> (wid, s @ tr wid, r))"

definition r_sends :: "(str \<Rightarrow> ControlCommand list) \<Rightarrow> worker_log \<Rightarrow> worker_log" where
  "r_sends tr l = (case l of (wid, s, r) \<Rightarrow> (wid, s, map_option (\<lambda>s. s @ tr wid) r))"

lemma logs_bind:
  assumes "logs F f" and "\<And>x. logs G (g x)"
  shows "logs (\<lambda>l. G (F l)) (io_bind f g)"
  using assms unfolding logs_def by (metis io_bind_Inr_cases)

lemma logs_pure: "logs (\<lambda>l. l) (io_return x)" "logs (\<lambda>l. l) (assert_io P text)" "logs (\<lambda>l. l) (read_one message)"
  by (auto simp: logs_def assert_io_def read_one_def worker_log_def split: list.splits if_splits)

lemma logs_unwrap: "logs F f \<Longrightarrow> logs F (unwrap_io f)"
  by (auto simp: logs_def unwrap_io_def split: prod.splits)

lemma logs_each:
  assumes "\<And>i. logs (F i) (f i)"
  shows "logs (fold F is) (each_io f is)"
proof (induction "is")
  case Nil
  then show ?case by (simp add: logs_def)
next
  case (Cons i "is")
  then show ?case using logs_bind [OF assms Cons] by (simp add: comp_def)
qed

lemma exec_sent: "exec cmd h = (r, h') \<Longrightarrow> h_sent h' = h_sent h @ [cmd]"
  by (auto simp: exec_def Let_def)

lemma h_bye_sent: "h_bye h = (Inr x, h') \<Longrightarrow> h_sent h' = h_sent h @ [Bye]"
  unfolding h_bye_def by (erule io_bind_Inr_cases, drule exec_sent) auto

lemma logs_on_client:
  assumes "\<And>h x h'. f h = (Inr x, h') \<Longrightarrow> h_sent h' = h_sent h @ tr"
  shows "logs (sends (\<lambda>_. tr)) (on_client f)" and "logs (r_sends (\<lambda>_. tr)) (on_r_client f)"
  using assms
  by (auto simp: logs_def on_client_def on_r_client_def worker_log_def sends_def r_sends_def res_bind_Inr_iff
      split: prod.splits option.splits)

text \<open>A command that mentions the name of the worker.\<close>

lemma logs_named:
  "(\<And>wid. logs (sends (\<lambda>_. tr wid)) (f wid)) \<Longrightarrow> logs (sends tr) (\<lambda>w. f (bw_id w) w)"
  "(\<And>wid. logs (r_sends (\<lambda>_. tr wid)) (f wid)) \<Longrightarrow> logs (r_sends tr) (\<lambda>w. f (bw_id w) w)"
  by (auto simp: logs_def sends_def r_sends_def worker_log_def)

lemma logs_command: "logs (sends (\<lambda>wid. [cmd wid])) (\<lambda>w. unwrap_io (on_client (exec (cmd (bw_id w)))) w)"
  by (rule logs_named(1)) (auto intro!: logs_unwrap logs_on_client(1) dest: exec_sent)

lemma fold_sends: "fold (\<lambda>i. sends (tr i)) is = sends (\<lambda>wid. concat (map (\<lambda>i. tr i wid) is))"
  by (induction "is") (auto simp: sends_def fun_eq_iff)

lemma fold_skip: "fold (\<lambda>_ l. l) is = (\<lambda>l. l)"
  by (induction "is") (auto simp: fun_eq_iff)

text \<open>What the stages send.\<close>

definition stage_trace :: "nat \<Rightarrow> str \<Rightarrow> ControlCommand list" where
  "stage_trace n wid = map (\<lambda>i. Subscribe (stage_topic wid i)) [0..<n]"

lemma concat_singletons: "concat (map (\<lambda>i. [f i]) xs) = map f xs"
  by (induction xs) auto

lemma logs_stages:
  "logs (sends (stage_trace (unat iterations))) (subscribe_stage iterations)"
  "logs (sends (stage_trace (unat iterations))) (unsubscribe_stage iterations)"
proof -
  let ?f = "\<lambda>i w. unwrap_io (on_client (exec (Subscribe (stage_topic (bw_id w) i)))) w"
  have "logs (fold (\<lambda>i. sends (\<lambda>wid. [Subscribe (stage_topic wid i)])) [0..<unat iterations]) (each_io ?f [0..<unat iterations])"
    by (rule logs_each) (rule logs_command)
  then have e: "logs (sends (stage_trace (unat iterations))) (each_io ?f [0..<unat iterations])"
    unfolding fold_sends concat_singletons stage_trace_def [abs_def] .
  show "logs (sends (stage_trace (unat iterations))) (subscribe_stage iterations)"
    "logs (sends (stage_trace (unat iterations))) (unsubscribe_stage iterations)"
    unfolding subscribe_stage_def unsubscribe_stage_def assert_connected_def
    by (rule logs_bind [where F = "\<lambda>l. l", OF logs_pure(2) e])+
qed

text \<open>A test: the reader is subscribed on the other node when there is one, but unsubscribed on its own.\<close>

definition test_log :: "str \<Rightarrow> bytes \<Rightarrow> nat \<Rightarrow> bool \<Rightarrow> worker_log \<Rightarrow> worker_log" where
  "test_log name message n wait_read l =
     (case l of (wid, s, r) \<Rightarrow>
      let topic = test_topic wid name; sub = (if wait_read then [Subscribe topic] else []) in
      (wid, s @ (if r = None then sub else []) @ replicate n (Publish DEFAULT_PRIORITY topic message) @ [Unsubscribe topic],
       map_option (\<lambda>s. s @ sub) r))"

definition test_sub :: "str \<Rightarrow> bool \<Rightarrow> worker_log \<Rightarrow> worker_log" where
  "test_sub name wait_read l =
     (case l of (wid, s, r) \<Rightarrow>
      let sub = (if wait_read then [Subscribe (test_topic wid name)] else []) in
      (wid, s @ (if r = None then sub else []), map_option (\<lambda>s. s @ sub) r))"

lemma logs_test_start: "logs (test_sub name wait_read) (test_start name wait_read)"
  unfolding logs_def
proof (intro allI impI)
  fix w x w'
  let ?sub = "\<lambda>wid. [Subscribe (test_topic wid name)]"
  let ?own = "\<lambda>w. unwrap_io (on_client (exec (Subscribe (test_topic (bw_id w) name)))) w"
  let ?other = "\<lambda>w. io_bind (unwrap_io (on_r_client (exec (Subscribe (test_topic (bw_id w) name))))) (\<lambda>_. io_return ()) w"
  assume t: "test_start name wait_read w = (Inr x, w')"
  have c: "logs (sends ?sub) ?own" by (rule logs_command)
  have r: "logs (r_sends ?sub) ?other"
    by (rule logs_named(2), rule logs_bind [where G = "\<lambda>l. l", OF _ logs_pure(1)])
      (auto intro!: logs_unwrap logs_on_client(2) dest: exec_sent)
  from t have w: "(if wait_read then (if bw_r_client w \<noteq> None then ?other w else ?own w) else (Inr (), w)) = (Inr x, w')"
    unfolding test_start_def assert_connected_def assert_io_def
    by (auto simp: io_bind_def Let_def split: if_splits)
  show "worker_log w' = test_sub name wait_read (worker_log w)"
  proof (cases wait_read)
    case False
    then show ?thesis using w by (cases "bw_r_client w") (auto simp: test_sub_def worker_log_def)
  next
    case True
    show ?thesis
    proof (cases "bw_r_client w")
      case None
      then have "worker_log w' = sends ?sub (worker_log w)" using c w True unfolding logs_def by auto
      then show ?thesis using True None by (simp add: test_sub_def worker_log_def sends_def)
    next
      case (Some h)
      then have "?other w = (Inr x, w')" using w True by simp
      then have "worker_log w' = r_sends ?sub (worker_log w)" using r unfolding logs_def by blast
      then show ?thesis using True Some by (simp add: test_sub_def worker_log_def r_sends_def)
    qed
  qed
qed

lemma logs_test_tasks:
  "logs (sends (\<lambda>wid. replicate (unat n) (Publish DEFAULT_PRIORITY (test_topic wid name) message)))
     (test_tasks name message n wait_read)"
proof -
  have "logs (sends (\<lambda>wid. [Publish DEFAULT_PRIORITY (test_topic wid name) message])) (publish_one name message)"
    using logs_command [of "\<lambda>wid. Publish DEFAULT_PRIORITY (test_topic wid name) message"]
    by (simp add: publish_one_def [abs_def])
  then have "logs (fold (\<lambda>_. sends (\<lambda>wid. [Publish DEFAULT_PRIORITY (test_topic wid name) message])) [0..<unat n])
      (each_io (\<lambda>_. publish_one name message) [0..<unat n])"
    by (rule logs_each)
  then have p: "logs (sends (\<lambda>wid. replicate (unat n) (Publish DEFAULT_PRIORITY (test_topic wid name) message)))
      (each_io (\<lambda>_. publish_one name message) [0..<unat n])"
    unfolding fold_sends concat_singletons by (simp add: map_replicate_const)
  have "logs (\<lambda>l. l) (each_io (\<lambda>_. read_one message) [0..<unat n])"
    using logs_each [of "\<lambda>_ l. l" "\<lambda>_. read_one message", OF logs_pure(3)] unfolding fold_skip .
  then have "logs (\<lambda>l. l) (if wait_read then each_io (\<lambda>_. read_one message) [0..<unat n] else io_return ())"
    by (simp add: logs_pure(1))
  from logs_bind [OF p this] show ?thesis unfolding test_tasks_def .
qed

lemma logs_test_finish: "logs (sends (\<lambda>wid. [Unsubscribe (test_topic wid name)])) (test_finish name)"
  unfolding test_finish_def assert_connected_def by (rule logs_bind [OF logs_pure(2) logs_command])

lemma logs_bye: "logs (\<lambda>l. r_sends (\<lambda>_. [Bye]) (sends (\<lambda>_. [Bye]) l)) bye_stage"
proof -
  have "logs (\<lambda>l. r_sends (\<lambda>_. [Bye]) (sends (\<lambda>_. [Bye]) l)) BenchmarkWorker_bye"
    unfolding BenchmarkWorker_bye_def
    by (rule logs_bind [OF logs_on_client(1) logs_bind [where G = "\<lambda>l. l", OF logs_on_client(2) logs_pure(1)]])
      (auto dest: h_bye_sent)
  from logs_bind [OF logs_unwrap [OF this] logs_pure(2)] show ?thesis unfolding bye_stage_def .
qed

lemma for_workers_logs:
  assumes "logs F f" and "for_workers f ws = Inr ws'"
  shows "map worker_log ws' = map (\<lambda>w. F (worker_log w)) ws"
  using assms(2)
proof (induction ws arbitrary: ws')
  case (Cons w ws)
  then show ?case using assms(1) by (auto simp: logs_def res_bind_Inr_iff split: prod.splits sum.splits)
qed simp

lemma for_workers_maps:
  "logs F f \<Longrightarrow> for_workers f ws = Inr ws' \<Longrightarrow> map worker_log ws' = map F (map worker_log ws)"
  using for_workers_logs [of F f ws ws'] by simp

lemma benchmark_message_logs:
  assumes "benchmark_message name message n wait_read ws = Inr ws'"
  shows "map worker_log ws' = map (test_log name message (unat n) wait_read) (map worker_log ws)"
proof -
  obtain w1 w2 where 1: "for_workers (test_start name wait_read) ws = Inr w1"
    and 2: "for_workers (test_tasks name message n wait_read) w1 = Inr w2" and 3: "for_workers (test_finish name) w2 = Inr ws'"
    using assms by (auto simp: benchmark_message_def res_bind_Inr_iff)
  have "sends (\<lambda>wid. [Unsubscribe (test_topic wid name)])
      (sends (\<lambda>wid. replicate (unat n) (Publish DEFAULT_PRIORITY (test_topic wid name) message)) (test_sub name wait_read l)) =
    test_log name message (unat n) wait_read l" for l
    by (cases l) (simp add: test_sub_def sends_def test_log_def Let_def)
  then show ?thesis
    unfolding for_workers_maps [OF logs_test_finish 3] for_workers_maps [OF logs_test_tasks 2]
      for_workers_maps [OF logs_test_start 1]
    by simp
qed

definition tests_log :: "MessageTest list \<Rightarrow> worker_log \<Rightarrow> worker_log" where
  "tests_log tests =
     fold (\<lambda>t l. test_log (lit ''pub-read-'' @ mt_name t) (mt_data t) (unat (mt_iterations t)) True
       (test_log (lit ''pub-'' @ mt_name t) (mt_data t) (unat (mt_iterations t)) False l)) tests"

lemma run_tests_logs:
  "run_tests tests ws = Inr ws' \<Longrightarrow> map worker_log ws' = map (tests_log tests) (map worker_log ws)"
proof (induction tests arbitrary: ws)
  case Nil
  then show ?case by (simp add: tests_log_def)
next
  case (Cons t tests)
  obtain w1 w2 where 1: "benchmark_message (lit ''pub-'' @ mt_name t) (mt_data t) (mt_iterations t) False ws = Inr w1"
    and 2: "benchmark_message (lit ''pub-read-'' @ mt_name t) (mt_data t) (mt_iterations t) True w1 = Inr w2"
    and 3: "run_tests tests w2 = Inr ws'"
    using Cons.prems by (auto simp: res_bind_Inr_iff)
  show ?case
    unfolding Cons.IH [OF 3] benchmark_message_logs [OF 2] benchmark_message_logs [OF 1] by (simp add: tests_log_def)
qed

text \<open>The same, written out.\<close>

definition test_trace :: "bool \<Rightarrow> str \<Rightarrow> MessageTest \<Rightarrow> ControlCommand list" where
  "test_trace alone wid t =
     (let pub = test_topic wid (lit ''pub-'' @ mt_name t); rd = test_topic wid (lit ''pub-read-'' @ mt_name t);
          publish = (\<lambda>topic. replicate (unat (mt_iterations t)) (Publish DEFAULT_PRIORITY topic (mt_data t)))
      in publish pub @ [Unsubscribe pub] @ (if alone then [Subscribe rd] else []) @ publish rd @ [Unsubscribe rd])"

definition r_trace :: "str \<Rightarrow> MessageTest list \<Rightarrow> ControlCommand list" where
  "r_trace wid = map (\<lambda>t. Subscribe (test_topic wid (lit ''pub-read-'' @ mt_name t)))"

lemma tests_log_trace:
  "tests_log tests (wid, s, r) =
     (wid, s @ concat (map (test_trace (r = None) wid) tests), map_option (\<lambda>s. s @ r_trace wid tests) r)"
proof (induction tests arbitrary: s r)
  case Nil
  then show ?case by (cases r) (simp_all add: tests_log_def r_trace_def)
next
  case (Cons t tests)
  have "tests_log (t # tests) (wid, s, r) =
      tests_log tests (wid, s @ test_trace (r = None) wid t, map_option (\<lambda>s. s @ r_trace wid [t]) r)"
    by (cases r) (simp_all add: tests_log_def test_log_def test_trace_def r_trace_def Let_def)
  then show ?case by (cases r) (simp_all add: Cons r_trace_def)
qed

text \<open>A number is not the word \<^verbatim>\<open>test\<close>.\<close>

lemma show_digits_10: "b \<in> set (show_digits 10 n) \<Longrightarrow> b \<noteq> of_char CHR ''t''"
proof (induction n rule: less_induct)
  case (less n)
  note show_digits.simps [simp del]
  have digit: "(word_of_nat (48 + k) :: u8) \<noteq> of_char CHR ''t''" if "k < 10" for k
  proof -
    have "unat (word_of_nat (48 + k) :: u8) = 48 + k" using that by (simp add: unat_of_nat del: of_nat_add)
    moreover have "unat (of_char CHR ''t'' :: u8) = 116" by simp
    ultimately show ?thesis using that by force
  qed
  show ?case
  proof (cases "n < 10")
    case True
    then have "show_digits 10 n = [word_of_nat (48 + n)]" by (subst show_digits.simps) (simp add: Let_def)
    then show ?thesis using less.prems digit [OF True] by simp
  next
    case False
    then have "show_digits 10 n = show_digits 10 (n div 10) @ [word_of_nat (48 + n mod 10)]"
      by (subst show_digits.simps) (simp add: Let_def)
    then have "b \<in> set (show_digits 10 (n div 10)) \<or> b = word_of_nat (48 + n mod 10)" using less.prems by auto
    then show ?thesis using less.IH [of "n div 10"] False digit [of "n mod 10"] by auto
  qed
qed

lemma stage_not_test: "stage_topic wid i \<noteq> test_topic wid name"
proof
  assume "stage_topic wid i = test_topic wid name"
  then have "show_dec i = lit ''test/'' @ name" by (simp add: stage_topic_def test_topic_def lit_def)
  then have "of_char CHR ''t'' \<in> set (show_digits 10 i)" by (simp add: show_dec_def lit_def)
  then show False using show_digits_10 by blast
qed

lemma bench_workers_all:
  "bench_workers new is = Inr ws \<Longrightarrow> length ws = length is \<and> (\<forall>w \<in> set ws. \<exists>i \<in> set is. new i = Inr w)"
proof (induction "is" arbitrary: ws)
  case (Cons i "is")
  then obtain w vs where "new i = Inr w" "bench_workers new is = Inr vs" "ws = w # vs" by (auto simp: res_bind_Inr_iff)
  then show ?case using Cons.IH [of vs] by auto
qed simp

lemma bench_worker_log:
  assumes "bench_worker connect rng config sub_node i = Inr w"
    and "\<And>i c h ms. connect i c = Inr (h, ms) \<Longrightarrow> h_sent h = []"
  shows "worker_log w = (bw_id w, [], if sub_node = None then None else Some [])"
  using assms
  by (auto simp: bench_worker_def res_bind_Inr_iff connect_unwrap_def take_channel_def Client_take_data_channel_def
      BenchmarkWorker_new_def worker_log_def Let_def split: option.splits prod.splits if_splits)
    fastforce+

section \<open>Properties\<close>

text \<open>
  C36: what the benchmark really sends.  When it ends without a panic, the client of every worker has
  subscribed the topics of the first stage, published and unsubscribed in every test, and has then,
  in the stage that is called \<^verbatim>\<open>unsubscribe\<close>, subscribed the topics of the first stage once more, so that
  none of them was ever unsubscribed before the final \<^verbatim>\<open>bye\<close>.  With a second node the reader is
  subscribed there, and never unsubscribed.
\<close>

theorem benchmark_commands:
  assumes "benchmark connect rng parse_size config n iterations sub_node = Inr ws"
    and "\<forall>i c h ms. connect i c = Inr (h, ms) \<longrightarrow> h_sent h = []"
  shows "\<exists>tests. message_tests parse_size iterations = Inr tests \<and> length ws = unat n \<and> (\<forall>w \<in> set ws.
    h_sent (bw_client w) =
      stage_trace (unat iterations) (bw_id w) @ concat (map (test_trace (sub_node = None) (bw_id w)) tests) @
      stage_trace (unat iterations) (bw_id w) @ [Bye] \<and>
    (\<forall>i. Unsubscribe (stage_topic (bw_id w) i) \<notin> set (h_sent (bw_client w))) \<and>
    (\<forall>r. bw_r_client w = Some r \<longrightarrow> h_sent r = r_trace (bw_id w) tests @ [Bye]))"
proof -
  obtain w0 w1 tests w2 w3 where 0: "bench_workers (bench_worker connect rng config sub_node) [0..<unat n] = Inr w0"
    and 1: "for_workers (subscribe_stage iterations) w0 = Inr w1" and t: "message_tests parse_size iterations = Inr tests"
    and 2: "run_tests tests w1 = Inr w2" and 3: "for_workers (unsubscribe_stage iterations) w2 = Inr w3"
    and 4: "for_workers bye_stage w3 = Inr ws"
    using assms(1) by (auto simp: benchmark_def res_bind_Inr_iff)
  let ?final = "\<lambda>l. r_sends (\<lambda>_. [Bye]) (sends (\<lambda>_. [Bye]) (sends (stage_trace (unat iterations))
    (tests_log tests (sends (stage_trace (unat iterations)) l))))"
  have m: "map worker_log ws = map ?final (map worker_log w0)"
    unfolding for_workers_maps [OF logs_bye 4] for_workers_maps [OF logs_stages(2) 3] run_tests_logs [OF 2]
      for_workers_maps [OF logs_stages(1) 1] by simp
  have w: "h_sent (bw_client w) =
      stage_trace (unat iterations) (bw_id w) @ concat (map (test_trace (sub_node = None) (bw_id w)) tests) @
      stage_trace (unat iterations) (bw_id w) @ [Bye] \<and>
    (\<forall>r. bw_r_client w = Some r \<longrightarrow> h_sent r = r_trace (bw_id w) tests @ [Bye])" if "w \<in> set ws" for w
  proof -
    from that have "worker_log w \<in> set (map worker_log ws)" by simp
    then obtain v where v: "v \<in> set w0" "worker_log w = ?final (worker_log v)" unfolding m by auto
    then obtain i where "bench_worker connect rng config sub_node i = Inr v" using bench_workers_all [OF 0] by blast
    then have "worker_log v = (bw_id v, [], if sub_node = None then None else Some [])"
      by (rule bench_worker_log) (use assms(2) in blast)
    then show ?thesis using v(2) by (auto simp: worker_log_def sends_def r_sends_def tests_log_trace split: if_splits)
  qed
  have "Unsubscribe (stage_topic wid i) \<notin> set (stage_trace k wid @ concat (map (test_trace alone wid) tests) @ stage_trace k wid @ [Bye])"
    for wid i k alone
    using stage_not_test [of wid i] by (auto simp: stage_trace_def test_trace_def Let_def split: if_splits)
  moreover have "length ws = unat n" using arg_cong [OF m, of length] bench_workers_all [OF 0] by simp
  ultimately show ?thesis using t w by (intro exI [of _ tests]) auto
qed

text \<open>One worker, one iteration, on a queue that accepts every command and delivers what is published.\<close>

definition sample_handle :: handle where
  "sample_handle =
     \<lparr>h_client = \<lparr>cn_control = SStream_new [] None 0 5, cn_data = None, cn_data_channel = Some [], cn_token = [],
        cn_beacon_interval = 1, cn_connected = True, cn_timeout = 5, cn_tasks_running = True\<rparr>,
      h_answers = replicate 30 (Some True, Some (Some (Inr ()))), h_alive = (\<lambda>_. True), h_sent = []\<rparr>"

definition sample_connect :: connector where
  "sample_connect = (\<lambda>_ _. Inr (sample_handle, replicate 3 \<lparr>msg_priority = 127, msg_topic = lit ''t'', msg_data = [0]\<rparr>))"

lemma replicate_numeral: "replicate (numeral k) x = x # replicate (pred_numeral k) x"
  by (simp add: numeral_eq_Suc)

lemma sample_benchmark: "\<not> isl (benchmark sample_connect (\<lambda>_. 7) (\<lambda>_. Some 1) (Config_new (lit ''h'')) 1 1 None)"
  by (simp add: benchmark_def bench_worker_def connect_unwrap_def sample_connect_def sample_handle_def take_channel_def
      Client_take_data_channel_def h_is_connected_def Client_is_connected_def BenchmarkWorker_new_def Let_def
      subscribe_stage_def assert_connected_def assert_io_def io_bind_def BenchmarkWorker_is_connected_def unwrap_io_def
      on_client_def exec_def exec_command_def message_tests_def MessageTest_new_def benchmark_message_def test_start_def
      test_tasks_def test_finish_def publish_one_def read_one_def unsubscribe_stage_def bye_stage_def
      BenchmarkWorker_bye_def h_bye_def on_r_client_def counting_bytes_def Client_shutdown_def
      replicate_numeral)

theorem benchmark_commands_witness:
  "\<exists>ws tests. benchmark sample_connect (\<lambda>_. 7) (\<lambda>_. Some 1) (Config_new (lit ''h'')) 1 1 None = Inr ws \<and> length ws = 1 \<and>
     (\<forall>w \<in> set ws. h_sent (bw_client w) =
        stage_trace 1 (bw_id w) @ concat (map (test_trace True (bw_id w)) tests) @ stage_trace 1 (bw_id w) @ [Bye])"
proof -
  obtain ws where b: "benchmark sample_connect (\<lambda>_. 7) (\<lambda>_. Some 1) (Config_new (lit ''h'')) 1 1 None = Inr ws"
    using sample_benchmark by (metis isl_def sum.exhaust)
  have "\<forall>i c h ms. sample_connect i c = Inr (h, ms) \<longrightarrow> h_sent h = []"
    by (auto simp: sample_connect_def sample_handle_def)
  from benchmark_commands [OF b this] b show ?thesis by auto
qed

end
