(* ===== verification/Cli_Main.thy ===== *)
theory Cli_Main
  imports Cli_Bench
begin

text \<open>
  The command-line client as a program, \<^verbatim>\<open>main\<close> of \<^verbatim>\<open>src/src/cli.rs\<close>: publish one message, listen to topics,
  or watch the topics with the most messages.  The messages that arrive until the user interrupts the
  program, or until the connection is lost, are given; so are the height of the terminal and the sort mode
  at each refresh.
\<close>

section \<open>Publishing\<close>

definition cli_publish :: "(str \<Rightarrow> nat option) \<Rightarrow> Opts \<Rightarrow> str \<Rightarrow> (handle, str, unit) io" where
  "cli_publish parse_size opts msg =
     (case op_topic opts of
        None \<Rightarrow> io_throw ERR_TOPIC_NOT_SPECIFIED
      | Some topic \<Rightarrow>
          (case cli_payload parse_size msg of
             Panics e \<Rightarrow> io_throw e
           | Returns m \<Rightarrow> unwrap_io (exec (Publish DEFAULT_PRIORITY topic m))))"

section \<open>Subscribing\<close>

text \<open>The data channel is taken and the topics are subscribed in one command.\<close>

definition cli_take_channel :: "(handle, str, Message list) io" where
  "cli_take_channel h =
     (case Client_take_data_channel (h_client h) of
        (None, c) \<Rightarrow> (Inl (lit ''called Option::unwrap() on a None value''), h\<lparr>h_client := c\<rparr>)
      | (Some waiting, c) \<Rightarrow> (Inr waiting, h\<lparr>h_client := c\<rparr>))"

definition cli_subscribe :: "Opts \<Rightarrow> (handle, str, Message list) io" where
  "cli_subscribe opts =
     io_bind cli_take_channel (\<lambda>waiting.
     case cli_parse_topics (op_topic opts) of
       Panics e \<Rightarrow> io_throw e
     | Returns topics \<Rightarrow> io_bind (unwrap_io (exec (SubscribeBulk topics))) (\<lambda>_. io_return waiting))"

text \<open>An interrupt says goodbye and exits; without it the loop ends when the channel is closed, by a panic.\<close>

definition cli_finish :: "bool \<Rightarrow> (handle, str, unit) io" where
  "cli_finish interrupted =
     (if interrupted then unwrap_io h_bye else io_throw (lit ''called Result::unwrap() on an Err value''))"

section \<open>Listening\<close>

definition debug_hex :: "bytes \<Rightarrow> str" where
  "debug_hex bs =
     lit ''['' @ concat (map (\<lambda>i. (if i = 0 then [] else lit '', '') @ show_hex (unat (bs ! i))) [0..<length bs]) @ lit '']''"

definition listen_line :: "Message \<Rightarrow> str" where
  "listen_line m =
     msg_topic m @ [10] @ lit ''---'' @ [10, 34] @
     (case Message_data_as_str m of Inr s \<Rightarrow> s | Inl _ \<Rightarrow> debug_hex (msg_data m)) @ [34]"

definition cli_listen :: "Opts \<Rightarrow> Message list \<Rightarrow> bool \<Rightarrow> (handle, str, str list) io" where
  "cli_listen opts messages interrupted =
     io_bind (cli_subscribe opts) (\<lambda>waiting.
     io_bind (cli_finish interrupted) (\<lambda>_.
     io_return (map listen_line (waiting @ messages))))"

section \<open>Watching\<close>

record top_state =
  tp_stats :: "TopicStat list"
  tp_last_refresh :: "instant option"
  tp_tables :: "TopicStat list list" \<comment> \<open>the rows of the tables printed so far\<close>

definition top_start :: top_state where
  "top_start = \<lparr>tp_stats = [], tp_last_refresh = None, tp_tables = []\<rparr>"

text \<open>One message, received at a time; a table is printed at most once in a second.\<close>

definition show_step :: duration where
  "show_step = secs 1"

definition top_step :: "(instant \<Rightarrow> u8) \<Rightarrow> (instant \<Rightarrow> nat option) \<Rightarrow> instant \<times> Message \<Rightarrow> top_state \<Rightarrow> str + top_state" where
  "top_step sort_mode height received st =
     (case received of (at, m) \<Rightarrow>
      let st = st\<lparr>tp_stats := top_record m (tp_stats st)\<rparr> in
      case tp_last_refresh st of
        Some last_refresh \<Rightarrow>
          if at - last_refresh < show_step then Inr st
          else
            res_bind (ok_or (lit ''called Option::unwrap() on a None value'') (height at)) (\<lambda>h.
            Inr (st\<lparr>tp_last_refresh := Some at, tp_tables := tp_tables st @ [top_rows (sort_mode at) h (tp_stats st)]\<rparr>))
      | None \<Rightarrow>
          res_bind (ok_or (lit ''called Option::unwrap() on a None value'') (height at)) (\<lambda>h.
          Inr (st\<lparr>tp_last_refresh := Some at, tp_tables := tp_tables st @ [top_rows (sort_mode at) h (tp_stats st)]\<rparr>)))"

fun top_loop :: "(instant \<Rightarrow> u8) \<Rightarrow> (instant \<Rightarrow> nat option) \<Rightarrow> (instant \<times> Message) list \<Rightarrow> top_state \<Rightarrow> str + top_state" where
  "top_loop sort_mode height [] st = Inr st"
| "top_loop sort_mode height (x # xs) st = res_bind (top_step sort_mode height x st) (top_loop sort_mode height xs)"

definition cli_top ::
  "Opts \<Rightarrow> (instant \<Rightarrow> u8) \<Rightarrow> (instant \<Rightarrow> nat option) \<Rightarrow> (instant \<times> Message) list \<Rightarrow> bool \<Rightarrow> (handle, str, top_state) io" where
  "cli_top opts sort_mode height messages interrupted =
     io_bind (cli_subscribe opts) (\<lambda>waiting.
     io_bind (io_lift (top_loop sort_mode height (map (Pair 0) waiting @ messages) top_start)) (\<lambda>st.
     io_bind (cli_finish interrupted) (\<lambda>_.
     io_return st)))"

section \<open>The program\<close>

text \<open>
  \<^verbatim>\<open>main\<close>: the branch it takes and, for a branch with one client, what is printed and the client at the
  end.  \<open>read_file\<close> reads the certificate.
\<close>

datatype cli_end = Benchmarked "BenchmarkWorker list" | Topped top_state handle | Listened "str list" handle | Published handle

definition with_handle :: "(handle, str, 'a) io \<Rightarrow> handle \<Rightarrow> str + 'a \<times> handle" where
  "with_handle f h = (case f h of (Inl e, _) \<Rightarrow> Inl e | (Inr x, h') \<Rightarrow> Inr (x, h'))"

definition cli_main ::
  "(str \<Rightarrow> io_error + str) \<Rightarrow> connector \<Rightarrow> (nat \<Rightarrow> u32) \<Rightarrow> (str \<Rightarrow> nat option) \<Rightarrow> (instant \<Rightarrow> u8) \<Rightarrow> (instant \<Rightarrow> nat option) \<Rightarrow>
     (instant \<times> Message) list \<Rightarrow> bool \<Rightarrow> Opts \<Rightarrow> str + cli_end" where
  "cli_main read_file connect rng parse_size sort_mode height messages interrupted opts =
     res_bind (case op_tls_ca opts of
         Some cafile \<Rightarrow>
           res_bind (map_err (\<lambda>_. lit ''called Result::unwrap() on an Err value'') (read_file cafile)) (\<lambda>ca. Inr (Some ca))
       | None \<Rightarrow> Inr None) (\<lambda>tls_ca.
     let config = cli_config opts tls_ca in
     if op_benchmark opts then
       res_bind (benchmark connect rng parse_size config (op_benchmark_workers opts) (op_benchmark_iterations opts)
         (op_benchmark_cluster_sub opts)) (\<lambda>ws. Inr (Benchmarked ws))
     else if op_top opts then
       res_bind (connect_unwrap connect 0 config) (\<lambda>(h, _).
       res_bind (with_handle (cli_top opts sort_mode height messages interrupted) h) (\<lambda>(st, h). Inr (Topped st h)))
     else
       res_bind (connect_unwrap connect 0 (cli_run_config opts config)) (\<lambda>(h, _).
       case op_message opts of
         Some msg \<Rightarrow>
           res_bind (with_handle (io_bind (cli_publish parse_size opts msg) (\<lambda>_. unwrap_io h_bye)) h) (\<lambda>(_, h). Inr (Published h))
       | None \<Rightarrow>
           res_bind (with_handle (cli_listen opts (map snd messages) interrupted) h) (\<lambda>(lines, h). Inr (Listened lines h))))"

section \<open>Lemmas\<close>

text \<open>The statistics after any messages are those of the table of all messages.\<close>

lemma top_loop_stats:
  "top_loop sort_mode height xs st = Inr st' \<Longrightarrow> tp_stats st' = fold top_record (map snd xs) (tp_stats st)"
proof (induction xs arbitrary: st)
  case (Cons x xs)
  then obtain st1 where 1: "top_step sort_mode height x st = Inr st1" and 2: "top_loop sort_mode height xs st1 = Inr st'"
    by (auto simp: res_bind_Inr_iff)
  have "tp_stats st1 = top_record (snd x) (tp_stats st)"
    using 1 by (auto simp: top_step_def Let_def res_bind_Inr_iff split: prod.splits option.splits if_splits)
  then show ?case using Cons.IH [OF 2] by simp
qed simp

text \<open>What the branches with one client send.\<close>

lemma publish_commands:
  assumes "io_bind (cli_publish parse_size opts msg) (\<lambda>_. unwrap_io h_bye) h = (Inr u, h')"
  shows "\<exists>topic m. op_topic opts = Some topic \<and> cli_payload parse_size msg = Returns m \<and>
    h_sent h' = h_sent h @ [Publish DEFAULT_PRIORITY topic m, Bye]"
proof -
  obtain x h1 where 1: "cli_publish parse_size opts msg h = (Inr x, h1)" and 2: "unwrap_io h_bye h1 = (Inr u, h')"
    using assms by (rule io_bind_Inr_cases)
  have "h_sent h' = h_sent h1 @ [Bye]" using 2 h_bye_sent by (auto simp: unwrap_io_def split: prod.splits)
  then show ?thesis
    using 1 by (auto simp: cli_publish_def unwrap_io_def dest: exec_sent split: option.splits outcome.splits prod.splits)
qed

lemma subscribe_commands:
  assumes "cli_subscribe opts h = (Inr waiting, h')"
  shows "\<exists>topic. op_topic opts = Some topic \<and> h_sent h' = h_sent h @ [SubscribeBulk (split_on (of_char CHR '','') topic)]"
proof -
  obtain w h1 where 1: "cli_take_channel h = (Inr w, h1)"
    and 2: "(case cli_parse_topics (op_topic opts) of Panics e \<Rightarrow> io_throw e
      | Returns topics \<Rightarrow> io_bind (unwrap_io (exec (SubscribeBulk topics))) (\<lambda>_. io_return w)) h1 = (Inr waiting, h')"
    using assms unfolding cli_subscribe_def by (rule io_bind_Inr_cases)
  have "h_sent h1 = h_sent h" using 1 by (auto simp: cli_take_channel_def split: prod.splits option.splits)
  then show ?thesis
    using 2 by (auto simp: cli_parse_topics_def unwrap_io_def elim!: io_bind_Inr_cases
        split: option.splits outcome.splits prod.splits)
      (drule exec_sent, simp)
qed

end
