(* ===== verification/Spec2Isabelle.thy ===== *)
theory Spec2Isabelle
  imports Replication_Props Udp_Examples Server_Types Server_Main Cli_Main
begin

text \<open>
  \<^bold>\<open>A verification development of PSRT\<close>, the industrial publish/subscribe server \<^verbatim>\<open>psrtd\<close>, its client
  library and its command-line client, written in Rust under \<^verbatim>\<open>src/src/\<close>.

  \<^bold>\<open>The program and how its parts interact.\<close>  A client opens a control stream to the server, logs in
  and gets a session token; with the token it may attach a second stream, the data stream.  On the control
  stream it subscribes, unsubscribes and publishes; every operation is a frame that the server answers with
  one response byte.  A publication is matched against the subscriptions of all clients and its frame is put
  into the bounded queue of each subscriber that has a data stream; a writer task per data stream empties the
  queue onto the stream, and a beacon task keeps the stream alive.  Messages can also be published by single,
  possibly encrypted, UDP packets, and are replicated between the nodes of a cluster.  Access lists say which
  topics a login may read and write; the tables of passwords, keys and access lists are read from files and
  read again on a hangup signal.

  \<^bold>\<open>Which theory models which part\<close> (each definition carries the name of the function it translates):

  \<^item> \<^verbatim>\<open>Prelude\<close>, \<^verbatim>\<open>Rust_Str\<close>, \<^verbatim>\<open>Rust_Time\<close>: Rust's integers, byte strings, results, panics, effects and
    little-endian codecs; the string functions and UTF-8 validation of the standard library;
    \<^verbatim>\<open>Duration::from_secs_f64\<close>.
  \<^item> \<^verbatim>\<open>Psrt_Lib\<close> (\<^verbatim>\<open>lib.rs\<close>): protocol constants, errors, \<^verbatim>\<open>reduce_timeout\<close>, \<^verbatim>\<open>Message::from_buf\<close>.
  \<^item> \<^verbatim>\<open>Comm\<close> (\<^verbatim>\<open>comm.rs\<close>): a stream with the times at which its bytes arrive, and framed reading under a timeout.
  \<^item> \<^verbatim>\<open>Acl\<close> (\<^verbatim>\<open>acl.rs\<close>), \<^verbatim>\<open>Token\<close> (\<^verbatim>\<open>token.rs\<close>), \<^verbatim>\<open>Passwords\<close> (\<^verbatim>\<open>passwords.rs\<close>), \<^verbatim>\<open>Keys\<close> (\<^verbatim>\<open>keys.rs\<close>):
    access lists, session tokens, the password table, the UDP keys and authenticated decryption.
  \<^item> \<^verbatim>\<open>Topic\<close>, \<^verbatim>\<open>Pubsub\<close>, \<^verbatim>\<open>Registry\<close> (\<^verbatim>\<open>pubsub.rs\<close>): \<^verbatim>\<open>prepare_topic\<close>, the client database over an explicit
    store of shared objects, and its correctness; \<^verbatim>\<open>Crates\<close> holds reference instances of the two crates
    behind it, \<^verbatim>\<open>Samples\<close> a concrete server for the witnesses.
  \<^item> \<^verbatim>\<open>Stats\<close>, \<^verbatim>\<open>Server_State\<close>, \<^verbatim>\<open>Server_Data\<close>, \<^verbatim>\<open>Server_Control\<close>, \<^verbatim>\<open>Server_Udp\<close> (\<^verbatim>\<open>server.rs\<close>): counters and
    statics; queueing, data streams and their writers; the control sessions with every operation; the UDP
    listener, together with the \<^verbatim>\<open>UdpClient\<close> of \<^verbatim>\<open>client.rs\<close>.
  \<^item> \<^verbatim>\<open>Server_Steps\<close>, \<^verbatim>\<open>Control_Props\<close>, \<^verbatim>\<open>Server_Types\<close>: the shared server as a state machine, what sessions do,
    and the type of the queues.
  \<^item> \<^verbatim>\<open>Server_Http\<close> (\<^verbatim>\<open>mod stats\<close> of \<^verbatim>\<open>server.rs\<close>, \<^verbatim>\<open>eva_svc.rs\<close>): the statistics pages and the calls of the bus.
  \<^item> \<^verbatim>\<open>Server_Launch\<close>, \<^verbatim>\<open>Server_Main\<close> (\<^verbatim>\<open>server.rs\<close>, \<^verbatim>\<open>eva_svc.rs\<close>): the configuration, listeners, loading,
    \<^verbatim>\<open>launch\<close>; options, loggers, the search for the configuration, \<^verbatim>\<open>main\<close> and the end of the process.
  \<^item> \<^verbatim>\<open>Client\<close>, \<^verbatim>\<open>Client_Props\<close>, \<^verbatim>\<open>Replication_Props\<close> (\<^verbatim>\<open>client.rs\<close>): the client library, and the client against
    the server.
  \<^item> \<^verbatim>\<open>Cli\<close>, \<^verbatim>\<open>Cli_Bench\<close>, \<^verbatim>\<open>Cli_Main\<close> (\<^verbatim>\<open>cli.rs\<close>, \<^verbatim>\<open>examples/pubsub.rs\<close>): the command-line client, its
    benchmark, and the example.
  \<^item> \<^verbatim>\<open>Udp_Examples\<close> (\<^verbatim>\<open>examples/udp_client.rs\<close>, \<^verbatim>\<open>examples/udp_aes.rs\<close>): the programs that publish over UDP.

  \<^bold>\<open>State and operations.\<close>  A handler is a function on a \<open>World\<close>: its own stream and the shared
  \<open>Server\<close>, whose fields are the locked tables of \<^verbatim>\<open>server.rs\<close> and \<^verbatim>\<open>pubsub.rs\<close>.  It has the type
  \<open>('s, 'e, 'a) io\<close>, an early return with \<^verbatim>\<open>?\<close> is an \<open>Inl\<close> that keeps the state changes made before, and
  a panic is an \<open>outcome\<close>.  Objects behind an \<^verbatim>\<open>Arc\<close> live in the store \<open>st_cells\<close>, queues in
  \<open>st_chans\<close>, both by number, so that aliasing is explicit.  Interleaving is modelled by \<open>server_step\<close>, whose
  actions are the single calls under a lock and the single operations on a queue; every handler is shown to
  act on the server only by such actions, so what is proved of reachable servers holds between any two
  actions of any tasks.

  \<^bold>\<open>What is a parameter.\<close>  Crates and services that are not part of the repository are arguments:
  the subscription tree (\<open>submap_ops\<close>) and the queues (\<open>chan_ops\<close>), SHA-256, bcrypt, OpenSSL, hexadecimal
  and YAML readers, TLS, the clock, the file system, the runtime and the service bus.  What the program relies
  on of them is stated by the locales \<open>submap_laws\<close>, \<open>bounded_channel\<close>, \<open>aead_scheme\<close> and \<open>hex_codec\<close>;
  each is interpreted by an executable instance, on which the witnesses evaluate the theorems.

  \<^bold>\<open>What the theorems show.\<close>  From a publisher to a subscriber: a published message is acknowledged,
  queued for exactly the matching clients and passed on once, in order (this theory).  The state machine: the
  tables, the subscription map, the client objects and the queues stay consistent under every interleaving, and
  the queues hold only well-typed messages, on which no writer panics.  Sessions: each operation on every
  branch, the authority of a session, what it leaves behind, and the time an operation takes.  Client and
  server understand each other: commands, responses, both logins, the data stream, replication and UDP
  packets.  Access lists, topics, tokens, passwords and keys: the declarative meaning of masks, canonical
  topics, and round trips of everything that is printed and parsed.  The process: what a launch establishes,
  what a hangup reloads, and that nothing is left behind.  Several theorems of the kind \<^verbatim>\<open>error\<close> state defects:
  subscriptions that escape the access list, and clients that stay registered when their token cannot be
  written.

  \<^bold>\<open>Bounds and fuel.\<close>  No definition uses fuel.  The loops of a session and of the two tasks of a client
  end because every round consumes input; the input of a stream is finite, and what arrives later is part
  of it with a later time.  \<^verbatim>\<open>prepare_topic\<close> ends because every replacement shortens the topic, waiting for a
  socket because the clock advances, and registering a client as soon as a fresh token is drawn: the
  outcome \<open>None\<close> stands for a generator that never yields one.  Lengths on the wire are 32-bit words that
  wrap, and the theorems that need them small say so.

  \<^bold>\<open>Not modelled.\<close>  The text of log messages and of the statistics page, the layout of the table that
  \<^verbatim>\<open>--top\<close> prints and the times the benchmark measures; the wire formats of TLS, HTTP, JSON, YAML and the
  service bus; the replication module, whose source is not part of the repository (the calls to it are
  recorded).  Partial writes: a write call succeeds or fails as a whole.  Memory exhaustion and
  the scheduling of tasks below the granularity of one action.
\<close>

section \<open>From a publisher to a subscriber\<close>

text \<open>The topic a message is published under is one that a data stream can carry.\<close>

lemma canonical_deliverable:
  assumes "sendable st (Publish p t m)"
  shows "deliverable (Some (p, canonical_topic t, m, ts))"
proof -
  have "set (canonical_topic t) \<subseteq> insert slash (set t)" "length (canonical_topic t) \<le> length t"
    "utf8_valid t \<Longrightarrow> utf8_valid (canonical_topic t)"
    using set_normalized [of t] length_normalized [of t] utf8_valid_normalized [of t]
    by (simp_all add: normalized_canonical)
  then show ?thesis using assms by (auto simp: sound_topic_def slash_def)
qed

text \<open>The round of a session that publishes.\<close>

lemma publish_round:
  assumes s: "sendable (sv_statics (w_server w)) (Publish p t m)" and arr: "arrived w (wire (Publish p t m) @ rest)"
    and f: "s_wfault (w_stream w) = None"
    and d: "count_list (canonical_topic t) slash \<le> MAX_TOPIC_DEPTH (sv_statics (w_server w))"
      "\<not> has_invalid_symbols (canonical_topic t)" "allow_write acl (canonical_topic t)"
    and sv: "sv = count (count_pub_bytes (word_of_nat (length t + 1 + length m))) (w_server w)"
  shows "control_step ext c acl timeout w =
    (Inr True, replied RESPONSE_OK (consumed (length (wire (Publish p t m)))
      (w\<lparr>w_server := publish ext p (canonical_topic t) m (ext_now_ns ext (s_now (w_stream w))) sv\<rparr>)))"
proof -
  let ?w = "consumed (length (wire (Publish p t m))) w" and ?ts = "ext_now_ns ext (s_now (w_stream w))"
  have t: "0 \<notin> set t" "utf8_valid t" "t \<noteq> []" using s by (simp_all add: sound_topic_def)
  have "publish_frame ext acl p ?ts (t @ 0 # m) ?w =
      (Inr (), replied RESPONSE_OK (?w\<lparr>w_server := publish ext p (canonical_topic t) m ?ts sv\<rparr>))"
    using publish_frame_cases [OF t _ refl refl, of ?w] f d by (simp add: sv not_less)
  then show ?thesis
    using server_serves [OF s arr] by (simp add: io_bind_Inr goes_on_def consumed_server)
qed

text \<open>
  C1: a message travels from a publisher to a subscriber.  A client publishes a message, the bytes of
  the command arrive at its session on a reachable server, the access list allows the topic, and some
  client with an attached data stream and room in its queue has a subscription that matches the
  canonical topic.  Then the session answers \<^verbatim>\<open>RESPONSE_OK\<close>, and whenever the writer of that data
  stream has written the queue, the data task of the subscribed client that reads these bytes passes
  on what was queued before and then the message, once, under the canonical topic and with its
  priority.
\<close>

theorem message_reaches_client:
  assumes "submap_laws (ext_submap ext) clients subs invar" and "bounded_channel (ext_chan ext) queued capacity closed"
    and reach: "server_reachable ext (w_server w)"
    and s: "sendable (sv_statics (w_server w)) (Publish p t m)" and arr: "arrived w (wire (Publish p t m) @ rest)"
    and f: "s_wfault (w_stream w) = None"
    and d: "count_list (canonical_topic t) slash \<le> MAX_TOPIC_DEPTH (sv_statics (w_server w))"
      "\<not> has_invalid_symbols (canonical_topic t)" "allow_write acl (canonical_topic t)"
    and wf: "\<forall>x \<in> subs (db_submap (sv_db (w_server w))). wf_pattern (fst x)"
    and dc: "get_data_channel c (sv_store (w_server w)) = Some dc"
      "db_clients (sv_db (w_server w)) (cl_token c) = Some c"
    and room: "\<not> closed (st_chans (sv_store (w_server w)) dc)"
      "length (queued (st_chans (sv_store (w_server w)) dc)) < DATA_QUEUE_SIZE (sv_statics (w_server w))"
    and sub: "(pat, c) \<in> subs (db_submap (sv_db (w_server w)))" "topic_matches pat (canonical_topic t)"
    and q: "queued (st_chans (sv_store (w_server w)) dc) = map frame_of pubs" "\<forall>x \<in> set pubs. deliverable x"
  shows "\<exists>w'. control_step ext publisher acl timeout w = (Inr True, w') \<and>
    s_out (w_stream w') = s_out (w_stream w) @ [RESPONSE_OK] \<and>
    (\<forall>rcs wr. map rc_message rcs = queued (st_chans (sv_store (w_server w')) dc) \<and> s_wfault (wr_stream wr) = None \<longrightarrow>
      (\<exists>wr'. handle_data_stream timeout' bi lw rcs wr = (Return (Inr ()), wr') \<and>
        (\<forall>dr. reader_holds dr (drop (length (s_out (wr_stream wr))) (s_out (wr_stream wr'))) \<longrightarrow>
          dr_messages (snd (run_data_stream dr)) = dr_messages dr @ concat (map messages_of pubs) @
            [\<lparr>msg_priority = p, msg_topic = canonical_topic t, msg_data = m\<rparr>])))"
proof -
  define ts where "ts = ext_now_ns ext (s_now (w_stream w))"
  define sv where "sv = count (count_pub_bytes (word_of_nat (length t + 1 + length m))) (w_server w)"
  define w' where "w' = replied RESPONSE_OK (consumed (length (wire (Publish p t m)))
      (w\<lparr>w_server := publish ext p (canonical_topic t) m ts sv\<rparr>))"
  let ?new = "Some (p, canonical_topic t, m, ts) :: publication"
  have step: "control_step ext publisher acl timeout w = (Inr True, w')"
    unfolding w'_def ts_def by (rule publish_round [OF s arr f d sv_def])
  have w': "w_server w' = publish ext p (canonical_topic t) m ts sv" "s_out (w_stream w') = s_out (w_stream w) @ [RESPONSE_OK]"
    by (simp_all add: w'_def replied_def consumed_def)
  have svs: "sv_db sv = sv_db (w_server w)" "sv_store sv = sv_store (w_server w)" "sv_statics sv = sv_statics (w_server w)"
    by (simp_all add: sv_def count_def)
  have plain: "plain_topic (canonical_topic t)"
    using d(2) by (auto simp: plain_topic_def has_invalid_symbols_def list_ex_iff)
  note env = server_env.intro [OF assms(1,2)]
  have "server_reachable ext sv" unfolding sv_def by (rule server_reachable.step [OF reach act_count])
  then have "queued (st_chans (sv_store (w_server w')) dc) = map frame_of (pubs @ [?new])"
    using server_env.publish_queue(2) [OF env server_env.reachable_inv [OF env] plain, of sv c dc _ p m ts] svs wf dc room sub q(1) w'(1)
    by auto
  moreover have "\<forall>x \<in> set (pubs @ [?new]). deliverable x" using q(2) canonical_deliverable [OF s] by simp
  ultimately have "\<exists>wr'. handle_data_stream timeout' bi lw rcs wr = (Return (Inr ()), wr') \<and>
      (\<forall>dr. reader_holds dr (drop (length (s_out (wr_stream wr))) (s_out (wr_stream wr'))) \<longrightarrow>
        dr_messages (snd (run_data_stream dr)) = dr_messages dr @ concat (map messages_of (pubs @ [?new])))"
    if "map rc_message rcs = queued (st_chans (sv_store (w_server w')) dc)" "s_wfault (wr_stream wr) = None" for rcs wr
    using writer_reader [of "pubs @ [?new]" rcs wr timeout' bi lw] that by metis
  with step w'(2) show ?thesis by (intro exI [of _ w']) simp
qed

theorem message_reaches_client_witness:
  "\<exists>w'. control_step sample_ext sample_client sample_acl 5 (sample_session (wire (Publish 127 (lit ''a//b'') [1, 2]))) =
      (Inr True, w') \<and> s_out (w_stream w') = [RESPONSE_OK]"
proof -
  let ?cmd = "Publish 127 (lit ''a//b'') [1, 2]"
  let ?w = "sample_session (wire ?cmd)"
  have w: "w_server ?w = sample_server" "s_wfault (w_stream ?w) = None" "s_out (w_stream ?w) = []"
    by (simp_all add: sample_session_def SStream_new_def)
  have "sound_topic (lit ''a//b'')" by code_simp
  then have s: "sendable (sv_statics (w_server ?w)) ?cmd"
    by (simp add: w sample_server_def) (simp add: lit_def)
  have c: "canonical_topic (lit ''a//b'') = lit ''a/b''" by code_simp
  have t: "count_list (lit ''a/b'') slash \<le> 9" "\<not> has_invalid_symbols (lit ''a/b'')" "topic_matches (lit ''a/+'') (lit ''a/b'')"
    "wf_pattern (lit ''a/+'')" "matches_loop (split_on slash (lit ''a/b'')) [lit ''a'', lit ''#'']"
    by code_simp+
  then have a: "allow_write sample_acl (lit ''a/b'')"
    by (simp add: allow_write_def sample_acl_def PathMaskList_matches_def PathMaskList_matches_split_def
        PathMaskList_new_def PathMask_matches_split_def)
  have arr: "arrived ?w (wire ?cmd @ [])" using sample_session_arrived by simp
  have reach: "server_reachable sample_ext (w_server ?w)" using sample_reachable by (simp add: w)
  show ?thesis
    using message_reaches_client [OF sample_submap sample_channel reach s arr w(2), unfolded w c,
        of sample_acl sample_client 1 "lit ''a/+''" "[]" sample_client 5 5 10 0] t a
    by (auto simp: sample_db_def sample_queue_def sample_server_def)
qed

end
